(* ===== verification/Prelude.thy ===== *)
theory Prelude
  imports Complex_Main "HOL-Library.List_Lexorder" "HOL-Library.Char_ord" "HOL-Library.Multiset"
begin

text \<open>
  Shared vocabulary of the TMDb genre-popularity development: the cells a pandas
  column holds, the errors the modelled pandas calls raise, the result type that
  threads them, and generic lemmas on lists that the component theories share.
  Floating-point values are modelled as exact \<open>real\<close>s (see the root header).
\<close>

section \<open>Cells, errors and results\<close>

text \<open>
  A pandas cell of the analysed columns: a Python string (\<open>genres\<close>), a number
  (the float64 and int64 columns), or the missing value \<open>NaN\<close>/\<open>None\<close>.
\<close>

datatype cell = Str string | Num real | NaN

text \<open>A string cell: what makes a column \<open>object\<close> and a numeric operation raise.\<close>

definition is_str :: "cell \<Rightarrow> bool" where
  "is_str v = (case v of Str _ \<Rightarrow> True | _ \<Rightarrow> False)"

text \<open>
  The exceptions the modelled code can raise: \<open>KeyError\<close> from a missing column
  (with the missing names), \<open>TypeError\<close> from arithmetic or ordering on a value
  of the wrong kind, \<open>ValueError\<close> from \<open>DataFrame.join\<close> on overlapping columns.
\<close>

datatype error = KeyError "string list" | TypeError | ValueError string | NameError string

type_synonym 'a result = "error + 'a"

text \<open>A series: index labels paired with cells, in order.\<close>

type_synonym 'i series = "('i \<times> cell) list"

definition rbind :: "'a result \<Rightarrow> ('a \<Rightarrow> 'b result) \<Rightarrow> 'b result" where
  "rbind m f = (case m of Inl e \<Rightarrow> Inl e | Inr a \<Rightarrow> f a)"

text \<open>A Python loop over a list that stops at the first exception.\<close>

fun map_result :: "('a \<Rightarrow> 'b result) \<Rightarrow> 'a list \<Rightarrow> 'b list result" where
  "map_result f [] = Inr []"
| "map_result f (x # xs) = rbind (f x) (\<lambda>y. rbind (map_result f xs) (\<lambda>ys. Inr (y # ys)))"

text \<open>\<open>pd.unique\<close> and the union of indexes: each value once, at its first occurrence.\<close>

definition unique :: "'a list \<Rightarrow> 'a list" where
  "unique xs = rev (remdups (rev xs))"

named_theorems model_simps "simplification rules of the pipeline model"

lemma rbind_Inl [simp, model_simps]: "rbind (Inl e) f = Inl e"
  by (simp add: rbind_def)

lemma rbind_Inr [simp, model_simps]: "rbind (Inr a) f = f a"
  by (simp add: rbind_def)

lemma map_result_Inr:
  "(\<forall>x \<in> set xs. f x = Inr (g x)) \<Longrightarrow> map_result f xs = Inr (map g xs)"
  by (induction xs) auto

lemma map_result_eq_Inr:
  "map_result f xs = Inr ys \<Longrightarrow> length ys = length xs \<and> (\<forall>k < length xs. f (xs ! k) = Inr (ys ! k))"
proof (induction xs arbitrary: ys)
  case Nil
  then show ?case by simp
next
  case (Cons x xs)
  then obtain y ys' where "f x = Inr y" "map_result f xs = Inr ys'" "ys = y # ys'"
    by (auto simp: rbind_def split: sum.splits)
  with Cons.IH show ?case by (auto simp: nth_Cons split: nat.splits)
qed

lemma rbind_eq_Inr:
  "rbind m f = Inr b \<longleftrightarrow> (\<exists>a. m = Inr a \<and> f a = Inr b)"
  by (cases m) auto

section \<open>The order of group keys\<close>

text \<open>
  pandas sorts group keys with \<open>safe_sort\<close>: numbers by value, strings by code
  point, and, in a column that mixes them, the numbers before the strings.
  \<open>NaN\<close> keys are dropped before sorting; it is put last here to make the order total.
\<close>

fun safe_sort_le :: "cell \<Rightarrow> cell \<Rightarrow> bool" where
  "safe_sort_le (Num x) (Num y) = (x \<le> y)"
| "safe_sort_le (Num x) _ = True"
| "safe_sort_le (Str s) (Num y) = False"
| "safe_sort_le (Str s) (Str t) = (s \<le> t)"
| "safe_sort_le (Str s) NaN = True"
| "safe_sort_le NaN v = (v = NaN)"

instantiation cell :: linorder
begin

definition less_eq_cell :: "cell \<Rightarrow> cell \<Rightarrow> bool" where
  "less_eq_cell = safe_sort_le"

definition less_cell :: "cell \<Rightarrow> cell \<Rightarrow> bool" where
  "less_cell v w \<longleftrightarrow> v \<le> w \<and> \<not> w \<le> v"

instance
proof
  fix x y z :: cell
  show "x < y \<longleftrightarrow> x \<le> y \<and> \<not> y \<le> x" by (simp add: less_cell_def)
  note less_eq_cell_def [simp]
  show "x \<le> x" by (cases x) simp_all
  show "x \<le> y \<Longrightarrow> y \<le> z \<Longrightarrow> x \<le> z"
    by (cases x; cases y; cases z) auto
  show "x \<le> y \<Longrightarrow> y \<le> x \<Longrightarrow> x = y"
    by (cases x; cases y) auto
  show "x \<le> y \<or> y \<le> x"
    by (cases x; cases y) auto
qed

end

lemma less_eq_cell_safe_sort [simp]: "(v :: cell) \<le> w \<longleftrightarrow> safe_sort_le v w"
  by (simp add: less_eq_cell_def)

section \<open>Generic list lemmas\<close>

lemma concat_map_singleton_map:
  "concat (map (\<lambda>x. [f x]) xs) = map f xs"
  by (induction xs) auto

lemma sum_list_map_filter_cong:
  "(\<And>x. x \<in> set xs \<Longrightarrow> P x \<Longrightarrow> f x = g x) \<Longrightarrow>
   sum_list (map f (filter P xs)) = sum_list (map g (filter P xs))"
  by (induction xs) auto

lemma length_concat_map_sum:
  "length (concat (map f xs)) = sum_list (map (\<lambda>x. length (f x)) xs)"
  by (induction xs) auto

lemma filter_concat_map:
  "filter P (concat (map f xs)) = concat (map (\<lambda>x. filter P (f x)) xs)"
  by (induction xs) auto

lemma zip_upt_right: "(i, r) \<in> set (zip [0..<n] ys) \<Longrightarrow> r \<in> set ys"
  by (rule set_zip_rightD)

lemma map_zip_upt_snd:
  assumes "length ys = n"
  shows "map (\<lambda>(i, r). h r) (zip [0..<n] ys) = map h ys"
proof -
  have "map (\<lambda>(i, r). h r) (zip [0..<n] ys) = map h (map snd (zip [0..<n] ys))"
    by (simp add: case_prod_unfold)
  also have "map snd (zip [0..<n] ys) = ys" using assms by (simp add: map_snd_zip)
  finally show ?thesis .
qed

lemma remdups_prefix_subset:
  "distinct ys \<Longrightarrow> set xs \<subseteq> set ys \<Longrightarrow> remdups (xs @ ys) = ys"
  by (induction xs) (auto simp: distinct_remdups_id)

lemma unique_append_subset:
  "distinct xs \<Longrightarrow> set ys \<subseteq> set xs \<Longrightarrow> unique (xs @ ys) = xs"
  by (simp add: unique_def remdups_prefix_subset)

lemma remdups_snoc:
  "remdups (xs @ [x]) = remdups (filter (\<lambda>y. y \<noteq> x) xs) @ [x]"
  by (induction xs) auto

lemma map_fst_filter_zip_map_left:
  "map g (map fst (filter (\<lambda>(x, d). P d) (zip xs ds))) =
   map fst (filter (\<lambda>(y, d). P d) (zip (map g xs) ds))"
proof (induction xs arbitrary: ds)
  case Nil
  then show ?case by simp
next
  case (Cons x xs)
  then show ?case by (cases ds) auto
qed

end
