(* ===== verification/Frame.thy ===== *)
theory Frame
  imports Prelude
begin

text \<open>
  The pandas DataFrame operations of the data-cleaning cells of
  src/Investigate_a_Dataset.py (lines 41--101): column projection
  \<open>df[[...]]\<close>, the zero filter \<open>df[(df != 0).all(1)]\<close>, \<open>duplicated\<close>,
  \<open>drop_duplicates\<close>, \<open>reset_index(drop=True)\<close>, \<open>shape\<close> and
  \<open>isnull().sum()\<close>. A frame is its column names and its rows, each row an index
  label with one cell per column, in order.
\<close>

section \<open>Frames\<close>

record 'i frame =
  cols :: "string list"
  rows :: "('i \<times> cell list) list"

text \<open>
  Well-formedness: column names are distinct (pandas allows duplicates, but the
  CSV header of the dataset has none) and every row has one cell per column.
\<close>

definition wf_frame :: "'i frame \<Rightarrow> bool" where
  "wf_frame f \<longleftrightarrow> distinct (cols f) \<and> list_all (\<lambda>(i, r). length r = length (cols f)) (rows f)"

text \<open>The position of a column name, as \<open>Index.get_loc\<close> finds it.\<close>

fun col_pos :: "string \<Rightarrow> string list \<Rightarrow> nat option" where
  "col_pos c [] = None"
| "col_pos c (x # xs) = (if x = c then Some 0 else map_option Suc (col_pos c xs))"

section \<open>Column access and projection\<close>

text \<open>\<open>df[c]\<close> and \<open>df.c\<close>: the column as a series, \<open>KeyError\<close> when it is absent.\<close>

definition get_column :: "string \<Rightarrow> 'i frame \<Rightarrow> 'i series result" where
  "get_column c f =
     (case col_pos c (cols f) of
        None \<Rightarrow> Inl (KeyError [c])
      | Some k \<Rightarrow> Inr (map (\<lambda>(i, r). (i, r ! k)) (rows f)))"

text \<open>
  \<open>df[[c1, ..., cn]]\<close> (line 68): \<open>KeyError\<close> naming the requested columns that
  are absent; otherwise the columns in the requested order, index unchanged.
\<close>

definition select_columns :: "string list \<Rightarrow> 'i frame \<Rightarrow> 'i frame result" where
  "select_columns names f =
     (let missing = filter (\<lambda>c. col_pos c (cols f) = None) names in
      if missing \<noteq> [] then Inl (KeyError missing)
      else Inr \<lparr>cols = names,
                rows = map (\<lambda>(i, r). (i, map (\<lambda>c. r ! the (col_pos c (cols f))) names)) (rows f)\<rparr>)"

section \<open>The zero filter \<open>df[(df != 0).all(1)]\<close>\<close>

text \<open>
  \<open>cell != 0\<close>: a string is never equal to the integer \<open>0\<close>, \<open>NaN != 0\<close> holds,
  a number is compared numerically.
\<close>

fun ne_zero :: "cell \<Rightarrow> bool" where
  "ne_zero (Str s) = True"
| "ne_zero (Num x) = (x \<noteq> 0)"
| "ne_zero NaN = True"

text \<open>\<open>df != 0\<close>: the elementwise comparison, a frame of booleans.\<close>

definition ne_zero_frame :: "'i frame \<Rightarrow> ('i \<times> bool list) list" where
  "ne_zero_frame f = map (\<lambda>(i, r). (i, map ne_zero r)) (rows f)"

text \<open>\<open>.all(1)\<close>: reduce every row with \<open>and\<close>.\<close>

definition all_axis1 :: "('i \<times> bool list) list \<Rightarrow> ('i \<times> bool) list" where
  "all_axis1 m = map (\<lambda>(i, bs). (i, list_all id bs)) m"

text \<open>
  \<open>df[mask]\<close> with a boolean series built from \<open>df\<close> itself, so aligned with its
  rows position by position: keep the rows where the mask is true.
\<close>

definition bool_index :: "'i frame \<Rightarrow> ('i \<times> bool) list \<Rightarrow> 'i frame" where
  "bool_index f m = f\<lparr>rows := map fst (filter (\<lambda>(row, (_, b)). b) (zip (rows f) m))\<rparr>"

definition drop_zero_rows :: "'i frame \<Rightarrow> 'i frame" where
  "drop_zero_rows f = bool_index f (all_axis1 (ne_zero_frame f))"

section \<open>Duplicates\<close>

text \<open>
  \<open>df.duplicated()\<close> with \<open>keep='first'\<close>: a row is marked when an earlier row
  has the same values (the index label is not compared; \<open>NaN\<close> equals \<open>NaN\<close>).
\<close>

fun dup_marks :: "cell list list \<Rightarrow> cell list list \<Rightarrow> bool list" where
  "dup_marks seen [] = []"
| "dup_marks seen (r # rs) = (r \<in> set seen) # dup_marks (r # seen) rs"

definition duplicated :: "'i frame \<Rightarrow> bool list" where
  "duplicated f = dup_marks [] (map snd (rows f))"

text \<open>\<open>sum(df.duplicated())\<close> (lines 84 and 93).\<close>

definition count_duplicated :: "'i frame \<Rightarrow> nat" where
  "count_duplicated f = count_list (duplicated f) True"

text \<open>\<open>df.drop_duplicates()\<close>: the rows not marked, index labels kept.\<close>

definition drop_duplicates :: "'i frame \<Rightarrow> 'i frame" where
  "drop_duplicates f = f\<lparr>rows := map fst (filter (\<lambda>(row, d). \<not> d) (zip (rows f) (duplicated f)))\<rparr>"

section \<open>Index, shape and missing values\<close>

text \<open>\<open>reset_index(drop=True)\<close>: relabel the rows \<open>0, 1, ...\<close>.\<close>

definition reset_index :: "'i frame \<Rightarrow> nat frame" where
  "reset_index f = \<lparr>cols = cols f, rows = zip [0..<length (rows f)] (map snd (rows f))\<rparr>"

text \<open>
  \<open>reset_index()\<close> without \<open>drop\<close> on a frame indexed by cells (line 155's
  \<open>genre_data.reset_index()\<close>): the index, named \<open>name\<close> by the \<open>groupby\<close>,
  becomes the first column and the rows are relabelled.
\<close>

definition reset_index_named :: "string \<Rightarrow> cell frame \<Rightarrow> nat frame" where
  "reset_index_named name f =
     \<lparr>cols = name # cols f, rows = zip [0..<length (rows f)] (map (\<lambda>(k, r). k # r) (rows f))\<rparr>"

text \<open>\<open>df.shape\<close> (line 51).\<close>

definition shape :: "'i frame \<Rightarrow> nat \<times> nat" where
  "shape f = (length (rows f), length (cols f))"

text \<open>\<open>df.isnull().sum()\<close> (line 76): the number of missing cells of each column.\<close>

definition isnull_sum :: "'i frame \<Rightarrow> (string \<times> nat) list" where
  "isnull_sum f =
     map (\<lambda>k. (cols f ! k, length (filter (\<lambda>(i, r). r ! k = NaN) (rows f)))) [0..<length (cols f)]"

text \<open>
  What \<open>df.info()\<close> (line 58) prints of a frame: the number of entries and,
  per column, its name, its non-null count and whether its dtype is numeric or
  \<open>object\<close> (a string present). Which numeric width (\<open>int64\<close> or
  \<open>float64\<close>) \<open>read_csv\<close> chose, and the memory usage, are not in the model.
\<close>

datatype col_kind = NumericCol | ObjectCol

definition info_summary :: "'i frame \<Rightarrow> nat \<times> (string \<times> nat \<times> col_kind) list" where
  "info_summary f =
     (length (rows f),
      map (\<lambda>k. (cols f ! k, length (filter (\<lambda>(i, r). r ! k \<noteq> NaN) (rows f)),
                 if list_ex (\<lambda>(i, r). is_str (r ! k)) (rows f) then ObjectCol else NumericCol))
        [0..<length (cols f)])"

section \<open>Lemmas\<close>

subsection \<open>Column positions\<close>

lemma col_pos_None_iff [simp]: "col_pos c xs = None \<longleftrightarrow> c \<notin> set xs"
  by (induction xs) auto

lemma col_pos_Some:
  "col_pos c xs = Some k \<Longrightarrow> k < length xs \<and> xs ! k = c"
  by (induction xs arbitrary: k) (auto split: if_splits)

lemma col_pos_Some_in_set: "col_pos c xs = Some k \<Longrightarrow> c \<in> set xs"
  by (metis col_pos_None_iff option.distinct(1))

lemma col_pos_nth:
  "distinct xs \<Longrightarrow> k < length xs \<Longrightarrow> col_pos (xs ! k) xs = Some k"
proof (induction xs arbitrary: k)
  case Nil
  then show ?case by simp
next
  case (Cons x xs)
  then show ?case by (cases k) (auto simp: nth_mem)
qed

lemma col_pos_in_set:
  "c \<in> set xs \<Longrightarrow> \<exists>k. col_pos c xs = Some k \<and> k < length xs \<and> xs ! k = c"
  by (cases "col_pos c xs") (auto dest: col_pos_Some)

lemma col_pos_append: "col_pos c xs = Some b \<Longrightarrow> col_pos c (xs @ ys) = Some b"
  by (induction xs arbitrary: b) (auto split: if_splits)

subsection \<open>Filtering a list zipped with a mask computed from it\<close>

lemma map_fst_filter_zip_map:
  "map fst (filter (\<lambda>(x, y). Q y) (zip xs (map g xs))) = filter (\<lambda>x. Q (g x)) xs"
  by (induction xs) auto

lemma list_all_ne_zero [simp]: "list_all ne_zero r \<longleftrightarrow> Num 0 \<notin> set r"
proof (induction r)
  case Nil
  then show ?case by simp
next
  case (Cons c r)
  then show ?case by (cases c) auto
qed

subsection \<open>Duplicates against a first-occurrence reference\<close>

lemma dup_marks_length [simp]: "length (dup_marks seen rs) = length rs"
  by (induction rs arbitrary: seen) auto

lemma dup_marks_keep_first:
  "map fst (filter (\<lambda>(r, d). \<not> d) (zip rs (dup_marks seen rs))) =
   rev (remdups (rev (filter (\<lambda>r. r \<notin> set seen) rs)))"
proof (induction rs arbitrary: seen)
  case Nil
  then show ?case by simp
next
  case (Cons r rs)
  show ?case
  proof (cases "r \<in> set seen")
    case True
    have "filter (\<lambda>x. x \<notin> set (r # seen)) rs = filter (\<lambda>x. x \<notin> set seen) rs"
      using True by (auto intro: filter_cong)
    with True Cons.IH [of "r # seen"] show ?thesis by simp
  next
    case False
    have "filter (\<lambda>x. x \<notin> set (r # seen)) rs =
          filter (\<lambda>x. x \<notin> set [r]) (filter (\<lambda>x. x \<notin> set seen) rs)"
      by (simp add: conj_commute)
    with False Cons.IH [of "r # seen"] show ?thesis
      by (simp add: remdups_snoc rev_filter conj_commute)
  qed
qed

lemma dup_marks_count:
  "count_list (dup_marks seen rs) False = length (remdups (filter (\<lambda>r. r \<notin> set seen) rs))"
proof -
  have "count_list (dup_marks seen rs) False =
        length (map fst (filter (\<lambda>(r, d). \<not> d) (zip rs (dup_marks seen rs))))"
  proof (induction rs arbitrary: seen)
    case Nil
    then show ?case by simp
  next
    case (Cons r rs)
    then show ?case by simp
  qed
  also have "\<dots> = length (remdups (filter (\<lambda>r. r \<notin> set seen) rs))"
    by (simp add: dup_marks_keep_first length_remdups_card_conv)
  finally show ?thesis .
qed

lemma count_list_bool_split:
  "count_list bs True + count_list bs False = length bs"
  by (induction bs) auto

subsection \<open>Projection\<close>

lemma select_columns_Inr:
  "set names \<subseteq> set (cols f) \<Longrightarrow>
   select_columns names f =
     Inr \<lparr>cols = names,
          rows = map (\<lambda>(i, r). (i, map (\<lambda>c. r ! the (col_pos c (cols f))) names)) (rows f)\<rparr>"
proof -
  assume "set names \<subseteq> set (cols f)"
  then have "filter (\<lambda>c. col_pos c (cols f) = None) names = []"
    by (auto simp: filter_empty_conv)
  then show ?thesis by (simp add: select_columns_def)
qed

lemma get_column_Some:
  "col_pos c (cols f) = Some k \<Longrightarrow> get_column c f = Inr (map (\<lambda>(i, r). (i, r ! k)) (rows f))"
  by (simp add: get_column_def)

text \<open>C13: projection keeps every requested column, cell for cell, and the index.\<close>

theorem select_columns_keeps_columns:
  assumes "set names \<subseteq> set (cols f)"
  shows "\<exists>g. select_columns names f = Inr g \<and> cols g = names \<and>
             map fst (rows g) = map fst (rows f) \<and>
             (\<forall>c \<in> set names. get_column c g = get_column c f)"
proof -
  let ?g = "\<lparr>cols = names,
             rows = map (\<lambda>(i, r). (i, map (\<lambda>c. r ! the (col_pos c (cols f))) names)) (rows f)\<rparr>"
  have cols_eq: "\<forall>c \<in> set names. get_column c ?g = get_column c f"
  proof
    fix c assume c: "c \<in> set names"
    obtain k' where k': "col_pos c names = Some k'" "k' < length names" "names ! k' = c"
      using col_pos_in_set [OF c] by blast
    obtain k where k: "col_pos c (cols f) = Some k"
      using c assms col_pos_in_set by blast
    have "get_column c ?g = Inr (map (\<lambda>(i, r). (i, r ! k)) (rows f))"
      using k k' by (simp add: get_column_def case_prod_unfold)
    also have "\<dots> = get_column c f"
      using k by (simp add: get_column_Some)
    finally show "get_column c ?g = get_column c f" .
  qed
  have "map fst (rows ?g) = map fst (rows f)"
    by (simp add: case_prod_unfold)
  with cols_eq show ?thesis
    using select_columns_Inr [OF assms] by auto
qed

text \<open>C14: a requested column that is absent raises \<open>KeyError\<close> naming the absent ones.\<close>

theorem select_columns_missing:
  assumes "c \<in> set names" and "c \<notin> set (cols f)"
  shows "select_columns names f = Inl (KeyError (filter (\<lambda>c. c \<notin> set (cols f)) names))"
proof -
  have "filter (\<lambda>c. c \<notin> set (cols f)) names \<noteq> []"
    using assms by (auto simp: filter_empty_conv)
  then show ?thesis by (simp add: select_columns_def)
qed

lemma select_columns_wf:
  assumes "wf_frame f" and "distinct names" and "select_columns names f = Inr g"
  shows "wf_frame g"
proof -
  have "set names \<subseteq> set (cols f)"
    using assms(3) by (auto simp: select_columns_def Let_def filter_empty_conv split: if_splits)
  with assms show ?thesis
    by (auto simp: select_columns_Inr wf_frame_def list_all_iff)
qed

subsection \<open>The zero filter\<close>

lemma drop_zero_rows_filter:
  "rows (drop_zero_rows f) = filter (\<lambda>row. list_all ne_zero (snd row)) (rows f)"
proof -
  have "all_axis1 (ne_zero_frame f) = map (\<lambda>(i, r). (i, list_all ne_zero r)) (rows f)"
    by (simp add: all_axis1_def ne_zero_frame_def case_prod_unfold list_all_iff)
  then show ?thesis
    using map_fst_filter_zip_map [of "\<lambda>(_, b). b" "rows f" "\<lambda>(i, r). (i, list_all ne_zero r)"]
    by (simp add: drop_zero_rows_def bool_index_def case_prod_unfold)
qed

lemma drop_zero_rows_cols [simp]: "cols (drop_zero_rows f) = cols f"
  by (simp add: drop_zero_rows_def bool_index_def)

text \<open>
  C2: the zero filter keeps exactly the rows with no numeric zero, in order and
  with their labels: no row it returns holds a zero, and no other row is lost.
\<close>

theorem drop_zero_rows_exact:
  "cols (drop_zero_rows f) = cols f \<and>
   rows (drop_zero_rows f) = filter (\<lambda>(i, r). Num 0 \<notin> set r) (rows f)"
  by (simp add: drop_zero_rows_filter case_prod_unfold)

lemma drop_zero_rows_wf: "wf_frame f \<Longrightarrow> wf_frame (drop_zero_rows f)"
  by (auto simp: drop_zero_rows_filter wf_frame_def list_all_iff)

subsection \<open>Duplicates\<close>

lemma duplicated_length [simp]: "length (duplicated f) = length (rows f)"
  by (simp add: duplicated_def)

lemma drop_duplicates_values:
  "map snd (rows (drop_duplicates f)) = rev (remdups (rev (map snd (rows f))))"
proof -
  have "map snd (rows (drop_duplicates f)) =
        map snd (map fst (filter (\<lambda>(row, d). \<not> d) (zip (rows f) (duplicated f))))"
    by (simp add: drop_duplicates_def del: map_map)
  also have "\<dots> = map fst (filter (\<lambda>(r, d). \<not> d) (zip (map snd (rows f)) (duplicated f)))"
    by (rule map_fst_filter_zip_map_left)
  also have "\<dots> = rev (remdups (rev (map snd (rows f))))"
    using dup_marks_keep_first [of "map snd (rows f)" "[]"] by (simp add: duplicated_def)
  finally show ?thesis .
qed

lemma count_duplicated_eq:
  "count_duplicated f = length (rows f) - card (set (map snd (rows f)))"
proof -
  have "count_list (duplicated f) False = card (set (map snd (rows f)))"
    using dup_marks_count [of "[]" "map snd (rows f)"]
    by (simp add: duplicated_def length_remdups_card_conv)
  moreover have "count_list (duplicated f) True + count_list (duplicated f) False = length (rows f)"
    using count_list_bool_split [of "duplicated f"] by simp
  ultimately show ?thesis
    by (simp add: count_duplicated_def)
qed

text \<open>
  C15: \<open>drop_duplicates\<close> keeps the first occurrence of every row value: its rows
  are those of the reference \<open>rev (remdups (rev xs))\<close>.
\<close>

theorem drop_duplicates_keep_first:
  "map snd (rows (drop_duplicates f)) = rev (remdups (rev (map snd (rows f))))"
  by (rule drop_duplicates_values)

text \<open>
  C16: \<open>sum(df.duplicated())\<close> counts the rows whose value occurred before: the
  number of rows less the number of distinct row values.
\<close>

theorem count_duplicated_distinct:
  "count_duplicated f = length (rows f) - card (set (map snd (rows f)))"
  by (rule count_duplicated_eq)


subsection \<open>Index reset\<close>

lemma reset_index_simps [simp]:
  "cols (reset_index f) = cols f"
  "map fst (rows (reset_index f)) = [0..<length (rows f)]"
  "map snd (rows (reset_index f)) = map snd (rows f)"
  "length (rows (reset_index f)) = length (rows f)"
  by (simp_all add: reset_index_def)


lemma count_duplicated_drop_duplicates: "count_duplicated (drop_duplicates f) = 0"
proof -
  have "distinct (map snd (rows (drop_duplicates f)))"
    by (simp add: drop_duplicates_values)
  then have "card (set (map snd (rows (drop_duplicates f)))) = length (rows (drop_duplicates f))"
    by (metis distinct_card length_map)
  then show ?thesis
    by (simp only: count_duplicated_eq diff_self_eq_0)
qed


end
