(* ===== verification/PyStr.thy ===== *)
theory PyStr
  imports Prelude
begin

text \<open>
  The two Python string methods the genre expander applies to each \<open>genres\<close>
  value (src/Investigate_a_Dataset.py, lines 109--110, through pandas' \<open>.str\<close>
  accessor, which calls them per element): \<open>str.strip(chars)\<close> with the single
  character \<open>'|'\<close> and \<open>str.split(sep)\<close> with an explicit one-character separator.
  Python's \<open>sep.join\<close> is defined as the specification of \<open>split\<close>: the round
  trips between the two are proved here.
\<close>

section \<open>\<open>str.strip\<close>\<close>

text \<open>
  CPython's \<open>do_argstrip\<close>: advance from the left while the character is in the
  strip set, then retreat from the right while it is. With one strip character
  this is \<open>dropWhile\<close> from both ends.
\<close>

definition py_strip :: "char \<Rightarrow> string \<Rightarrow> string" where
  "py_strip c s = rev (dropWhile (\<lambda>x. x = c) (rev (dropWhile (\<lambda>x. x = c) s)))"

section \<open>\<open>str.split\<close> with a separator\<close>

text \<open>
  \<open>s.split(sep)\<close> with a one-character \<open>sep\<close> and no \<open>maxsplit\<close>: every
  occurrence of \<open>sep\<close> ends a field, empty fields are kept, and the empty string
  splits into one empty field (\<open>''.split('|') == ['']\<close>).
\<close>

fun py_split :: "char \<Rightarrow> string \<Rightarrow> string list" where
  "py_split c [] = [[]]"
| "py_split c (x # xs) =
     (let r = py_split c xs in if x = c then [] # r else (x # hd r) # tl r)"

text \<open>\<open>sep.join(words)\<close>, used as the specification of \<open>py_split\<close>.\<close>

fun py_join :: "char \<Rightarrow> string list \<Rightarrow> string" where
  "py_join c [] = []"
| "py_join c [w] = w"
| "py_join c (w # v # ws) = w @ c # py_join c (v # ws)"

section \<open>Lemmas on \<open>py_split\<close>\<close>

lemma py_split_not_Nil [simp]: "py_split c s \<noteq> []"
  by (induction s) (auto simp: Let_def)

lemma py_split_Cons_sep [simp]: "py_split c (c # xs) = [] # py_split c xs"
  by simp

lemma py_split_Cons_other [simp]:
  "x \<noteq> c \<Longrightarrow> py_split c (x # xs) = (x # hd (py_split c xs)) # tl (py_split c xs)"
  by (simp add: Let_def)

declare py_split.simps(2) [simp del]

lemma py_join_Cons:
  "py_join c (w # ws) = (if ws = [] then w else w @ c # py_join c ws)"
  by (cases ws) auto

lemma py_split_tokens_sep_free:
  "t \<in> set (py_split c s) \<Longrightarrow> c \<notin> set t"
proof (induction s arbitrary: t)
  case Nil
  then show ?case by simp
next
  case (Cons x xs)
  have hd_in: "hd (py_split c xs) \<in> set (py_split c xs)"
    by (rule hd_in_set) simp
  have tl_sub: "set (tl (py_split c xs)) \<subseteq> set (py_split c xs)"
    by (cases "py_split c xs") auto
  show ?case
  proof (cases "x = c")
    case True
    with Cons show ?thesis by auto
  next
    case False
    with Cons.prems have "t = x # hd (py_split c xs) \<or> t \<in> set (tl (py_split c xs))"
      by simp
    with False Cons.IH hd_in tl_sub show ?thesis by auto
  qed
qed

lemma length_py_split: "length (py_split c s) = Suc (count_list s c)"
  by (induction s) auto

lemma py_split_append_sep_free:
  "c \<notin> set w \<Longrightarrow>
   py_split c (w @ s) = (w @ hd (py_split c s)) # tl (py_split c s)"
  by (induction w) auto


lemma py_split_py_join:
  "ws \<noteq> [] \<Longrightarrow> (\<forall>w \<in> set ws. c \<notin> set w) \<Longrightarrow> py_split c (py_join c ws) = ws"
proof (induction ws)
  case Nil
  then show ?case by simp
next
  case (Cons w ws)
  show ?case
  proof (cases "ws = []")
    case True
    with Cons.prems show ?thesis
      using py_split_append_sep_free [of c w "[]"] by simp
  next
    case False
    with Cons have IH: "py_split c (py_join c ws) = ws" by simp
    from Cons.prems have "c \<notin> set w" by simp
    then have "py_split c (w @ c # py_join c ws) = (w @ []) # ws"
      using py_split_append_sep_free [of c w "c # py_join c ws"] IH by simp
    with False show ?thesis by (simp add: py_join_Cons)
  qed
qed

section \<open>Lemmas on \<open>py_strip\<close>\<close>

lemma py_strip_no_sep_ends:
  "py_strip c s = [] \<or> (hd (py_strip c s) \<noteq> c \<and> last (py_strip c s) \<noteq> c)"
proof -
  define l where "l = dropWhile (\<lambda>x. x = c) s"
  define r where "r = dropWhile (\<lambda>x. x = c) (rev l)"
  have strip: "py_strip c s = rev r"
    unfolding py_strip_def r_def l_def ..
  show ?thesis
  proof (cases "r = []")
    case True
    with strip show ?thesis by (simp only: rev.simps simp_thms)
  next
    case r_ne: False
    then have l_ne: "l \<noteq> []"
      unfolding r_def by auto
    have r_hd: "hd r \<noteq> c"
      using hd_dropWhile [of "\<lambda>x. x = c" "rev l"] r_ne unfolding r_def by blast
    have l_hd: "hd l \<noteq> c"
      using hd_dropWhile [of "\<lambda>x. x = c" s] l_ne unfolding l_def by blast
    have "rev l = takeWhile (\<lambda>x. x = c) (rev l) @ r"
      unfolding r_def by (simp only: takeWhile_dropWhile_id)
    then have "last (rev l) = last r"
      using r_ne by (metis last_appendR)
    with l_ne l_hd have r_last: "last r \<noteq> c"
      by (metis last_rev)
    from r_ne r_hd r_last strip show ?thesis
      by (metis hd_rev last_rev)
  qed
qed

lemma dropWhile_replicate_append [simp]:
  "dropWhile (\<lambda>x. x = c) (replicate n c @ s) = dropWhile (\<lambda>x. x = c) s"
  by (induction n) auto

lemma dropWhile_replicate [simp]:
  "dropWhile (\<lambda>x. x = c) (replicate n c) = []"
  by (induction n) auto

lemma py_strip_wrapped:
  assumes "s = [] \<or> (hd s \<noteq> c \<and> last s \<noteq> c)"
  shows "py_strip c (replicate n c @ s @ replicate m c) = s"
proof (cases "s = []")
  case True
  then show ?thesis
    by (simp add: py_strip_def flip: replicate_add)
next
  case False
  with assms have hd: "hd s \<noteq> c" and last: "hd (rev s) \<noteq> c"
    by (simp_all add: hd_rev)
  have l: "dropWhile (\<lambda>x. x = c) (replicate n c @ s @ replicate m c) = s @ replicate m c"
    using False hd by (cases s) auto
  have r: "dropWhile (\<lambda>x. x = c) (replicate m c @ rev s) = rev s"
    using False last by (cases "rev s") auto
  show ?thesis
    by (simp only: py_strip_def l rev_append rev_replicate r rev_rev_ident)
qed

lemma py_strip_idem: "py_strip c (py_strip c s) = py_strip c s"
proof -
  have "py_strip c (replicate 0 c @ py_strip c s @ replicate 0 c) = py_strip c s"
    by (rule py_strip_wrapped) (rule py_strip_no_sep_ends)
  then show ?thesis by simp
qed


section \<open>Tokens surrounded by separators\<close>

lemma py_join_hd:
  "ws \<noteq> [] \<Longrightarrow> hd ws \<noteq> [] \<Longrightarrow> py_join c ws \<noteq> [] \<and> hd (py_join c ws) = hd (hd ws)"
  by (cases ws) (auto simp: py_join_Cons)

lemma py_join_not_Nil:
  "ws \<noteq> [] \<Longrightarrow> last ws \<noteq> [] \<Longrightarrow> py_join c ws \<noteq> []"
  by (induction ws) (auto simp: py_join_Cons)

lemma py_join_last:
  "ws \<noteq> [] \<Longrightarrow> last ws \<noteq> [] \<Longrightarrow> last (py_join c ws) = last (last ws)"
proof (induction ws)
  case Nil
  then show ?case by simp
next
  case (Cons w ws)
  show ?case
  proof (cases "ws = []")
    case True
    then show ?thesis by simp
  next
    case False
    with Cons.prems have "py_join c ws \<noteq> []" and "last ws \<noteq> []"
      by (simp_all add: py_join_not_Nil)
    with False Cons.IH show ?thesis by (simp add: py_join_Cons)
  qed
qed

lemma py_split_strip_wrapped_tokens:
  assumes "ws \<noteq> []" and "\<forall>w \<in> set ws. w \<noteq> [] \<and> c \<notin> set w"
  shows "py_split c (py_strip c (replicate n c @ py_join c ws @ replicate m c)) = ws"
proof -
  have hd: "py_join c ws \<noteq> [] \<and> hd (py_join c ws) = hd (hd ws)"
    using assms by (intro py_join_hd) simp_all
  have last: "last (py_join c ws) = last (last ws)"
    using assms by (intro py_join_last) simp_all
  have "hd ws \<in> set ws" and "last ws \<in> set ws"
    using assms(1) by simp_all
  with assms(2) have "hd (hd ws) \<noteq> c" and "last (last ws) \<noteq> c"
    by (metis hd_in_set, metis last_in_set)
  with hd last have "py_strip c (replicate n c @ py_join c ws @ replicate m c) = py_join c ws"
    by (intro py_strip_wrapped) simp
  with assms show ?thesis
    by (simp add: py_split_py_join)
qed

text \<open>
  C9: a genre string made of non-empty, separator-free tokens joined by the
  separator, with any number of separators before and after, strips and splits
  back into exactly those tokens (\<open>'|Horror|'\<close> gives \<open>['Horror']\<close>).
\<close>

theorem py_split_strip_wrapped:
  assumes "ws \<noteq> []" and "\<forall>w \<in> set ws. w \<noteq> [] \<and> c \<notin> set w"
  shows "py_split c (py_strip c (replicate n c @ py_join c ws @ replicate m c)) = ws"
  using assms by (rule py_split_strip_wrapped_tokens)

end
