(* ===== verification/Explode.thy ===== *)
theory Explode
  imports Frame PyStr
begin

text \<open>
  The genre expander, src/Investigate_a_Dataset.py lines 108--113:
  \<^verbatim>\<open>
  all_genres = df.join(df.genres.str.strip('|').str.split('|', expand=True)
                       .stack().reset_index(level=1, drop=True)
                       .rename('genre')).reset_index(drop=True)
  \<close>
  Each pandas call is one definition: the \<open>.str\<close> accessor applies
  \<open>py_strip\<close> and \<open>py_split\<close> to string cells (and gives \<open>NaN\<close> for any other
  cell), \<open>expand=True\<close> pads every row of fields with \<open>NaN\<close> to the widest row,
  \<open>stack\<close> lists the cells that are not \<open>NaN\<close> row by row under a two-level label,
  \<open>reset_index(level=1, drop=True)\<close> drops the inner level, and \<open>join\<close> is a
  left join on the index label.
\<close>

section \<open>The \<open>.str\<close> accessor\<close>

definition str_strip :: "char \<Rightarrow> 'i series \<Rightarrow> 'i series" where
  "str_strip c s = map (\<lambda>(i, v). (i, case v of Str x \<Rightarrow> Str (py_strip c x) | _ \<Rightarrow> NaN)) s"

text \<open>The fields of one cell; a non-string cell has none (pandas fills its row with \<open>NaN\<close>).\<close>

definition split_cells :: "char \<Rightarrow> cell \<Rightarrow> cell list" where
  "split_cells c v = (case v of Str x \<Rightarrow> map Str (py_split c x) | _ \<Rightarrow> [])"

text \<open>\<open>.str.split(c, expand=True)\<close>: one column per field, \<open>NaN\<close>-padded to the widest row.\<close>

definition str_split_expand :: "char \<Rightarrow> 'i series \<Rightarrow> ('i \<times> cell list) list" where
  "str_split_expand c s =
     (let parts = map (\<lambda>(i, v). (i, split_cells c v)) s;
          w = foldr max (map (\<lambda>(i, p). length p) parts) 0
      in map (\<lambda>(i, p). (i, p @ replicate (w - length p) NaN)) parts)"

section \<open>\<open>stack\<close>, \<open>reset_index(level=1)\<close>, \<open>join\<close>\<close>

text \<open>\<open>DataFrame.stack()\<close>: the cells that are not \<open>NaN\<close>, row-major, labelled (row, column).\<close>

definition stack :: "('i \<times> cell list) list \<Rightarrow> ('i \<times> nat) series" where
  "stack m =
     concat (map (\<lambda>(i, cs). map (\<lambda>(j, v). ((i, j), v)) (filter (\<lambda>(j, v). v \<noteq> NaN) (zip [0..<length cs] cs))) m)"

text \<open>\<open>reset_index(level=1, drop=True)\<close>: drop the inner label.\<close>

definition drop_level1 :: "('i \<times> nat) series \<Rightarrow> 'i series" where
  "drop_level1 s = map (\<lambda>((i, j), v). (i, v)) s"

text \<open>
  \<open>df.join(s)\<close> with \<open>s\<close> named \<open>name\<close> (\<open>how='left'\<close>): every row of \<open>df\<close>,
  once per entry of \<open>s\<close> with its label in the order of \<open>s\<close>, or once with
  \<open>NaN\<close> when there is none; \<open>ValueError\<close> when \<open>name\<close> is already a column.
\<close>

definition df_join :: "'i frame \<Rightarrow> string \<Rightarrow> 'i series \<Rightarrow> 'i frame result" where
  "df_join df name s =
     (if name \<in> set (cols df) then Inl (ValueError ''columns overlap'')
      else Inr \<lparr>cols = cols df @ [name],
                rows = concat (map (\<lambda>(i, r).
                         case map snd (filter (\<lambda>(j, v). j = i) s) of
                           [] \<Rightarrow> [(i, r @ [NaN])]
                         | vs \<Rightarrow> map (\<lambda>v. (i, r @ [v])) vs) (rows df))\<rparr>)"

section \<open>The expander\<close>

definition explode_genres :: "'i frame \<Rightarrow> nat frame result" where
  "explode_genres df =
     rbind (get_column ''genres'' df) (\<lambda>g.
     rbind (df_join df ''genre''
              (drop_level1 (stack (str_split_expand CHR ''|'' (str_strip CHR ''|'' g))))) (\<lambda>j.
     Inr (reset_index j)))"

section \<open>Reference: one output row per genre token\<close>

text \<open>The genre tokens of a \<open>genres\<close> cell, as the specification describes them.\<close>

definition genre_tokens :: "cell \<Rightarrow> string list" where
  "genre_tokens v = (case v of Str x \<Rightarrow> py_split CHR ''|'' (py_strip CHR ''|'' x) | _ \<Rightarrow> [])"

text \<open>
  The rows one movie row produces when its \<open>genres\<close> cell is \<open>g\<close>: one per token
  with the token appended, or the row with \<open>NaN\<close> appended when there is none.
\<close>

definition explode_row :: "cell \<Rightarrow> cell list \<Rightarrow> cell list list" where
  "explode_row g r = (case genre_tokens g of [] \<Rightarrow> [r @ [NaN]] | ts \<Rightarrow> map (\<lambda>t. r @ [Str t]) ts)"

section \<open>Lemmas\<close>

subsection \<open>Expand and stack\<close>

lemma foldr_max_ge: "x \<in> set xs \<Longrightarrow> x \<le> foldr max xs (0::nat)"
  by (induction xs) auto

lemma split_cells_no_NaN: "NaN \<notin> set (split_cells c v)"
  by (auto simp: split_cells_def split: cell.splits)

lemma stack_padded_row:
  assumes "NaN \<notin> set xs"
  shows "filter (\<lambda>(j, v). v \<noteq> NaN) (zip [0..<length (xs @ replicate m NaN)] (xs @ replicate m NaN)) =
         zip [0..<length xs] xs"
proof -
  have up: "[0..<length (xs @ replicate m NaN)] = [0..<length xs] @ [length xs..<length xs + m]"
    using upt_add_eq_append [of 0 "length xs" m] by simp
  have first: "filter (\<lambda>(j, v). v \<noteq> NaN) (zip [0..<length xs] xs) = zip [0..<length xs] xs"
    using assms by (intro filter_True) (auto dest: set_zip_rightD)
  have second: "filter (\<lambda>(j, v). v \<noteq> NaN) (zip [length xs..<length xs + m] (replicate m NaN)) = []"
    by (auto simp: filter_empty_conv dest: set_zip_rightD)
  show ?thesis
    by (simp only: up zip_append length_upt diff_zero filter_append first second) simp
qed

lemma map_snd_zip_upt [simp]: "map snd (zip [0..<length xs] xs) = xs"
  by (simp add: zip_map_fst_snd)

lemma drop_level1_stack_pairs:
  "map (\<lambda>((i', j), v). (i', v)) (map (\<lambda>(j, v). ((i, j), v)) zs) = map (Pair i) (map snd zs)"
  by (induction zs) auto

lemma drop_level1_stack_row:
  assumes "NaN \<notin> set p"
  shows "drop_level1 (stack [(i, p @ replicate m NaN)]) = map (\<lambda>t. (i, t)) p"
  unfolding drop_level1_def stack_def
  by (simp only: list.map concat.simps append_Nil2 prod.case stack_padded_row [OF assms]
      drop_level1_stack_pairs map_snd_zip_upt)

lemma drop_level1_append: "drop_level1 (xs @ ys) = drop_level1 xs @ drop_level1 ys"
  by (simp add: drop_level1_def)

lemma stack_Cons: "stack (x # xs) = stack [x] @ stack xs"
  by (simp add: stack_def)

lemma stack_padded:
  "drop_level1 (stack (map (\<lambda>(i, v). (i, split_cells c v @ replicate (h i v) NaN)) s)) =
   concat (map (\<lambda>(i, v). map (\<lambda>t. (i, t)) (split_cells c v)) s)"
proof (induction s)
  case Nil
  then show ?case by (simp add: stack_def drop_level1_def)
next
  case (Cons x s)
  obtain i v where x: "x = (i, v)" by fastforce
  let ?F = "\<lambda>(i, v). (i, split_cells c v @ replicate (h i v) NaN)"
  have "drop_level1 (stack (map ?F (x # s))) =
        drop_level1 (stack [(i, split_cells c v @ replicate (h i v) NaN)]) @
        drop_level1 (stack (map ?F s))"
    using stack_Cons [of "?F x" "map ?F s"] by (simp only: x list.map prod.case drop_level1_append)
  also have "drop_level1 (stack [(i, split_cells c v @ replicate (h i v) NaN)]) =
        map (\<lambda>t. (i, t)) (split_cells c v)"
    by (rule drop_level1_stack_row) (rule split_cells_no_NaN)
  finally show ?case
    using Cons.IH by (simp only: x list.map prod.case concat.simps)
qed

text \<open>
  Expanding into padded columns and stacking them back loses nothing and adds
  nothing: the result lists each row's fields under its label, in order.
\<close>

lemma expand_stack:
  "drop_level1 (stack (str_split_expand c s)) =
   concat (map (\<lambda>(i, v). map (\<lambda>t. (i, t)) (split_cells c v)) s)"
proof -
  define w where "w = foldr max (map (\<lambda>(i, p). length p) (map (\<lambda>(i, v). (i, split_cells c v)) s)) 0"
  have "str_split_expand c s =
        map (\<lambda>(i, v). (i, split_cells c v @ replicate ((\<lambda>i v. w - length (split_cells c v)) i v) NaN)) s"
    by (simp add: str_split_expand_def Let_def w_def case_prod_unfold)
  then show ?thesis
    by (simp only: stack_padded)
qed


subsection \<open>The left join on a unique index\<close>

lemma filter_label_absent:
  "i \<notin> fst ` set xs \<Longrightarrow>
   filter (\<lambda>(j, v). j = i) (concat (map (\<lambda>(i', r'). map (Pair i') (F r')) xs)) = []"
  by (induction xs) auto

lemma join_lookup:
  "distinct (map fst xs) \<Longrightarrow> (i, r) \<in> set xs \<Longrightarrow>
   map snd (filter (\<lambda>(j, v). j = i) (concat (map (\<lambda>(i', r'). map (Pair i') (F r')) xs))) = F r"
proof (induction xs)
  case Nil
  then show ?case by simp
next
  case (Cons y xs)
  obtain i0 r0 where y: "y = (i0, r0)" by fastforce
  show ?case
  proof (cases "i0 = i")
    case True
    with Cons.prems y have "r0 = r" and "i \<notin> fst ` set xs"
      by (auto simp: rev_image_eqI)
    with True y show ?thesis
      by (simp add: filter_label_absent comp_def)
  next
    case False
    with Cons y show ?thesis by (auto simp: filter_empty_conv)
  qed
qed

text \<open>
  Joining a frame with a unique index to a series built row by row from it
  attaches to every row exactly the entries built from that row.
\<close>

lemma df_join_rowwise:
  assumes "distinct (map fst (rows df))" and "name \<notin> set (cols df)"
  shows "df_join df name (concat (map (\<lambda>(i, r). map (Pair i) (F r)) (rows df))) =
         Inr \<lparr>cols = cols df @ [name],
              rows = concat (map (\<lambda>(i, r). case F r of [] \<Rightarrow> [(i, r @ [NaN])]
                                                | vs \<Rightarrow> map (\<lambda>v. (i, r @ [v])) vs) (rows df))\<rparr>"
proof -
  have "map (\<lambda>(i, r). case map snd (filter (\<lambda>(j, v). j = i)
                         (concat (map (\<lambda>(i', r'). map (Pair i') (F r')) (rows df)))) of
                       [] \<Rightarrow> [(i, r @ [NaN])] | vs \<Rightarrow> map (\<lambda>v. (i, r @ [v])) vs) (rows df) =
        map (\<lambda>(i, r). case F r of [] \<Rightarrow> [(i, r @ [NaN])] | vs \<Rightarrow> map (\<lambda>v. (i, r @ [v])) vs) (rows df)"
    using assms(1) by (auto simp: join_lookup intro!: map_cong)
  then show ?thesis
    unfolding df_join_def if_not_P [OF assms(2)] by (rule arg_cong)
qed

subsection \<open>The expander against its reference\<close>

lemma split_strip_cell:
  "split_cells CHR ''|'' (case v of Str x \<Rightarrow> Str (py_strip CHR ''|'' x) | _ \<Rightarrow> NaN) =
   map Str (genre_tokens v)"
  by (cases v) (simp_all add: split_cells_def genre_tokens_def)

lemma join_case_explode_row:
  "(case map Str (genre_tokens g) of [] \<Rightarrow> [(i, r @ [NaN])] | vs \<Rightarrow> map (\<lambda>v. (i, r @ [v])) vs) =
   map (Pair i) (explode_row g r)"
  by (cases "genre_tokens g") (simp_all add: explode_row_def)

lemma explode_series:
  "drop_level1 (stack (str_split_expand CHR ''|'' (str_strip CHR ''|'' (map (\<lambda>(i, r). (i, r ! k)) rs)))) =
   concat (map (\<lambda>(i, r). map (Pair i) (map Str (genre_tokens (r ! k)))) rs)"
  by (simp add: expand_stack str_strip_def case_prod_unfold split_strip_cell comp_def)


lemma explode_genres_Inr:
  assumes "distinct (map fst (rows df))" and "col_pos ''genres'' (cols df) = Some k"
    and "''genre'' \<notin> set (cols df)"
  shows "explode_genres df =
           Inr (reset_index \<lparr>cols = cols df @ [''genre''],
                 rows = concat (map (\<lambda>(i, r). map (Pair i) (explode_row (r ! k) r)) (rows df))\<rparr>)"
proof -
  have "df_join df ''genre''
          (drop_level1 (stack (str_split_expand CHR ''|'' (str_strip CHR ''|''
             (map (\<lambda>(i, r). (i, r ! k)) (rows df)))))) =
        Inr \<lparr>cols = cols df @ [''genre''],
             rows = concat (map (\<lambda>(i, r). case map Str (genre_tokens (r ! k)) of
                                   [] \<Rightarrow> [(i, r @ [NaN])]
                                 | vs \<Rightarrow> map (\<lambda>v. (i, r @ [v])) vs) (rows df))\<rparr>"
    unfolding explode_series using assms(1,3) by (rule df_join_rowwise)
  then show ?thesis
    using assms(2)
    by (simp add: explode_genres_def get_column_Some join_case_explode_row case_prod_unfold)
qed






text \<open>C21: the expander's row count: one per token, at least one per input row.\<close>

theorem explode_genres_length:
  assumes "distinct (map fst (rows df))" and "col_pos ''genres'' (cols df) = Some k"
    and "''genre'' \<notin> set (cols df)" and "explode_genres df = Inr g"
  shows "length (rows g) = sum_list (map (\<lambda>(i, r). max 1 (length (genre_tokens (r ! k)))) (rows df))"
proof -
  have len: "length (explode_row v r) = max 1 (length (genre_tokens v))" for v r
    by (cases "genre_tokens v") (simp_all add: explode_row_def)
  have "length (rows g) =
        length (concat (map (\<lambda>(i, r). map (Pair i) (explode_row (r ! k) r)) (rows df)))"
    using explode_genres_Inr [OF assms(1-3)] assms(4) by simp
  then show ?thesis
    by (simp add: length_concat_map_sum case_prod_unfold len)
qed

end
