(* ===== verification/GroupBy.thy ===== *)
theory GroupBy
  imports Frame
begin

text \<open>
  The aggregator and the ranking of src/Investigate_a_Dataset.py:
  \<open>all_genres.groupby('genre').c.mean()\<close> for six columns (lines 121--136), their
  combination with \<open>pd.concat(..., axis=1)\<close> (line 139), and the ranking
  \<open>genre_data.sort_values('popularity', ascending=False).popularity\<close> (line 178).
  Group keys are the cells of the key column other than \<open>NaN\<close> (pandas' default
  \<open>dropna=True\<close>), sorted by the \<open>linorder\<close> of \<^typ>\<open>cell\<close>; the mean skips
  \<open>NaN\<close> (\<open>skipna=True\<close>) and is \<open>NaN\<close> for a group with no number.
\<close>

section \<open>Group keys and the mean\<close>

definition group_keys :: "cell list \<Rightarrow> cell list" where
  "group_keys ks = sort (remdups (filter (\<lambda>k. k \<noteq> NaN) ks))"

text \<open>The mean of the numbers of a list, \<open>NaN\<close> when it has none.\<close>

definition num_mean :: "real list \<Rightarrow> cell" where
  "num_mean xs = (if xs = [] then NaN else Num (sum_list xs / real (length xs)))"

text \<open>\<open>Series.mean()\<close> of one group: a string in a numeric aggregation raises \<open>TypeError\<close>.\<close>

definition cells_mean :: "cell list \<Rightarrow> cell result" where
  "cells_mean vs = (if list_ex is_str vs then Inl TypeError else Inr (num_mean [x. Num x \<leftarrow> vs]))"

text \<open>
  \<open>f.groupby(key).col.mean()\<close>: \<open>KeyError\<close> for a missing key or value column,
  otherwise one entry per group key in sorted order.
\<close>

definition groupby_mean :: "string \<Rightarrow> string \<Rightarrow> 'i frame \<Rightarrow> cell series result" where
  "groupby_mean key col f =
     rbind (get_column key f) (\<lambda>ks.
     rbind (get_column col f) (\<lambda>vs.
     (let pairs = zip (map snd ks) (map snd vs) in
      map_result (\<lambda>k. rbind (cells_mean (map snd (filter (\<lambda>(k', v). k' = k) pairs))) (\<lambda>m. Inr (k, m)))
        (group_keys (map snd ks)))))"

section \<open>Combining the six aggregates\<close>

text \<open>
  \<open>pd.concat(series, axis=1)\<close>: one column per series, the index the union of
  their indexes in order of appearance (\<open>sort=False\<close>), \<open>NaN\<close> where a series
  has no entry; \<open>ValueError\<close> for an empty list.
\<close>

definition concat_axis1 :: "string list \<Rightarrow> 'i series list \<Rightarrow> 'i frame result" where
  "concat_axis1 names ss =
     (if ss = [] then Inl (ValueError ''No objects to concatenate'')
      else Inr \<lparr>cols = names,
                rows = map (\<lambda>k. (k, map (\<lambda>s. case map_of s k of Some v \<Rightarrow> v | None \<Rightarrow> NaN) ss))
                         (unique (concat (map (map fst) ss)))\<rparr>)"

text \<open>The columns in the order lines 121--136 aggregate them \<dots>\<close>

definition agg_columns :: "string list" where
  "agg_columns = [''budget_adj'', ''popularity'', ''runtime'', ''release_year'', ''vote_average'', ''revenue_adj'']"

text \<open>\<dots> and in the order line 139 combines them.\<close>

definition genre_data_columns :: "string list" where
  "genre_data_columns = [''budget_adj'', ''popularity'', ''revenue_adj'', ''runtime'', ''release_year'', ''vote_average'']"

definition genre_data_of :: "'i frame \<Rightarrow> cell frame result" where
  "genre_data_of ag =
     rbind (map_result (\<lambda>c. rbind (groupby_mean ''genre'' c ag) (\<lambda>s. Inr (c, s))) agg_columns) (\<lambda>named.
     concat_axis1 genre_data_columns (map (\<lambda>c. case map_of named c of Some s \<Rightarrow> s | None \<Rightarrow> []) genre_data_columns))"

section \<open>Reference: the mean of a group\<close>

text \<open>
  The numbers of column \<open>b\<close> over the rows whose key cell (column \<open>a\<close>) is
  \<open>k\<close>: the values the specification averages for one group.
\<close>

definition group_values :: "nat \<Rightarrow> nat \<Rightarrow> cell \<Rightarrow> ('i \<times> cell list) list \<Rightarrow> real list" where
  "group_values a b k rs = concat (map (\<lambda>(i, r). if r ! a = k then (case r ! b of Num x \<Rightarrow> [x] | _ \<Rightarrow> []) else []) rs)"

definition numeric_col :: "'i frame \<Rightarrow> string \<Rightarrow> bool" where
  "numeric_col f c =
     (case col_pos c (cols f) of None \<Rightarrow> False | Some b \<Rightarrow> \<not> list_ex (\<lambda>(i, r). is_str (r ! b)) (rows f))"

section \<open>Ranking\<close>

text \<open>The sort key of a number: its negation, for a descending sort.\<close>

definition desc_key :: "nat \<Rightarrow> 'i \<times> cell list \<Rightarrow> real" where
  "desc_key k row = (case snd row ! k of Num x \<Rightarrow> - x | _ \<Rightarrow> 0)"

text \<open>
  \<open>f.sort_values(col, ascending=False)\<close>: the rows with a number in \<open>col\<close> in
  descending order, then the rows with \<open>NaN\<close> (\<open>na_position='last'\<close>);
  \<open>TypeError\<close> when \<open>col\<close> holds a string. pandas' default quicksort does not
  fix the order of equal values; the model keeps it stable.
\<close>

definition sort_values_desc :: "string \<Rightarrow> 'i frame \<Rightarrow> 'i frame result" where
  "sort_values_desc col f =
     (case col_pos col (cols f) of
        None \<Rightarrow> Inl (KeyError [col])
      | Some k \<Rightarrow>
          if list_ex (\<lambda>(i, r). is_str (r ! k)) (rows f) then Inl TypeError
          else Inr (f\<lparr>rows := sort_key (desc_key k) (filter (\<lambda>(i, r). r ! k \<noteq> NaN) (rows f)) @
                              filter (\<lambda>(i, r). r ! k = NaN) (rows f)\<rparr>))"

text \<open>Line 178: the \<open>popularity\<close> column of the sorted frame.\<close>

definition popularity_ranking :: "cell frame \<Rightarrow> cell series result" where
  "popularity_ranking gd = rbind (sort_values_desc ''popularity'' gd) (get_column ''popularity'')"


section \<open>Lemmas\<close>

subsection \<open>Group keys\<close>

lemma group_keys_props:
  "sorted (group_keys ks) \<and> distinct (group_keys ks) \<and> set (group_keys ks) = set ks - {NaN}"
  by (auto simp: group_keys_def)

lemma map_result_pair_keys:
  "map_result (\<lambda>k. rbind (g k) (\<lambda>m. Inr (k, m))) ks = Inr s \<Longrightarrow> map fst s = ks"
proof (induction ks arbitrary: s)
  case Nil
  then show ?case by simp
next
  case (Cons k ks)
  then show ?case by (auto simp: rbind_def split: sum.splits)
qed

subsection \<open>The mean of one group\<close>

lemma cells_mean_no_str:
  "\<not> list_ex is_str vs \<Longrightarrow> cells_mean vs = Inr (num_mean [x. Num x \<leftarrow> vs])"
  by (simp add: cells_mean_def)

lemma group_pairs:
  "map snd (filter (\<lambda>(k', v). k' = k)
     (zip (map snd (map (\<lambda>(i, r). (i, r ! a)) rs)) (map snd (map (\<lambda>(i, r). (i, r ! b)) rs)))) =
   concat (map (\<lambda>(i, r). if r ! a = k then [r ! b] else []) rs)"
  by (induction rs) auto

lemma group_values_nums:
  "[x. Num x \<leftarrow> concat (map (\<lambda>(i, r). if r ! a = k then [r ! b] else []) rs)] = group_values a b k rs"
proof (induction rs)
  case Nil
  then show ?case by (simp add: group_values_def)
next
  case (Cons row rs)
  then show ?case by (cases row) (auto simp: group_values_def split: cell.splits)
qed

lemma no_str_group:
  "\<not> list_ex (\<lambda>(i, r). is_str (r ! b)) rs \<Longrightarrow>
   \<not> list_ex is_str (concat (map (\<lambda>(i, r). if r ! a = k then [r ! b] else []) rs))"
  by (induction rs) (auto split: if_splits)

lemma groupby_mean_eq:
  assumes "col_pos key (cols f) = Some a" and "col_pos col (cols f) = Some b"
    and "\<not> list_ex (\<lambda>(i, r). is_str (r ! b)) (rows f)"
  shows "groupby_mean key col f =
           Inr (map (\<lambda>k. (k, num_mean (group_values a b k (rows f))))
                  (group_keys (map (\<lambda>(i, r). r ! a) (rows f))))"
proof -
  have step: "rbind (cells_mean (map snd (filter (\<lambda>(k', v). k' = k)
                 (zip (map snd (map (\<lambda>(i, r). (i, r ! a)) (rows f)))
                      (map snd (map (\<lambda>(i, r). (i, r ! b)) (rows f))))))) (\<lambda>m. Inr (k, m)) =
               Inr (k, num_mean (group_values a b k (rows f)))" for k
    by (simp only: group_pairs cells_mean_no_str [OF no_str_group [OF assms(3)]]
        group_values_nums rbind_Inr)
  have keys: "map snd (map (\<lambda>(i, r). (i, r ! a)) (rows f)) = map (\<lambda>(i, r). r ! a) (rows f)"
    by (simp add: case_prod_unfold)
  show ?thesis
    using assms(1,2) step
    by (simp add: groupby_mean_def get_column_Some Let_def keys map_result_Inr del: map_map)
qed

text \<open>
  C3: for a key column and a value column holding no string, the aggregate has
  one entry per key cell that is not \<open>NaN\<close>, in sorted order, and the entry of a
  key is the arithmetic mean of the numbers of the value column over exactly the
  rows carrying that key (\<open>NaN\<close> when there is none).
\<close>

theorem groupby_mean_spec:
  assumes "col_pos key (cols f) = Some a" and "col_pos col (cols f) = Some b"
    and "\<not> list_ex (\<lambda>(i, r). is_str (r ! b)) (rows f)"
  shows "groupby_mean key col f =
           Inr (map (\<lambda>k. (k, num_mean (group_values a b k (rows f))))
                  (group_keys (map (\<lambda>(i, r). r ! a) (rows f))))"
  using assms by (rule groupby_mean_eq)

text \<open>C11: the keys of an aggregate are sorted, unique and never \<open>NaN\<close>.\<close>

theorem groupby_mean_keys:
  assumes "groupby_mean key col f = Inr s"
  shows "sorted (map fst s) \<and> distinct (map fst s) \<and> NaN \<notin> set (map fst s)"
proof -
  obtain ks vs where "get_column key f = Inr ks" and "get_column col f = Inr vs"
    and m: "map_result (\<lambda>k. rbind (cells_mean (map snd (filter (\<lambda>(k', v). k' = k)
            (zip (map snd ks) (map snd vs))))) (\<lambda>m. Inr (k, m))) (group_keys (map snd ks)) = Inr s"
    using assms by (auto simp: groupby_mean_def rbind_def Let_def split: sum.splits)
  from m have "map fst s = group_keys (map snd ks)"
    by (rule map_result_pair_keys)
  then show ?thesis
    using group_keys_props [of "map snd ks"] by simp
qed


subsection \<open>Combining aligned aggregates\<close>

lemma unique_concat_same:
  "ss \<noteq> [] \<Longrightarrow> distinct idx \<Longrightarrow> \<forall>s \<in> set ss. map fst s = idx \<Longrightarrow>
   unique (concat (map (map fst) ss)) = idx"
  by (cases ss) (auto intro!: unique_append_subset split: if_splits)

lemma map_of_keyed:
  "k \<in> set ks \<Longrightarrow> map_of (map (\<lambda>k. (k, g k)) ks) k = Some (g k)"
  by (induction ks) auto

lemma concat_axis1_keyed:
  assumes "cs \<noteq> []" and "distinct idx"
  shows "concat_axis1 names (map (\<lambda>c. map (\<lambda>k. (k, M c k)) idx) cs) =
           Inr \<lparr>cols = names, rows = map (\<lambda>k. (k, map (\<lambda>c. M c k) cs)) idx\<rparr>"
proof -
  have "unique (concat (map (map fst) (map (\<lambda>c. map (\<lambda>k. (k, M c k)) idx) cs))) = idx"
    using assms by (intro unique_concat_same) (auto simp: comp_def)
  then show ?thesis
    using assms(1) by (simp add: concat_axis1_def map_of_keyed comp_def)
qed

lemma genre_data_lookup:
  "map (\<lambda>c. case map_of (map (\<lambda>c. (c, S c)) agg_columns) c of Some s \<Rightarrow> s | None \<Rightarrow> [])
     genre_data_columns = map S genre_data_columns"
  by (simp add: agg_columns_def genre_data_columns_def)

lemma genre_data_of_eq:
  assumes "col_pos ''genre'' (cols ag) = Some a" and "list_all (numeric_col ag) agg_columns"
  shows "genre_data_of ag =
           Inr \<lparr>cols = genre_data_columns,
                rows = map (\<lambda>k. (k, map (\<lambda>c. num_mean (group_values a (the (col_pos c (cols ag))) k (rows ag)))
                                        genre_data_columns))
                         (group_keys (map (\<lambda>(i, r). r ! a) (rows ag)))\<rparr>"
proof -
  define keys where "keys = group_keys (map (\<lambda>(i, r). r ! a) (rows ag))"
  define M where "M c k = num_mean (group_values a (the (col_pos c (cols ag))) k (rows ag))" for c k
  have each: "groupby_mean ''genre'' c ag = Inr (map (\<lambda>k. (k, M c k)) keys)" if "c \<in> set agg_columns" for c
  proof -
    from assms(2) that have "numeric_col ag c" by (simp add: list_all_iff)
    then obtain b where b: "col_pos c (cols ag) = Some b"
      and nostr: "\<not> list_ex (\<lambda>(i, r). is_str (r ! b)) (rows ag)"
      by (auto simp: numeric_col_def split: option.splits)
    show ?thesis
      using groupby_mean_eq [OF assms(1) b nostr] b by (simp add: M_def keys_def)
  qed
  then have "map_result (\<lambda>c. rbind (groupby_mean ''genre'' c ag) (\<lambda>s. Inr (c, s))) agg_columns =
             Inr (map (\<lambda>c. (c, map (\<lambda>k. (k, M c k)) keys)) agg_columns)"
    by (intro map_result_Inr) simp
  then have "genre_data_of ag =
             concat_axis1 genre_data_columns (map (\<lambda>c. map (\<lambda>k. (k, M c k)) keys) genre_data_columns)"
    by (simp only: genre_data_of_def rbind_Inr genre_data_lookup)
  also have "\<dots> = Inr \<lparr>cols = genre_data_columns,
                       rows = map (\<lambda>k. (k, map (\<lambda>c. M c k) genre_data_columns)) keys\<rparr>"
  proof (rule concat_axis1_keyed)
    show "genre_data_columns \<noteq> []" by (simp add: genre_data_columns_def)
    show "distinct keys" using group_keys_props by (simp add: keys_def)
  qed
  finally show ?thesis
    by (simp only: M_def keys_def)
qed

text \<open>
  C5: on a frame with a \<open>genre\<close> column and the six aggregated columns holding
  no string, \<open>genre_data\<close> has one row per genre key, in sorted order, whose
  cells are the group means of the columns in the order line 139 lists them.
\<close>

theorem genre_data_spec:
  assumes "col_pos ''genre'' (cols ag) = Some a" and "list_all (numeric_col ag) agg_columns"
  shows "genre_data_of ag =
           Inr \<lparr>cols = genre_data_columns,
                rows = map (\<lambda>k. (k, map (\<lambda>c. num_mean (group_values a (the (col_pos c (cols ag))) k (rows ag)))
                                        genre_data_columns))
                         (group_keys (map (\<lambda>(i, r). r ! a) (rows ag)))\<rparr>"
  using assms by (rule genre_data_of_eq)

subsection \<open>Numeric columns along the pipeline\<close>

lemma numeric_col_iff:
  "numeric_col f c \<longleftrightarrow>
     (\<exists>b. col_pos c (cols f) = Some b \<and> (\<forall>r \<in> set (map snd (rows f)). \<not> is_str (r ! b)))"
  by (auto simp: numeric_col_def list_ex_iff simp del: col_pos_None_iff split: option.splits)

lemma numeric_col_select:
  assumes "select_columns names f = Inr g" and "c \<in> set names" and "numeric_col f c"
  shows "numeric_col g c"
proof -
  have sub: "set names \<subseteq> set (cols f)"
    using assms(1) by (auto simp: select_columns_def Let_def filter_empty_conv split: if_splits)
  obtain b where b: "col_pos c names = Some b" "b < length names" "names ! b = c"
    using col_pos_in_set [OF assms(2)] by blast
  obtain b' where b': "col_pos c (cols f) = Some b'" "\<forall>r \<in> set (map snd (rows f)). \<not> is_str (r ! b')"
    using assms(3) by (auto simp: numeric_col_iff)
  show ?thesis
  proof -
    have "g = \<lparr>cols = names, rows = map (\<lambda>(i, r). (i, map (\<lambda>c. r ! the (col_pos c (cols f))) names)) (rows f)\<rparr>"
      using assms(1) by (simp add: select_columns_Inr [OF sub])
    then show ?thesis
      using b b' by (fastforce simp: numeric_col_iff)
  qed
qed

lemma numeric_col_drop_zero: "numeric_col f c \<Longrightarrow> numeric_col (drop_zero_rows f) c"
  by (fastforce simp: numeric_col_iff drop_zero_rows_filter)

lemma num_mean_not_str [simp]: "\<not> is_str (num_mean xs)"
  by (simp add: num_mean_def is_str_def)

lemma popularity_ranking_Inr:
  assumes "col_pos ''popularity'' (cols gd) = Some k" and "\<forall>r \<in> set (map snd (rows gd)). \<not> is_str (r ! k)"
  shows "\<exists>s. popularity_ranking gd = Inr s"
  using assms by (auto simp: popularity_ranking_def sort_values_desc_def list_ex_iff get_column_def)

subsection \<open>Ranking\<close>

lemma mset_partition_sort:
  "mset (sort_key g (filter P xs) @ filter (\<lambda>x. \<not> P x) xs) = mset xs"
  by (simp add: mset_filter multiset_partition [symmetric])

lemma desc_key_order:
  assumes "snd x ! k = Num u" and "snd y ! k = Num v"
  shows "desc_key k x \<le> desc_key k y \<longleftrightarrow> snd y ! k \<le> snd x ! k"
  using assms by (simp add: desc_key_def)

lemma numeric_cell_cases:
  "v \<noteq> NaN \<Longrightarrow> \<not> is_str v \<Longrightarrow> \<exists>x. v = Num x"
  by (cases v) (auto simp: is_str_def)

text \<open>
  C12: the descending sort keeps every row (a permutation), puts the rows with a
  number first in non-increasing order of that number, and the \<open>NaN\<close> rows last.
\<close>

theorem sort_values_desc_sorted:
  assumes "col_pos col (cols f) = Some k" and "sort_values_desc col f = Inr g"
  shows "cols g = cols f \<and> mset (rows g) = mset (rows f) \<and>
         (\<exists>xs ys. rows g = xs @ ys \<and> sorted_wrt (\<lambda>x y. snd y ! k \<le> snd x ! k) xs \<and>
                  list_all (\<lambda>(i, r). r ! k \<noteq> NaN) xs \<and> list_all (\<lambda>(i, r). r ! k = NaN) ys)"
proof -
  let ?num = "filter (\<lambda>(i, r). r ! k \<noteq> NaN) (rows f)"
  let ?xs = "sort_key (desc_key k) ?num"
  from assms have nostr: "\<not> list_ex (\<lambda>(i, r). is_str (r ! k)) (rows f)"
    and g: "g = f\<lparr>rows := ?xs @ filter (\<lambda>(i, r). r ! k = NaN) (rows f)\<rparr>"
    by (auto simp: sort_values_desc_def split: if_splits)
  have set_xs: "set ?xs = set ?num" by simp
  have nums: "\<forall>x \<in> set ?xs. \<exists>u. snd x ! k = Num u"
    using nostr by (auto simp: list_ex_iff intro: numeric_cell_cases)
  have "sorted_wrt (\<lambda>x y. desc_key k x \<le> desc_key k y) ?xs"
    using sorted_sort_key [of "desc_key k" ?num] by (simp add: sorted_wrt_map)
  then have "sorted_wrt (\<lambda>x y. snd y ! k \<le> snd x ! k) ?xs"
    by (rule sorted_wrt_mono_rel [rotated]) (use nums desc_key_order in blast)
  moreover have "list_all (\<lambda>(i, r). r ! k \<noteq> NaN) ?xs"
    by (auto simp: list_all_iff)
  moreover have "list_all (\<lambda>(i, r). r ! k = NaN) (filter (\<lambda>(i, r). r ! k = NaN) (rows f))"
    by (auto simp: list_all_iff)
  moreover have "mset (rows g) = mset (rows f)"
    using mset_partition_sort [of "desc_key k" "\<lambda>(i, r). r ! k \<noteq> NaN" "rows f"]
    by (simp add: g case_prod_unfold)
  ultimately show ?thesis
    by (auto simp: g)
qed

lemma genre_data_shape:
  assumes "col_pos ''genre'' (cols ag) = Some a" and "list_all (numeric_col ag) agg_columns"
    and "genre_data_of ag = Inr gd"
  shows "cols gd = genre_data_columns \<and>
         (\<forall>r \<in> set (map snd (rows gd)). length r = length genre_data_columns \<and> (\<forall>v \<in> set r. \<not> is_str v))"
  using assms(3) [symmetric] genre_data_of_eq [OF assms(1,2)] by auto

subsection \<open>The aggregate holds no strings\<close>

lemma map_result_in_set: "map_result f xs = Inr ys \<Longrightarrow> y \<in> set ys \<Longrightarrow> \<exists>x \<in> set xs. f x = Inr y"
  by (metis in_set_conv_nth map_result_eq_Inr nth_mem)

lemma cells_mean_Inr_not_str: "cells_mean vs = Inr m \<Longrightarrow> \<not> is_str m"
  by (auto simp: cells_mean_def split: if_splits)

lemma groupby_mean_not_str:
  assumes "groupby_mean key col f = Inr s" and "(k, v) \<in> set s"
  shows "\<not> is_str v"
proof -
  obtain ks vs where "get_column key f = Inr ks" and "get_column col f = Inr vs" and "map_result (\<lambda>k. rbind (cells_mean (map snd (filter (\<lambda>(k', v). k' = k)
      (zip (map snd ks) (map snd vs))))) (\<lambda>m. Inr (k, m))) (group_keys (map snd ks)) = Inr s"
    using assms(1) unfolding groupby_mean_def Let_def rbind_eq_Inr by blast
  from map_result_in_set [OF this(3) assms(2)] show ?thesis
    by (auto simp: rbind_eq_Inr dest: cells_mean_Inr_not_str)
qed

lemma concat_axis1_not_str:
  assumes "concat_axis1 names ss = Inr f" and "\<forall>s \<in> set ss. \<forall>(k, v) \<in> set s. \<not> is_str v"
  shows "\<forall>r \<in> set (map snd (rows f)). \<forall>v \<in> set r. \<not> is_str v"
proof (intro ballI)
  fix r v assume r: "r \<in> set (map snd (rows f))" and v: "v \<in> set r"
  from assms(1) have "rows f = map (\<lambda>k. (k, map (\<lambda>s. case map_of s k of Some v \<Rightarrow> v | None \<Rightarrow> NaN) ss))
                        (unique (concat (map (map fst) ss)))"
    by (auto simp: concat_axis1_def split: if_splits)
  with r v obtain k s where s: "s \<in> set ss" and vk: "v = (case map_of s k of Some v \<Rightarrow> v | None \<Rightarrow> NaN)"
    by auto
  show "\<not> is_str v"
  proof (cases "map_of s k")
    case None
    then show ?thesis using vk by (simp add: is_str_def)
  next
    case (Some w)
    then have "(k, w) \<in> set s" by (rule map_of_SomeD)
    then show ?thesis using assms(2) s vk Some by auto
  qed
qed

lemma genre_data_of_not_str:
  assumes "genre_data_of ag = Inr gd"
  shows "\<forall>r \<in> set (map snd (rows gd)). \<forall>v \<in> set r. \<not> is_str v"
proof -
  obtain named where mr: "map_result (\<lambda>c. rbind (groupby_mean ''genre'' c ag) (\<lambda>s. Inr (c, s))) agg_columns = Inr named"
    and ca: "concat_axis1 genre_data_columns
               (map (\<lambda>c. case map_of named c of Some s \<Rightarrow> s | None \<Rightarrow> []) genre_data_columns) = Inr gd"
    using assms by (auto simp: genre_data_of_def rbind_eq_Inr)
  have ns: "\<not> is_str v" if "(c, s) \<in> set named" and "(k, v) \<in> set s" for c s k v
    using map_result_in_set [OF mr that(1)] that(2)
    by (auto simp: rbind_eq_Inr dest: groupby_mean_not_str)
  have "\<forall>s \<in> set (map (\<lambda>c. case map_of named c of Some s \<Rightarrow> s | None \<Rightarrow> []) genre_data_columns).
               \<forall>(k, v) \<in> set s. \<not> is_str v"
  proof
    fix s' assume "s' \<in> set (map (\<lambda>c. case map_of named c of Some s \<Rightarrow> s | None \<Rightarrow> []) genre_data_columns)"
    then obtain c where s': "s' = (case map_of named c of Some s \<Rightarrow> s | None \<Rightarrow> [])" by auto
    show "\<forall>(k, v) \<in> set s'. \<not> is_str v"
    proof (cases "map_of named c")
      case (Some s)
      then have "(c, s) \<in> set named" by (rule map_of_SomeD)
      then show ?thesis using s' Some ns by auto
    qed (simp add: s')
  qed
  with ca show ?thesis by (rule concat_axis1_not_str)
qed

end
