(* ===== verification/Histogram.thy ===== *)
theory Histogram
  imports GroupBy "HOL-Library.While_Combinator"
begin

text \<open>
  The histograms of cells \<open>In[16]\<close>, \<open>In[18]\<close>, \<open>In[20]\<close>, \<open>In[22]\<close>, \<open>In[24]\<close> and
  \<open>In[26]\<close>: \<open>d.col.hist(bins=n)\<close> drops the missing values of the column
  (pandas' \<open>hist_series\<close> calls \<open>dropna\<close>) and hands them to matplotlib, which
  takes their minimum and maximum as the range and calls \<open>np.histogram\<close>. The
  binning is numpy's uniform-bin path: \<open>n + 1\<close> edges from \<open>np.linspace\<close>, an index
  per value computed from the quotient \<open>(x - first_edge) / (last_edge - first_edge) * n\<close>,
  truncated, with the last edge folded into the last bin and two corrections
  against the edges, counted with \<open>np.bincount\<close> in blocks of 65536 values.
  Floats are exact reals, as in the rest of the development; the corrections
  that guard numpy against rounding are modelled and shown never to fire.
\<close>

section \<open>Input, range and edges\<close>

text \<open>\<open>Series.dropna().values\<close>: the numbers of the column; a string raises \<open>TypeError\<close> in the range computation.\<close>

definition hist_values :: "'i series \<Rightarrow> real list result" where
  "hist_values s =
     (if list_ex (\<lambda>(i, v). is_str v) s then Inl TypeError else Inr [x. (i, Num x) \<leftarrow> s])"

text \<open>\<open>np.nanmin\<close> and \<open>np.nanmax\<close> as the reductions they are.\<close>

definition list_min :: "real list \<Rightarrow> real" where
  "list_min xs = foldl min (hd xs) (tl xs)"

definition list_max :: "real list \<Rightarrow> real" where
  "list_max xs = foldl max (hd xs) (tl xs)"

text \<open>
  \<open>_get_outer_edges\<close>: the data range, \<open>(0, 1)\<close> for no data, widened by one half on
  each side when all values are equal.
\<close>

definition outer_edges :: "real list \<Rightarrow> real \<times> real" where
  "outer_edges xs =
     (if xs = [] then (0, 1)
      else let lo = list_min xs; hi = list_max xs in
           if lo = hi then (lo - 1 / 2, hi + 1 / 2) else (lo, hi))"

text \<open>\<open>np.linspace(start, stop, num)\<close> with \<open>endpoint=True\<close>: the last point is set to \<open>stop\<close>.\<close>

definition linspace :: "real \<Rightarrow> real \<Rightarrow> nat \<Rightarrow> real list" where
  "linspace start stop num =
     (let step = (stop - start) / real (num - 1) in
      map (\<lambda>i. if 1 < num \<and> i = num - 1 then stop else start + real i * step) [0..<num])"

definition bin_edges :: "nat \<Rightarrow> real \<Rightarrow> real \<Rightarrow> real list" where
  "bin_edges n lo hi = linspace lo hi (n + 1)"

section \<open>The bin of a value\<close>

text \<open>
  numpy's index of a value \<open>x\<close> with \<open>lo \<le> x \<le> hi\<close>: the truncated quotient, the
  value at the last edge moved into the last bin, then one step down when \<open>x\<close> lies
  below its bin's left edge and one step up when it lies at or past the right
  edge of a bin that is not the last.
\<close>

definition np_bin_index :: "nat \<Rightarrow> real \<Rightarrow> real \<Rightarrow> real \<Rightarrow> nat" where
  "np_bin_index n lo hi x =
     (let e = bin_edges n lo hi;
          i0 = nat \<lfloor>(x - lo) / (hi - lo) * real n\<rfloor>;
          i1 = (if i0 = n then i0 - 1 else i0);
          i2 = (if x < e ! i1 then i1 - 1 else i1);
          i3 = (if e ! (i2 + 1) \<le> x \<and> i2 \<noteq> n - 1 then i2 + 1 else i2)
      in i3)"

text \<open>\<open>keep = (a >= first_edge) & (a <= last_edge)\<close>, the indices, and \<open>np.bincount(.., minlength=n)\<close>.\<close>

definition block_counts :: "nat \<Rightarrow> real \<Rightarrow> real \<Rightarrow> real list \<Rightarrow> nat list" where
  "block_counts n lo hi xs =
     (let idx = map (np_bin_index n lo hi) (filter (\<lambda>x. lo \<le> x \<and> x \<le> hi) xs) in
      map (\<lambda>k. count_list idx k) [0..<n])"

definition hist_block :: nat where
  "hist_block = 65536"

text \<open>
  numpy's loop \<open>for i in range(0, len(a), BLOCK): tmp_a = a[i:i+BLOCK]; ...;
  n += np.bincount(...)\<close> kept as a loop: its state is the index \<open>i\<close> and the
  counts \<open>n\<close>; \<open>hist_step\<close> is one iteration, \<open>hist_loop\<close> runs them from
  \<open>(0, zeros)\<close> while \<open>i < len(a)\<close> (\<open>None\<close> would be a loop that never stops).
\<close>

definition hist_step :: "nat \<Rightarrow> real \<Rightarrow> real \<Rightarrow> real list \<Rightarrow> nat \<times> nat list \<Rightarrow> nat \<times> nat list" where
  "hist_step n lo hi xs =
     (\<lambda>(i, acc). (i + hist_block, map2 (+) acc (block_counts n lo hi (take hist_block (drop i xs)))))"

definition hist_loop :: "nat \<Rightarrow> real \<Rightarrow> real \<Rightarrow> real list \<Rightarrow> (nat \<times> nat list) option" where
  "hist_loop n lo hi xs = while_option (\<lambda>(i, acc). i < length xs) (hist_step n lo hi xs) (0, replicate n 0)"

text \<open>
  \<open>np.histogram(a, bins=n)\<close>: \<open>ValueError\<close> unless \<open>n\<close> is positive; otherwise the
  counts and the edges.
\<close>

definition np_histogram :: "nat \<Rightarrow> real list \<Rightarrow> (nat list \<times> real list) result" where
  "np_histogram n xs =
     (if n < 1 then Inl (ValueError ''`bins` must be positive'')
      else let (lo, hi) = outer_edges xs in
           Inr (snd (the (hist_loop n lo hi xs)), bin_edges n lo hi))"

text \<open>\<open>s.hist(bins=n)\<close> on a column: what the bars show.\<close>

definition series_hist :: "nat \<Rightarrow> 'i series \<Rightarrow> (nat list \<times> real list) result" where
  "series_hist n s = rbind (hist_values s) (np_histogram n)"

section \<open>Reference binning\<close>

text \<open>The bin a value falls in, read off the real line: bins of width \<open>(hi - lo) / n\<close>, the last closed.\<close>

definition ref_bin :: "nat \<Rightarrow> real \<Rightarrow> real \<Rightarrow> real \<Rightarrow> nat" where
  "ref_bin n lo hi x = min (n - 1) (nat \<lfloor>(x - lo) * real n / (hi - lo)\<rfloor>)"

definition ref_counts :: "nat \<Rightarrow> real \<Rightarrow> real \<Rightarrow> real list \<Rightarrow> nat list" where
  "ref_counts n lo hi xs = map (\<lambda>k. length (filter (\<lambda>x. ref_bin n lo hi x = k) xs)) [0..<n]"

section \<open>Lemmas\<close>

subsection \<open>Edges, ranges and the bin of a value\<close>

lemma length_bin_edges [simp]: "length (bin_edges n lo hi) = Suc n"
  by (simp add: bin_edges_def linspace_def Let_def)

lemma bin_edges_nth:
  assumes "0 < n" and "i \<le> n"
  shows "bin_edges n lo hi ! i = lo + real i * (hi - lo) / real n"
proof -
  have "i < Suc n" using assms(2) by simp
  then have "bin_edges n lo hi ! i = (if i = n then hi else lo + real i * ((hi - lo) / real n))"
    using assms(1) by (simp add: bin_edges_def linspace_def Let_def del: upt_Suc)
  then show ?thesis
    using assms(1) by simp
qed

lemma edge_le_iff:
  assumes "0 < n" and "lo < hi"
  shows "lo + real k * (hi - lo) / real n \<le> x \<longleftrightarrow> real k \<le> (x - lo) * real n / (hi - lo)"
  using assms by (simp add: field_simps)

lemma np_quotient: "(x - lo) / (hi - lo) * real n = (x - lo) * real n / (hi - lo)"
  by simp

lemma ref_bin_floor:
  assumes "0 < n" and "lo < hi" and "lo \<le> x" and "x \<le> hi"
  shows "nat \<lfloor>(x - lo) * real n / (hi - lo)\<rfloor> \<le> n"
    and "real (nat \<lfloor>(x - lo) * real n / (hi - lo)\<rfloor>) \<le> (x - lo) * real n / (hi - lo)"
    and "(x - lo) * real n / (hi - lo) < real (nat \<lfloor>(x - lo) * real n / (hi - lo)\<rfloor>) + 1"
proof -
  define f where "f = (x - lo) * real n / (hi - lo)"
  have f0: "0 \<le> f" using assms by (simp add: f_def)
  have fn: "f \<le> real n" using assms by (simp add: f_def field_simps)
  show "nat \<lfloor>(x - lo) * real n / (hi - lo)\<rfloor> \<le> n"
    using fn f0 unfolding f_def[symmetric] by (simp add: nat_le_iff floor_le_iff)
  show "real (nat \<lfloor>(x - lo) * real n / (hi - lo)\<rfloor>) \<le> (x - lo) * real n / (hi - lo)"
    using f0 unfolding f_def[symmetric] by simp
  show "(x - lo) * real n / (hi - lo) < real (nat \<lfloor>(x - lo) * real n / (hi - lo)\<rfloor>) + 1"
    using f0 unfolding f_def[symmetric] by linarith
qed

lemma np_bin_index_ref:
  assumes "0 < n" and "lo < hi" and "lo \<le> x" and "x \<le> hi"
  shows "np_bin_index n lo hi x = ref_bin n lo hi x"
proof -
  define f where "f = (x - lo) * real n / (hi - lo)"
  define i0 where "i0 = nat \<lfloor>f\<rfloor>"
  define i1 where "i1 = (if i0 = n then i0 - 1 else i0)"
  note fl = ref_bin_floor [OF assms, folded f_def, folded i0_def]
  have ref: "ref_bin n lo hi x = i1"
    using fl(1) assms(1) by (auto simp: ref_bin_def i1_def i0_def f_def)
  have "i1 \<le> i0" and "i1 < n" using fl(1) assms(1) by (auto simp: i1_def)
  have below: "\<not> x < bin_edges n lo hi ! i1"
  proof -
    have "real i1 \<le> f" using \<open>i1 \<le> i0\<close> fl(2) by linarith
    then show ?thesis
      using \<open>i1 < n\<close> assms(1,2) by (simp add: bin_edges_nth edge_le_iff f_def not_less)
  qed
  have above: "\<not> (bin_edges n lo hi ! (i1 + 1) \<le> x \<and> i1 \<noteq> n - 1)"
  proof
    assume a: "bin_edges n lo hi ! (i1 + 1) \<le> x \<and> i1 \<noteq> n - 1"
    then have "i1 = i0" and "i0 + 1 \<le> n" using fl(1) assms(1) by (auto simp: i1_def split: if_splits)
    with a have "lo + real (i0 + 1) * (hi - lo) / real n \<le> x"
      using bin_edges_nth [OF assms(1) \<open>i0 + 1 \<le> n\<close>] by simp
    then have "real (i0 + 1) \<le> f"
      unfolding f_def by (rule edge_le_iff [OF assms(1,2), THEN iffD1])
    with fl(3) show False by simp
  qed
  have "np_bin_index n lo hi x = i1"
    unfolding np_bin_index_def Let_def np_quotient f_def [symmetric] i0_def [symmetric] i1_def [symmetric]
    using below above by simp
  with ref show ?thesis by simp
qed

lemma foldl_min_init: "foldl min a ys \<le> (a :: real)"
proof (induction ys arbitrary: a)
  case (Cons y ys)
  show ?case using Cons.IH [of "min a y"] by simp
qed simp

lemma foldl_max_init: "(a :: real) \<le> foldl max a ys"
proof (induction ys arbitrary: a)
  case (Cons y ys)
  show ?case using Cons.IH [of "max a y"] by simp
qed simp

lemma foldl_min_le: "x \<in> set (a # ys) \<Longrightarrow> foldl min a ys \<le> (x :: real)"
proof (induction ys arbitrary: a)
  case (Cons y ys)
  then show ?case
    using foldl_min_init [of "min a y" ys] by (auto intro: order.trans)
qed simp

lemma foldl_max_ge: "x \<in> set (a # ys) \<Longrightarrow> (x :: real) \<le> foldl max a ys"
proof (induction ys arbitrary: a)
  case (Cons y ys)
  then show ?case
    using foldl_max_init [of "max a y" ys] by (auto intro: order.trans)
qed simp

lemma foldl_min_in: "foldl min a ys \<in> set (a # ys)" for a :: real
proof (induction ys arbitrary: a)
  case (Cons y ys)
  show ?case using Cons.IH [of "min a y"] by (auto simp: min_def split: if_splits)
qed simp

lemma foldl_max_in: "foldl max a ys \<in> set (a # ys)" for a :: real
proof (induction ys arbitrary: a)
  case (Cons y ys)
  show ?case using Cons.IH [of "max a y"] by (auto simp: max_def split: if_splits)
qed simp

lemma outer_edges_const:
  assumes "xs \<noteq> []" and "\<forall>x \<in> set xs. x = v"
  shows "outer_edges xs = (v - 1 / 2, v + 1 / 2)"
proof -
  have "list_min xs \<in> set xs" and "list_max xs \<in> set xs"
    using assms(1) foldl_min_in [of "hd xs" "tl xs"] foldl_max_in [of "hd xs" "tl xs"]
    by (simp_all add: list_min_def list_max_def)
  with assms have "list_min xs = v" and "list_max xs = v" by blast+
  then show ?thesis using assms(1) by (simp add: outer_edges_def Let_def)
qed

lemma list_min_le: "x \<in> set xs \<Longrightarrow> list_min xs \<le> x"
  unfolding list_min_def by (rule foldl_min_le) (cases xs; simp)

lemma list_max_ge: "x \<in> set xs \<Longrightarrow> x \<le> list_max xs"
  unfolding list_max_def by (rule foldl_max_ge) (cases xs; simp)

lemma outer_edges_bounds:
  assumes "outer_edges xs = (lo, hi)"
  shows "lo < hi" and "\<forall>x \<in> set xs. lo \<le> x \<and> x \<le> hi"
proof -
  have mm: "list_min xs \<le> list_max xs" if "xs \<noteq> []"
    using that list_min_le [of "hd xs" xs] list_max_ge [of "hd xs" xs] by simp
  show "lo < hi"
    using assms mm by (auto simp: outer_edges_def Let_def split: if_splits)
  show "\<forall>x \<in> set xs. lo \<le> x \<and> x \<le> hi"
    using assms list_min_le list_max_ge
    by (fastforce simp: outer_edges_def Let_def split: if_splits)
qed

lemma map2_map_same: "map2 g (map f xs) (map h xs) = map (\<lambda>k. g (f k) (h k)) xs"
  by (induction xs) auto

lemma length_block_counts [simp]: "length (block_counts n lo hi xs) = n"
  by (simp add: block_counts_def Let_def)

lemma block_counts_append:
  "block_counts n lo hi (xs @ ys) = map2 (+) (block_counts n lo hi xs) (block_counts n lo hi ys)"
  by (simp add: block_counts_def Let_def map2_map_same)

text \<open>
  The loop from any block boundary \<open>i\<close>: it stops, at \<open>i\<close> itself when \<open>i\<close> is
  already past the data and otherwise at the first block boundary at or past
  \<open>len(a)\<close>, having added the counts of \<open>a[i:]\<close>. By induction on the
  distance \<open>len(a) - i\<close>, the measure each iteration decreases.
\<close>

lemma hist_loop_from:
  assumes "length acc = n" and "i mod hist_block = 0"
  shows "\<exists>j. while_option (\<lambda>(i, acc). i < length xs) (hist_step n lo hi xs) (i, acc) =
               Some (j, map2 (+) acc (block_counts n lo hi (drop i xs))) \<and> j mod hist_block = 0 \<and>
             (length xs \<le> i \<longrightarrow> j = i) \<and> (i < length xs \<longrightarrow> length xs \<le> j \<and> j < length xs + hist_block)"
  using assms
proof (induction "length xs - i" arbitrary: i acc rule: less_induct)
  case less
  let ?W = "while_option (\<lambda>(i, acc). i < length xs) (hist_step n lo hi xs)"
  show ?case
  proof (cases "i < length xs")
    case False
    have "map2 (+) acc (block_counts n lo hi (drop i xs)) = acc"
      using False less.prems(1) by (intro nth_equalityI) (simp_all add: block_counts_def)
    then show ?thesis using False less.prems(2) by (simp add: while_option_unfold [of _ _ "(i, acc)"])
  next
    case True
    let ?acc' = "map2 (+) acc (block_counts n lo hi (take hist_block (drop i xs)))"
    have B: "0 < hist_block" by (simp add: hist_block_def)
    have m1: "length xs - (i + hist_block) < length xs - i" using True B by simp
    have m2: "length ?acc' = n" and m3: "(i + hist_block) mod hist_block = 0"
      using less.prems by simp_all
    from less.hyps [OF m1 m2 m3] obtain j where j: "?W (i + hist_block, ?acc') =
        Some (j, map2 (+) ?acc' (block_counts n lo hi (drop (i + hist_block) xs)))"
      and jm: "j mod hist_block = 0"
      and jb1: "length xs \<le> i + hist_block \<longrightarrow> j = i + hist_block"
      and jb2: "i + hist_block < length xs \<longrightarrow> length xs \<le> j \<and> j < length xs + hist_block"
      by (elim exE conjE) (rule that)
    have "drop i xs = take hist_block (drop i xs) @ drop (i + hist_block) xs"
      by (metis append_take_drop_id drop_drop add.commute)
    then have bc: "block_counts n lo hi (drop i xs) =
        map2 (+) (block_counts n lo hi (take hist_block (drop i xs))) (block_counts n lo hi (drop (i + hist_block) xs))"
      by (metis block_counts_append)
    have "map2 (+) ?acc' (block_counts n lo hi (drop (i + hist_block) xs)) =
               map2 (+) acc (block_counts n lo hi (drop i xs))"
      unfolding bc using less.prems(1) by (intro nth_equalityI) simp_all
    moreover have "?W (i, acc) = ?W (i + hist_block, ?acc')"
      using True by (simp add: while_option_unfold [of _ _ "(i, acc)"] hist_step_def)
    moreover have "length xs \<le> j \<and> j < length xs + hist_block"
      using jb1 jb2 True by linarith
    ultimately show ?thesis using j jm True by simp
  qed
qed

lemma count_list_map: "count_list (map g xs) k = length (filter (\<lambda>x. g x = k) xs)"
  by (induction xs) auto

lemma block_counts_ref:
  assumes "0 < n" and "lo < hi" and "\<forall>x \<in> set xs. lo \<le> x \<and> x \<le> hi"
  shows "block_counts n lo hi xs = ref_counts n lo hi xs"
proof -
  have "filter (\<lambda>x. lo \<le> x \<and> x \<le> hi) xs = xs"
    using assms(3) by (simp add: filter_id_conv)
  moreover have "map (np_bin_index n lo hi) xs = map (ref_bin n lo hi) xs"
    using assms np_bin_index_ref by (auto intro: map_cong)
  ultimately have "map (np_bin_index n lo hi) (filter (\<lambda>x. lo \<le> x \<and> x \<le> hi) xs) = map (ref_bin n lo hi) xs"
    by simp
  then show ?thesis
    unfolding block_counts_def ref_counts_def Let_def by (intro map_cong) (simp_all add: count_list_map)
qed

lemma hist_loop_counts: "snd (the (hist_loop n lo hi xs)) = block_counts n lo hi xs"
proof -
  obtain j where "hist_loop n lo hi xs = Some (j, map2 (+) (replicate n 0) (block_counts n lo hi xs))"
    using hist_loop_from [of "replicate n 0" n 0 xs lo hi] by (auto simp: hist_loop_def)
  moreover have "map2 (+) (replicate n 0) (block_counts n lo hi xs) = block_counts n lo hi xs"
    by (rule nth_equalityI) simp_all
  ultimately show ?thesis by simp
qed

lemma np_histogram_Inr:
  assumes "0 < n"
  shows "np_histogram n xs =
           Inr (ref_counts n (fst (outer_edges xs)) (snd (outer_edges xs)) xs,
                bin_edges n (fst (outer_edges xs)) (snd (outer_edges xs)))"
proof -
  obtain lo hi where oe: "outer_edges xs = (lo, hi)" by fastforce
  have "block_counts n lo hi xs = ref_counts n lo hi xs"
    using assms outer_edges_bounds [OF oe] by (rule block_counts_ref)
  then show ?thesis
    using assms oe by (simp add: np_histogram_def hist_loop_counts)
qed

lemma ref_bin_lt: "0 < n \<Longrightarrow> ref_bin n lo hi x < n"
  by (simp add: ref_bin_def)

lemma sum_list_bins:
  "\<forall>x \<in> set xs. g x < n \<Longrightarrow> sum_list (map (\<lambda>k. length (filter (\<lambda>x. g x = k) xs)) [0..<n]) = length xs"
proof (induction xs)
  case Nil
  then show ?case by (simp add: sum_list_replicate)
next
  case (Cons a xs)
  have "sum_list (map (\<lambda>k. length (filter (\<lambda>x. g x = k) (a # xs))) [0..<n]) =
        sum_list (map (\<lambda>k. if g a = k then 1 else 0) [0..<n]) +
        sum_list (map (\<lambda>k. length (filter (\<lambda>x. g x = k) xs)) [0..<n])"
    by (simp only: sum_list_addf [symmetric]) (intro arg_cong [where f = sum_list] map_cong; simp)
  also have "sum_list (map (\<lambda>k. if g a = k then 1 else 0) [0..<n]) = (1 :: nat)"
    using Cons.prems by (simp only: interv_sum_list_conv_sum_set_nat sum.delta' set_upt) simp
  finally show ?case using Cons by simp
qed

text \<open>
  C24: with a positive number of bins, numpy's histogram is the reference
  binning: each value is counted in bin \<open>min (n - 1) \<lfloor>(x - lo) n / (hi - lo)\<rfloor>\<close>
  of the data range, and the edges are the \<open>n + 1\<close> points of \<open>linspace\<close>.
\<close>

theorem np_histogram_ref:
  assumes "0 < n"
  shows "np_histogram n xs =
           Inr (ref_counts n (fst (outer_edges xs)) (snd (outer_edges xs)) xs,
                bin_edges n (fst (outer_edges xs)) (snd (outer_edges xs)))"
  using assms by (rule np_histogram_Inr)

text \<open>
  C25: a histogram of a column without strings has one bar per bin, \<open>n + 1\<close>
  edges, and its bars add up to the number of values that are not missing.
\<close>

theorem series_hist_total:
  assumes "\<not> list_ex (\<lambda>(i, v). is_str v) s" and "0 < n"
  shows "\<exists>c e. series_hist n s = Inr (c, e) \<and> length c = n \<and> length e = Suc n \<and>
                sum_list c = length [x. (i, Num x) \<leftarrow> s]"
proof -
  define xs where "xs = [x. (i, Num x) \<leftarrow> s]"
  have hv: "hist_values s = Inr xs" using assms(1) by (simp add: hist_values_def xs_def)
  have "sum_list (ref_counts n lo hi xs) = length xs" for lo hi
    unfolding ref_counts_def using ref_bin_lt [OF assms(2)] by (intro sum_list_bins) simp
  then show ?thesis
    using assms(2) by (simp add: series_hist_def hv np_histogram_Inr ref_counts_def xs_def [symmetric])
qed


text \<open>
  C26: every value in the range lies in the bin numpy counts it in, a bin
  of the histogram: between its edges, on its right edge only in the last bin.
\<close>

theorem np_bin_index_in_bin:
  assumes "0 < n" and "lo < hi" and "lo \<le> x" and "x \<le> hi"
  shows "np_bin_index n lo hi x < n \<and>
         bin_edges n lo hi ! np_bin_index n lo hi x \<le> x \<and>
         x \<le> bin_edges n lo hi ! Suc (np_bin_index n lo hi x) \<and>
         (x = bin_edges n lo hi ! Suc (np_bin_index n lo hi x) \<longrightarrow> np_bin_index n lo hi x = n - 1)"
proof -
  define f where "f = (x - lo) * real n / (hi - lo)"
  define k where "k = ref_bin n lo hi x"
  note fl = ref_bin_floor [OF assms, folded f_def]
  have idx: "np_bin_index n lo hi x = k" using np_bin_index_ref [OF assms] by (simp add: k_def)
  have kn: "k < n" using ref_bin_lt [OF assms(1)] by (simp add: k_def)
  have kf: "real k \<le> f" using fl(2) by (simp add: k_def ref_bin_def f_def)
  have left: "bin_edges n lo hi ! k \<le> x"
    using kn kf assms(1,2) by (simp add: bin_edges_nth edge_le_iff f_def)
  have right: "x \<le> bin_edges n lo hi ! Suc k \<and> (x = bin_edges n lo hi ! Suc k \<longrightarrow> k = n - 1)"
  proof (cases "k = n - 1")
    case True
    then have "bin_edges n lo hi ! Suc k = hi"
      using kn assms(1) bin_edges_nth [OF assms(1), of n] by simp
    then show ?thesis using True assms(4) by simp
  next
    case False
    then have "k = nat \<lfloor>f\<rfloor>" by (simp add: k_def ref_bin_def f_def min_def split: if_splits)
    then have "f < real (Suc k)" using fl(3) by simp
    then have "\<not> bin_edges n lo hi ! Suc k \<le> x"
      using kn False assms(1,2) edge_le_iff [OF assms(1,2), of "Suc k" x]
      by (simp add: bin_edges_nth f_def del: of_nat_Suc)
    then show ?thesis using False by simp
  qed
  show ?thesis unfolding idx using kn left right by simp
qed

text \<open>
  C28: a column whose values are all equal is drawn over \<open>[v - 1/2, v + 1/2]\<close>,
  all its values in the middle bin \<open>n div 2\<close>.
\<close>

theorem np_histogram_constant:
  assumes "0 < n" and "xs \<noteq> []" and "\<forall>x \<in> set xs. x = v"
  shows "np_histogram n xs =
           Inr (map (\<lambda>k. if k = n div 2 then length xs else 0) [0..<n],
                bin_edges n (v - 1 / 2) (v + 1 / 2))"
proof -
  have "(v - (v - 1 / 2)) * real n / (v + 1 / 2 - (v - 1 / 2)) = real n / real 2" by simp
  then have "ref_bin n (v - 1 / 2) (v + 1 / 2) v = n div 2"
    using assms(1) by (simp only: ref_bin_def floor_divide_of_nat_eq)
  moreover have fil: "filter P xs = (if P v then xs else [])" for P
    using assms(3) by (auto simp: filter_id_conv filter_empty_conv)
  ultimately have "ref_counts n (v - 1 / 2) (v + 1 / 2) xs = map (\<lambda>k. if k = n div 2 then length xs else 0) [0..<n]"
    by (auto simp: ref_counts_def intro!: map_cong)
  then show ?thesis
    using np_histogram_Inr [OF assms(1), of xs] outer_edges_const [OF assms(2,3)] by simp
qed

text \<open>
  C23: numpy's blockwise loop always stops: from \<open>i = 0\<close> it returns after
  \<open>j / BLOCK\<close> iterations, at the first multiple \<open>j\<close> of the block size at or
  past the number of values, with the counts of all the values, the same as one
  \<open>bincount\<close> over the whole array.
\<close>

theorem hist_loop_terminates:
  "\<exists>j. hist_loop n lo hi xs = Some (j, block_counts n lo hi xs) \<and>
       j mod hist_block = 0 \<and> length xs \<le> j \<and> j < length xs + hist_block"
proof -
  obtain j where w: "hist_loop n lo hi xs = Some (j, map2 (+) (replicate n 0) (block_counts n lo hi xs))"
    and jm: "j mod hist_block = 0"
    and jb1: "length xs \<le> 0 \<longrightarrow> j = 0" and jb2: "0 < length xs \<longrightarrow> length xs \<le> j \<and> j < length xs + hist_block"
    using hist_loop_from [of "replicate n 0" n 0 xs lo hi] by (auto simp: hist_loop_def)
  have "map2 (+) (replicate n 0) (block_counts n lo hi xs) = block_counts n lo hi xs"
    by (rule nth_equalityI) simp_all
  moreover have "length xs \<le> j \<and> j < length xs + hist_block"
    using jb1 jb2 by (cases "length xs = 0") (simp_all add: hist_block_def)
  ultimately show ?thesis using w jm by auto
qed

end
