(* ===== verification/Plots.thy ===== *)
theory Plots
  imports GroupBy Histogram
begin

text \<open>
  The bar plot of cell \<open>In[14]\<close>: \<open>sns.barplot(data=d, x="genre", y="popularity")\<close>
  (line 164) as the bars it draws. seaborn orders the categories of \<open>x\<close> by
  \<open>categorical_order\<close> (first appearance, sorted when they are all numbers,
  missing values dropped), drops the rows where \<open>x\<close> or \<open>y\<close> is missing, and
  draws for each category with data a bar whose height is the mean of \<open>y\<close>
  (its default estimator). The error bars (a bootstrap, random) and the drawing
  are not modelled.

  The comparison cells \<open>In[17]\<close>, \<open>In[19]\<close>, \<open>In[21]\<close>, \<open>In[23]\<close> and
  \<open>In[25]\<close> draw \<open>sns.lmplot(data=d, x=c, y="popularity", hue="genre",
  fit_reg=False)\<close>: one scatter group per genre (lines 198, 225, 252, 278,
  304); the first two also draw \<open>sns.regplot(..., scatter=False, ci=None)\<close>
  (lines 199, 226): the least-squares line of all the points, evaluated on 100
  points spanning the data (seaborn \<open>\<ge>\<close> 0.11, where \<open>truncate=True\<close> is the
  default).

  The lemmas show that each plot succeeds on numeric columns (what the
  notebook run needs), the bars of \<open>d\<close>, the normal equations of the fit and
  from them that it minimises the residual sum of squares \<open>sse\<close>, its error
  paths, and that the scatter groups partition the complete rows.
\<close>

definition is_num :: "cell \<Rightarrow> bool" where
  "is_num v = (case v of Num _ \<Rightarrow> True | _ \<Rightarrow> False)"

definition categorical_order :: "cell list \<Rightarrow> cell list" where
  "categorical_order vs =
     (let u = filter (\<lambda>v. v \<noteq> NaN) (unique vs) in if list_all is_num u then sort u else u)"

text \<open>The numbers \<open>y\<close> takes on the rows of category \<open>k\<close>.\<close>

definition bar_values :: "cell \<Rightarrow> (cell \<times> cell) list \<Rightarrow> real list" where
  "bar_values k ps = [x. (a, Num x) \<leftarrow> ps, a = k]"

text \<open>One bar per category with data, its height the mean (seaborn's default estimator).\<close>

definition bar_estimates :: "cell list \<Rightarrow> (cell \<times> cell) list \<Rightarrow> (cell \<times> real) list" where
  "bar_estimates order ps =
     concat (map (\<lambda>k. let vs = bar_values k ps in
                      if vs = [] then [] else [(k, sum_list vs / real (length vs))]) order)"

text \<open>
  \<open>sns.barplot(data=d, x=..., y=...)\<close> with a categorical \<open>x\<close> (line 164's
  \<open>genre\<close>): seaborn's \<open>infer_orient\<close> needs a numeric \<open>y\<close> and raises
  \<open>TypeError\<close> when the column holds a string anywhere (it looks at the whole
  column, missing values dropped); otherwise the rows with \<open>x\<close> and \<open>y\<close>
  present are grouped by category.
\<close>

definition barplot :: "string \<Rightarrow> string \<Rightarrow> 'i frame \<Rightarrow> (cell \<times> real) list result" where
  "barplot x y f =
     rbind (get_column x f) (\<lambda>xs. rbind (get_column y f) (\<lambda>ys.
     if list_ex is_str (map snd ys) then Inl TypeError
     else Inr (bar_estimates (categorical_order (map snd xs))
                 (filter (\<lambda>(a, b). a \<noteq> NaN \<and> b \<noteq> NaN) (zip (map snd xs) (map snd ys))))))"

text \<open>
  \<open>lmplot\<close> with \<open>fit_reg=False\<close>: \<open>data[[x, y, hue]]\<close> (the names sorted
  and made unique by \<open>np.unique\<close>), then one group per hue level in
  \<open>categorical_order\<close>, each holding the rows of that level whose \<open>x\<close> and \<open>y\<close>
  are present (\<open>regplot\<close>'s \<open>dropna\<close>, called per group by the facet grid).
\<close>

definition hue_groups :: "cell list \<Rightarrow> (cell \<times> cell \<times> cell) list \<Rightarrow> (cell \<times> (cell \<times> cell) list) list" where
  "hue_groups levels zs = map (\<lambda>k. (k, [(a, b). (h, a, b) \<leftarrow> zs, h = k \<and> a \<noteq> NaN \<and> b \<noteq> NaN])) levels"

definition lm_scatter :: "string \<Rightarrow> string \<Rightarrow> string \<Rightarrow> 'i frame \<Rightarrow> (cell \<times> (cell \<times> cell) list) list result" where
  "lm_scatter x y hue f =
     rbind (select_columns (sort (remdups [x, y, hue])) f) (\<lambda>g.
     rbind (get_column x g) (\<lambda>xs. rbind (get_column y g) (\<lambda>ys. rbind (get_column hue g) (\<lambda>hs.
     Inr (hue_groups (categorical_order (map snd hs)) (zip (map snd hs) (zip (map snd xs) (map snd ys))))))))"

text \<open>
  \<open>regplot\<close>'s data: the pairs with both values present (\<open>dropna\<close>); a string
  among them makes the fit raise \<open>TypeError\<close> (\<open>np.linalg.pinv\<close> on an
  object array).
\<close>

definition reg_points :: "'i series \<Rightarrow> 'i series \<Rightarrow> (real \<times> real) list result" where
  "reg_points xs ys =
     (let zs = filter (\<lambda>(a, b). a \<noteq> NaN \<and> b \<noteq> NaN) (zip (map snd xs) (map snd ys)) in
      if list_ex (\<lambda>(a, b). is_str a \<or> is_str b) zs then Inl TypeError
      else Inr [(a, b). (Num a, Num b) \<leftarrow> zs])"

definition mean_list :: "real list \<Rightarrow> real" where
  "mean_list xs = sum_list xs / real (length xs)"

text \<open>
  \<open>fit_fast\<close>: \<open>np.linalg.pinv(X).dot(y)\<close> with \<open>X = [1, x]\<close>, in closed form
  as (intercept, slope). When all \<open>x\<close> are equal \<open>X\<close> has rank one and the
  pseudo-inverse gives the least-squares solution of least norm.
\<close>

definition ls_line :: "(real \<times> real) list \<Rightarrow> real \<times> real" where
  "ls_line ps =
     (let mx = mean_list (map fst ps); my = mean_list (map snd ps);
          sxx = sum_list (map (\<lambda>(x, y). (x - mx)\<^sup>2) ps);
          sxy = sum_list (map (\<lambda>(x, y). (x - mx) * (y - my)) ps)
      in if sxx = 0 then (my / (1 + mx\<^sup>2), mx * my / (1 + mx\<^sup>2))
         else (my - sxy / sxx * mx, sxy / sxx))"

text \<open>
  The line drawn: \<open>grid = np.linspace(x.min(), x.max(), 100)\<close> and
  \<open>yhat = [1, grid] . beta\<close>. With no data left \<open>x.min()\<close> is \<open>NaN\<close> and
  the 100 points drawn are \<open>NaN\<close>.
\<close>

definition regplot :: "string \<Rightarrow> string \<Rightarrow> 'i frame \<Rightarrow> (cell \<times> cell) list result" where
  "regplot x y f =
     rbind (get_column x f) (\<lambda>xs. rbind (get_column y f) (\<lambda>ys. rbind (reg_points xs ys) (\<lambda>ps.
     if ps = [] then Inr (replicate 100 (NaN, NaN))
     else let (a, b) = ls_line ps in
          Inr (map (\<lambda>g. (Num g, Num (a + b * g))) (linspace (list_min (map fst ps)) (list_max (map fst ps)) 100)))))"

text \<open>The residual sum of squares of the line (intercept, slope): what the fit minimises.\<close>

definition sse :: "real \<times> real \<Rightarrow> (real \<times> real) list \<Rightarrow> real" where
  "sse l ps = sum_list (map (\<lambda>(x, y). (y - (fst l + snd l * x))\<^sup>2) ps)"

section \<open>Lemmas\<close>

lemma bar_values_Nil [simp]: "bar_values k [] = []"
  by (simp add: bar_values_def)

lemma bar_values_Cons [simp]:
  "bar_values k ((a, v) # ps) =
     (if a = k then (case v of Num x \<Rightarrow> [x] | _ \<Rightarrow> []) else []) @ bar_values k ps"
  by (simp add: bar_values_def split: cell.splits)

lemma bar_values_absent: "k \<notin> set (map fst ps) \<Longrightarrow> bar_values k ps = []"
  by (induction ps) auto

lemma bar_estimates_Cons_absent:
  "k \<notin> set order \<Longrightarrow> bar_estimates order ((k, v) # ps) = bar_estimates order ps"
  unfolding bar_estimates_def by (intro arg_cong [where f = concat] map_cong) auto

lemma bar_estimates_distinct:
  "distinct (map fst ps) \<Longrightarrow>
   bar_estimates (map fst ps) ps = concat (map (\<lambda>(k, v). case v of Num p \<Rightarrow> [(k, p)] | _ \<Rightarrow> []) ps)"
proof (induction ps)
  case Nil
  then show ?case by (simp add: bar_estimates_def)
next
  case (Cons kv ps)
  obtain k v where kv: "kv = (k, v)" by fastforce
  with Cons.prems have k: "k \<notin> set (map fst ps)" and d: "distinct (map fst ps)" by auto
  have hd: "bar_estimates [k] ((k, v) # ps) = (case v of Num p \<Rightarrow> [(k, p)] | _ \<Rightarrow> [])"
    using bar_values_absent [OF k] by (cases v) (simp_all add: bar_estimates_def)
  have "bar_estimates (k # map fst ps) ((k, v) # ps) =
        bar_estimates [k] ((k, v) # ps) @ bar_estimates (map fst ps) ((k, v) # ps)"
    by (simp add: bar_estimates_def)
  also have "bar_estimates (map fst ps) ((k, v) # ps) = bar_estimates (map fst ps) ps"
    using k by (rule bar_estimates_Cons_absent)
  finally show ?case using Cons.IH d kv hd by simp
qed

lemma bar_values_keep:
  "k \<noteq> NaN \<Longrightarrow> bar_values k (filter (\<lambda>(a, b). a \<noteq> NaN \<and> b \<noteq> NaN) qs) = bar_values k qs"
  by (induction qs) (auto split: cell.splits)

lemma bar_estimates_keep:
  "NaN \<notin> set order \<Longrightarrow>
   bar_estimates order (filter (\<lambda>(a, b). a \<noteq> NaN \<and> b \<noteq> NaN) qs) = bar_estimates order qs"
  unfolding bar_estimates_def
  by (intro arg_cong [where f = concat] map_cong refl) (metis bar_values_keep)

lemma numeric_col_series:
  assumes "numeric_col f c"
  shows "\<exists>s. get_column c f = Inr s \<and> (\<forall>(i, v) \<in> set s. \<not> is_str v)"
proof -
  obtain b where b: "col_pos c (cols f) = Some b" and ns: "\<forall>r \<in> set (map snd (rows f)). \<not> is_str (r ! b)"
    using assms by (auto simp: numeric_col_iff)
  then show ?thesis by (auto simp: get_column_Some)
qed

lemma get_column_in_cols: "c \<in> set (cols f) \<Longrightarrow> \<exists>s. get_column c f = Inr s"
  using col_pos_in_set by (fastforce simp: get_column_def)

lemma barplot_Inr:
  assumes "x \<in> set (cols f)" and "numeric_col f y"
  shows "\<exists>b. barplot x y f = Inr b"
proof -
  obtain xs where xs: "get_column x f = Inr xs" using get_column_in_cols [OF assms(1)] by blast
  obtain ys where ys: "get_column y f = Inr ys" and ns: "\<forall>(i, v) \<in> set ys. \<not> is_str v"
    using numeric_col_series [OF assms(2)] by blast
  have "\<not> list_ex is_str (map snd ys)" using ns by (auto simp: list_ex_iff)
  then show ?thesis using xs ys by (simp add: barplot_def)
qed

lemma regplot_Inr:
  assumes "numeric_col f x" and "numeric_col f y"
  shows "\<exists>l. regplot x y f = Inr l"
proof -
  obtain xs where xs: "get_column x f = Inr xs" and nx: "\<forall>(i, v) \<in> set xs. \<not> is_str v"
    using numeric_col_series [OF assms(1)] by blast
  obtain ys where ys: "get_column y f = Inr ys" and ny: "\<forall>(i, v) \<in> set ys. \<not> is_str v"
    using numeric_col_series [OF assms(2)] by blast
  have "\<not> is_str a \<and> \<not> is_str b" if "(a, b) \<in> set (zip (map snd xs) (map snd ys))" for a b
    using set_zip_leftD [OF that] set_zip_rightD [OF that] nx ny by auto
  then obtain ps where "reg_points xs ys = Inr ps"
    by (auto simp: reg_points_def Let_def list_ex_iff)
  then show ?thesis using xs ys by (cases "ps = []") (simp_all add: regplot_def case_prod_unfold Let_def)
qed

lemma lm_scatter_Inr:
  assumes "set [x, y, hue] \<subseteq> set (cols f)"
  shows "\<exists>g. lm_scatter x y hue f = Inr g"
proof -
  define names where "names = sort (remdups [x, y, hue])"
  have sn: "set names = {x, y, hue}" unfolding names_def set_sort set_remdups by simp
  then have "set names \<subseteq> set (cols f)" using assms by simp
  then obtain g where g: "select_columns names f = Inr g" and cg: "cols g = names"
    using select_columns_Inr [of names f] by simp
  obtain xs where gx: "get_column x g = Inr xs" using get_column_in_cols cg sn by blast
  obtain ys where gy: "get_column y g = Inr ys" using get_column_in_cols cg sn by blast
  obtain hs where gh: "get_column hue g = Inr hs" using get_column_in_cols cg sn by blast
  show ?thesis unfolding lm_scatter_def names_def [symmetric] g rbind_Inr gx gy gh by blast
qed

lemma categorical_order_sorted:
  "distinct ks \<Longrightarrow> sorted ks \<Longrightarrow> NaN \<notin> set ks \<Longrightarrow> categorical_order ks = ks"
proof -
  assume d: "distinct ks" and s: "sorted ks" and n: "NaN \<notin> set ks"
  have "unique ks = ks" using d by (simp add: unique_def distinct_remdups_id)
  moreover have "filter (\<lambda>v. v \<noteq> NaN) ks = ks" using n by (auto simp: filter_id_conv)
  moreover have "sort ks = ks" using s by (rule sorted_sort_id)
  ultimately show ?thesis by (simp add: categorical_order_def Let_def)
qed

lemma barplot_unique_keys:
  assumes "col_pos x (cols f) = Some a" and "col_pos y (cols f) = Some b"
    and "distinct (map (\<lambda>(i, r). r ! a) (rows f))" and "sorted (map (\<lambda>(i, r). r ! a) (rows f))"
    and "NaN \<notin> set (map (\<lambda>(i, r). r ! a) (rows f))"
    and "\<forall>(i, r) \<in> set (rows f). \<not> is_str (r ! b)"
  shows "barplot x y f = Inr (concat (map (\<lambda>(i, r). case r ! b of Num p \<Rightarrow> [(r ! a, p)] | _ \<Rightarrow> []) (rows f)))"
proof -
  define qs where "qs = map (\<lambda>(i, r). (r ! a, r ! b)) (rows f)"
  have keys: "map fst qs = map (\<lambda>(i, r). r ! a) (rows f)" by (auto simp: qs_def)
  have z: "zip (map snd (map (\<lambda>(i, r). (i, r ! a)) (rows f))) (map snd (map (\<lambda>(i, r). (i, r ! b)) (rows f))) = qs"
    by (simp add: qs_def zip_map_map zip_same_conv_map case_prod_unfold)
  have nostr: "\<not> list_ex is_str (map snd qs)"
    using assms(6) by (auto simp: qs_def list_ex_iff)
  have ks: "map snd (map (\<lambda>(i, r). (i, r ! a)) (rows f)) = map fst qs" by (auto simp: qs_def)
  have vs: "map snd (map (\<lambda>(i, r). (i, r ! b)) (rows f)) = map snd qs" by (auto simp: qs_def)
  have co: "categorical_order (map fst qs) = map fst qs"
    unfolding keys using assms(3-5) by (rule categorical_order_sorted)
  have ke: "bar_estimates (map fst qs) (filter (\<lambda>(a, b). a \<noteq> NaN \<and> b \<noteq> NaN) qs) = bar_estimates (map fst qs) qs"
    using assms(5) unfolding keys [symmetric] by (rule bar_estimates_keep)
  have be: "bar_estimates (map fst qs) qs = concat (map (\<lambda>(k, v). case v of Num p \<Rightarrow> [(k, p)] | _ \<Rightarrow> []) qs)"
    using assms(3) keys by (intro bar_estimates_distinct) simp
  have "barplot x y f =
          (if list_ex is_str (map snd qs) then Inl TypeError
           else Inr (bar_estimates (categorical_order (map fst qs)) (filter (\<lambda>(a, b). a \<noteq> NaN \<and> b \<noteq> NaN) qs)))"
    unfolding barplot_def get_column_Some [OF assms(1)] get_column_Some [OF assms(2)] rbind_Inr
    unfolding z unfolding ks vs ..
  also have "\<dots> = Inr (concat (map (\<lambda>(k, v). case v of Num p \<Rightarrow> [(k, p)] | _ \<Rightarrow> []) qs))"
    using nostr by (simp only: co ke be if_False)
  finally show ?thesis by (simp add: qs_def case_prod_unfold comp_def cong: cell.case_cong)
qed

lemma barplot_named_index:
  assumes "cols gd = genre_data_columns" and "distinct (map fst (rows gd))"
    and "sorted (map fst (rows gd))" and "NaN \<notin> set (map fst (rows gd))"
    and "\<forall>r \<in> set (map snd (rows gd)). length r = length genre_data_columns \<and> (\<forall>v \<in> set r. \<not> is_str v)"
  shows "barplot ''genre'' ''popularity'' (reset_index_named ''genre'' gd) =
           Inr (concat (map (\<lambda>(k, r). case r ! 1 of Num p \<Rightarrow> [(k, p)] | _ \<Rightarrow> []) (rows gd)))"
proof -
  let ?d = "reset_index_named ''genre'' gd"
  let ?ys = "map (\<lambda>(k, r). k # r) (rows gd)"
  have rd: "rows ?d = zip [0..<length (rows gd)] ?ys" by (simp add: reset_index_named_def)
  have keys: "map (\<lambda>(i, r). r ! 0) (rows ?d) = map fst (rows gd)"
    unfolding rd map_zip_upt_snd [OF length_map] by (simp add: case_prod_unfold)
  have vals: "map (\<lambda>(i, r). case r ! 2 of Num p \<Rightarrow> [(r ! 0, p)] | _ \<Rightarrow> []) (rows ?d) =
              map (\<lambda>(k, r). case r ! 1 of Num p \<Rightarrow> [(k, p)] | _ \<Rightarrow> []) (rows gd)"
    unfolding rd map_zip_upt_snd [OF length_map] by (simp add: case_prod_unfold numeral_2_eq_2 cong: cell.case_cong)
  have nostr: "\<not> is_str (r ! 2)" if ir: "(i, r) \<in> set (rows ?d)" for i r
  proof -
    from ir have "r \<in> set ?ys" unfolding rd by (rule zip_upt_right)
    then obtain k r' where rk: "r = k # r'" and r': "r' \<in> set (map snd (rows gd))" by force
    have len: "length r' = 6" and ns: "\<forall>v \<in> set r'. \<not> is_str v"
      using assms(5) r' by (auto simp: genre_data_columns_def)
    have "r' ! 1 \<in> set r'" using len by (intro nth_mem) simp
    with ns show "\<not> is_str (r ! 2)" by (simp add: rk numeral_2_eq_2)
  qed
  have "barplot ''genre'' ''popularity'' ?d =
          Inr (concat (map (\<lambda>(i, r). case r ! 2 of Num p \<Rightarrow> [(r ! 0, p)] | _ \<Rightarrow> []) (rows ?d)))"
  proof (rule barplot_unique_keys)
    show "col_pos ''genre'' (cols ?d) = Some 0" by (simp add: reset_index_named_def)
    show "col_pos ''popularity'' (cols ?d) = Some 2"
      using assms(1) by (simp add: reset_index_named_def genre_data_columns_def)
  qed (use keys assms(2-4) nostr in auto)
  then show ?thesis by (simp only: vals)
qed

text \<open>
  C33: the bar plot of \<open>d\<close> (line 164) draws one bar per genre of
  \<open>genre_data\<close> whose mean popularity exists, in \<open>genre_data\<close>'s (sorted)
  order, its height that mean: one genre per row of \<open>d\<close>, so seaborn's mean
  over the rows of a genre is the value of its single row.
\<close>

theorem barplot_genre_data:
  assumes "col_pos ''genre'' (cols ag) = Some a" and "list_all (numeric_col ag) agg_columns"
    and "genre_data_of ag = Inr gd"
  shows "barplot ''genre'' ''popularity'' (reset_index_named ''genre'' gd) =
           Inr (concat (map (\<lambda>(k, r). case r ! 1 of Num p \<Rightarrow> [(k, p)] | _ \<Rightarrow> []) (rows gd)))"
proof -
  note shape = genre_data_shape [OF assms]
  have "map fst (rows gd) = group_keys (map (\<lambda>(i, r). r ! a) (rows ag))"
    using assms(3) [symmetric] genre_data_of_eq [OF assms(1,2)] by (simp add: comp_def)
  then show ?thesis
    using shape group_keys_props by (intro barplot_named_index) auto
qed

section \<open>Lemmas: the line of fit\<close>

lemma sum_list_centered:
  "sum_list (map (\<lambda>p. f p - mean_list (map f ps)) ps) = 0"
  by (cases "ps = []") (simp_all add: sum_list_subtractf sum_list_triv mean_list_def)

lemma sse_decompose:
  fixes r d :: "real \<times> real \<Rightarrow> real"
  shows "sum_list (map (\<lambda>p. (r p + d p)\<^sup>2) ps) =
         sum_list (map (\<lambda>p. (r p)\<^sup>2) ps) + 2 * sum_list (map (\<lambda>p. r p * d p) ps) +
         sum_list (map (\<lambda>p. (d p)\<^sup>2) ps)"
  by (induction ps) (simp_all add: power2_eq_square algebra_simps)

lemma sum_list_lincomb:
  "sum_list (map (\<lambda>p. f p - c * g p) ps) = sum_list (map f ps) - c * sum_list (map g ps)"
  for c :: real
  by (simp add: sum_list_subtractf sum_list_const_mult)

lemma spread_zero_const:
  "sum_list (map (\<lambda>p. (fst p - m)\<^sup>2) ps) = (0 :: real) \<Longrightarrow> \<forall>p \<in> set ps. fst p = m"
proof -
  assume "sum_list (map (\<lambda>p. (fst p - m)\<^sup>2) ps) = 0"
  then have "\<forall>x \<in> set (map (\<lambda>p. (fst p - m)\<^sup>2) ps). x = 0"
    by (subst (asm) sum_list_nonneg_eq_0_iff) auto
  then show ?thesis by simp
qed

text \<open>The normal equations: the residuals of the fitted line sum to zero, also weighted by \<open>x\<close>.\<close>

text \<open>The least-norm solution of the rank-one case passes through the mean point.\<close>

lemma min_norm_mean: "my / (1 + m\<^sup>2) + m * my / (1 + m\<^sup>2) * m = (my :: real)"
proof -
  have "0 < 1 + m\<^sup>2" by (simp add: add_pos_nonneg)
  then have nz: "1 + m\<^sup>2 \<noteq> 0" by simp
  have "my / (1 + m\<^sup>2) + m * my / (1 + m\<^sup>2) * m = my * (1 + m\<^sup>2) / (1 + m\<^sup>2)"
    by (simp add: add_divide_distrib power2_eq_square algebra_simps)
  then show ?thesis using nz by simp
qed

lemma ls_line_normal:
  fixes ps :: "(real \<times> real) list"
  defines "r \<equiv> \<lambda>p. snd p - (fst (ls_line ps) + snd (ls_line ps) * fst p)"
  shows "sum_list (map r ps) = 0" and "sum_list (map (\<lambda>p. r p * fst p) ps) = 0"
proof -
  define mx where "mx = mean_list (map fst ps)"
  define my where "my = mean_list (map snd ps)"
  define sxx where "sxx = sum_list (map (\<lambda>p. (fst p - mx)\<^sup>2) ps)"
  define sxy where "sxy = sum_list (map (\<lambda>p. (fst p - mx) * (snd p - my)) ps)"
  have su: "sum_list (map (\<lambda>p. fst p - mx) ps) = 0" unfolding mx_def by (rule sum_list_centered)
  have sv: "sum_list (map (\<lambda>p. snd p - my) ps) = 0" unfolding my_def by (rule sum_list_centered)
  have line: "ls_line ps = (if sxx = 0 then (my / (1 + mx\<^sup>2), mx * my / (1 + mx\<^sup>2))
                             else (my - sxy / sxx * mx, sxy / sxx))"
    by (simp add: ls_line_def Let_def mx_def my_def sxx_def sxy_def case_prod_unfold)
  have "sum_list (map r ps) = 0 \<and> sum_list (map (\<lambda>p. r p * fst p) ps) = 0"
  proof (cases "sxx = 0")
    case True
    have xm: "\<forall>p \<in> set ps. fst p = mx"
      using True unfolding sxx_def by (rule spread_zero_const)
    moreover note min_norm_mean [of my mx]
    ultimately have rm: "\<forall>p \<in> set ps. r p = snd p - my"
      using True by (simp add: r_def line)
    have "sum_list (map r ps) = sum_list (map (\<lambda>p. snd p - my) ps)"
      using rm by (intro arg_cong [where f = sum_list] map_cong) auto
    moreover have "sum_list (map (\<lambda>p. r p * fst p) ps) = sum_list (map (\<lambda>p. snd p - my) ps) * mx"
      unfolding sum_list_mult_const [symmetric] using rm xm
      by (intro arg_cong [where f = sum_list] map_cong) auto
    ultimately show ?thesis using sv by simp
  next
    case False
    define b where "b = sxy / sxx"
    have rr: "r p = (snd p - my) - b * (fst p - mx)" for p
      using False by (simp add: r_def line b_def algebra_simps)
    have "sum_list (map r ps) = sum_list (map (\<lambda>p. (snd p - my) - b * (fst p - mx)) ps)"
      by (intro arg_cong [where f = sum_list] map_cong) (simp_all add: rr)
    also have "\<dots> = sum_list (map (\<lambda>p. snd p - my) ps) - b * sum_list (map (\<lambda>p. fst p - mx) ps)"
      by (rule sum_list_lincomb)
    finally have s1: "sum_list (map r ps) = 0" using su sv by simp
    have "sum_list (map (\<lambda>p. r p * (fst p - mx)) ps) =
          sum_list (map (\<lambda>p. (fst p - mx) * (snd p - my) - b * (fst p - mx)\<^sup>2) ps)"
      by (intro arg_cong [where f = sum_list] map_cong) (simp_all add: rr algebra_simps power2_eq_square)
    also have "\<dots> = sxy - b * sxx"
      unfolding sxy_def sxx_def by (rule sum_list_lincomb)
    also have "\<dots> = 0" using False by (simp add: b_def)
    finally have s2: "sum_list (map (\<lambda>p. r p * (fst p - mx)) ps) = 0" .
    have "sum_list (map (\<lambda>p. r p * fst p) ps) = sum_list (map (\<lambda>p. r p * (fst p - mx) + mx * r p) ps)"
      by (intro arg_cong [where f = sum_list] map_cong) (simp_all add: algebra_simps)
    also have "\<dots> = sum_list (map (\<lambda>p. r p * (fst p - mx)) ps) + mx * sum_list (map r ps)"
      by (simp add: sum_list_addf sum_list_const_mult)
    finally have "sum_list (map (\<lambda>p. r p * fst p) ps) = 0" using s1 s2 by simp
    with s1 show ?thesis by simp
  qed
  then show "sum_list (map r ps) = 0" and "sum_list (map (\<lambda>p. r p * fst p) ps) = 0" by simp_all
qed

text \<open>The fitted line has the least residual sum of squares of all lines.\<close>

lemma ls_line_sse_min: "sse (ls_line ps) ps \<le> sse (a, b) ps"
proof -
  define l where "l = ls_line ps"
  define r where "r = (\<lambda>p. snd p - (fst l + snd l * fst p))"
  define d where "d = (\<lambda>p :: real \<times> real. (fst l - a) + (snd l - b) * fst p)"
  have n1: "sum_list (map r ps) = 0" and n2: "sum_list (map (\<lambda>p. r p * fst p) ps) = 0"
    unfolding r_def l_def by (rule ls_line_normal)+
  have "sum_list (map (\<lambda>p. r p * d p) ps) =
        sum_list (map (\<lambda>p. (fst l - a) * r p + (snd l - b) * (r p * fst p)) ps)"
    by (intro arg_cong [where f = sum_list] map_cong) (simp_all add: d_def algebra_simps)
  also have "\<dots> = 0" using n1 n2 by (simp add: sum_list_addf sum_list_const_mult)
  finally have cross: "sum_list (map (\<lambda>p. r p * d p) ps) = 0" .
  have "sse (a, b) ps = sum_list (map (\<lambda>p. (r p + d p)\<^sup>2) ps)"
    unfolding sse_def by (intro arg_cong [where f = sum_list] map_cong) (simp_all add: r_def d_def case_prod_unfold algebra_simps)
  also have "\<dots> = sse l ps + sum_list (map (\<lambda>p. (d p)\<^sup>2) ps)"
    unfolding sse_decompose cross by (simp add: sse_def r_def case_prod_unfold)
  moreover have "0 \<le> sum_list (map (\<lambda>p. (d p)\<^sup>2) ps)" by (rule sum_list_nonneg) auto
  ultimately show ?thesis unfolding l_def by simp
qed


lemma linspace_length [simp]: "length (linspace a b n) = n"
  by (simp add: linspace_def Let_def)

lemma linspace_ends: "linspace a b 100 ! 0 = a" "linspace a b 100 ! 99 = b"
  by (simp_all add: linspace_def Let_def del: upt_Suc)

lemma regplot_line:
  assumes "get_column x f = Inr xs" and "get_column y f = Inr ys"
    and "reg_points xs ys = Inr ps" and "ps \<noteq> []"
  shows "regplot x y f = Inr (map (\<lambda>g. (Num g, Num (fst (ls_line ps) + snd (ls_line ps) * g)))
                          (linspace (list_min (map fst ps)) (list_max (map fst ps)) 100))"
  using assms by (simp add: regplot_def case_prod_unfold Let_def)

section \<open>Lemmas: the scatter groups\<close>

lemma hue_comprehension:
  "[(a, b). (h, a, b) \<leftarrow> zs, P h a b] = map snd (filter (\<lambda>(h, a, b). P h a b) zs)"
  by (induction zs) auto

lemma mset_filter_disj:
  "(\<forall>x \<in> set xs. \<not> (P x \<and> Q x)) \<Longrightarrow>
   mset (filter P xs) + mset (filter Q xs) = mset (filter (\<lambda>x. P x \<or> Q x) xs)"
  by (induction xs) auto

lemma hue_groups_mset:
  "distinct ks \<Longrightarrow>
   mset (concat (map snd (hue_groups ks zs))) =
   mset (map snd (filter (\<lambda>(h, a, b). h \<in> set ks \<and> a \<noteq> NaN \<and> b \<noteq> NaN) zs))"
proof (induction ks)
  case Nil
  then show ?case by (simp add: hue_groups_def)
next
  case (Cons k ks)
  let ?P = "\<lambda>(h, a, b). h = k \<and> a \<noteq> NaN \<and> b \<noteq> NaN"
  let ?Q = "\<lambda>(h, a, b). h \<in> set ks \<and> a \<noteq> NaN \<and> b \<noteq> NaN"
  have dj: "mset (filter ?P zs) + mset (filter ?Q zs) = mset (filter (\<lambda>x. ?P x \<or> ?Q x) zs)"
    using Cons.prems by (intro mset_filter_disj) auto
  have fc: "filter (\<lambda>x. ?P x \<or> ?Q x) zs =
            filter (\<lambda>(h, a, b). h \<in> set (k # ks) \<and> a \<noteq> NaN \<and> b \<noteq> NaN) zs"
    by (intro filter_cong) auto
  have "concat (map snd (hue_groups (k # ks) zs)) =
        map snd (filter ?P zs) @ concat (map snd (hue_groups ks zs))"
    by (simp add: hue_groups_def hue_comprehension)
  then have "mset (concat (map snd (hue_groups (k # ks) zs))) =
             image_mset snd (mset (filter ?P zs)) + image_mset snd (mset (filter ?Q zs))"
    using Cons.IH [OF distinct_tl [OF Cons.prems, simplified]] by (simp only: mset_append mset_map)
  also have "\<dots> = image_mset snd (mset (filter (\<lambda>x. ?P x \<or> ?Q x) zs))"
    by (simp only: dj [symmetric] image_mset_union)
  finally show ?case by (simp only: fc mset_map)
qed

lemma categorical_order_levels:
  "distinct (categorical_order vs) \<and> set (categorical_order vs) = set vs - {NaN}"
  by (auto simp: categorical_order_def unique_def Let_def)

lemma get_column_select:
  assumes "select_columns names f = Inr g" and "c \<in> set names"
  shows "get_column c g = get_column c f"
proof -
  have sub: "set names \<subseteq> set (cols f)"
    using assms(1) by (auto simp: select_columns_def Let_def filter_empty_conv split: if_splits)
  then have g: "g = \<lparr>cols = names,
          rows = map (\<lambda>(i, r). (i, map (\<lambda>c. r ! the (col_pos c (cols f))) names)) (rows f)\<rparr>"
    using assms(1) by (simp add: select_columns_Inr)
  obtain k where k: "col_pos c names = Some k" "k < length names" "names ! k = c"
    using col_pos_in_set [OF assms(2)] by blast
  obtain k' where k': "col_pos c (cols f) = Some k'"
    using col_pos_in_set sub assms(2) by blast
  show ?thesis using k k' by (simp add: g get_column_def case_prod_unfold)
qed

text \<open>
  C6: the line \<open>regplot\<close> draws (lines 199, 226) is the least-squares line of
  the data it keeps: 100 points spanning the smallest to the largest \<open>x\<close>, all
  on one line \<open>a + b x\<close> whose residual sum of squares is no larger than that of
  any other line.
\<close>

theorem regplot_least_squares:
  assumes "get_column x f = Inr xs" and "get_column y f = Inr ys"
    and "reg_points xs ys = Inr ps" and "ps \<noteq> []"
  shows "\<exists>a b out. regplot x y f = Inr out \<and> length out = 100 \<and>
           out ! 0 = (Num (list_min (map fst ps)), Num (a + b * list_min (map fst ps))) \<and>
           out ! 99 = (Num (list_max (map fst ps)), Num (a + b * list_max (map fst ps))) \<and>
           (\<forall>(g, v) \<in> set out. \<exists>r. g = Num r \<and> v = Num (a + b * r)) \<and>
           (\<forall>a' b'. sse (a, b) ps \<le> sse (a', b') ps)"
proof -
  let ?a = "fst (ls_line ps)" and ?b = "snd (ls_line ps)"
  let ?grid = "linspace (list_min (map fst ps)) (list_max (map fst ps)) 100"
  have r: "regplot x y f = Inr (map (\<lambda>g. (Num g, Num (?a + ?b * g))) ?grid)"
    using assms by (rule regplot_line)
  have "sse (?a, ?b) ps \<le> sse (a', b') ps" for a' b'
    using ls_line_sse_min [of ps a' b'] by simp
  moreover have "\<forall>(g, v) \<in> set (map (\<lambda>g. (Num g, Num (?a + ?b * g))) ?grid). \<exists>r. g = Num r \<and> v = Num (?a + ?b * r)"
    by auto
  ultimately show ?thesis
    using r by (intro exI [of _ ?a] exI [of _ ?b]) (simp add: linspace_ends)
qed

text \<open>
  C38: the fitted line passes through the mean point of the data, also when all
  \<open>x\<close> are equal and the pseudo-inverse picks the least-norm solution.
\<close>

theorem ls_line_mean:
  "fst (ls_line ps) + snd (ls_line ps) * mean_list (map fst ps) = mean_list (map snd ps)"
proof (cases "sum_list (map (\<lambda>(x, y). (x - mean_list (map fst ps))\<^sup>2) ps) = 0")
  case True
  then show ?thesis using min_norm_mean by (simp add: ls_line_def Let_def)
next
  case False
  then show ?thesis by (simp add: ls_line_def Let_def)
qed

text \<open>
  C37: data lying exactly on a line with two distinct \<open>x\<close> values gives back
  that line: fitting recovers the intercept and slope that generated the points.
\<close>

theorem ls_line_exact:
  assumes on: "\<forall>p \<in> set ps. snd p = \<alpha> + \<beta> * fst p"
    and x1: "x1 \<in> fst ` set ps" and x2: "x2 \<in> fst ` set ps" and ne: "x1 \<noteq> x2"
  shows "ls_line ps = (\<alpha>, \<beta>)"
proof -
  define mx where "mx = mean_list (map fst ps)"
  define my where "my = mean_list (map snd ps)"
  define sxx where "sxx = sum_list (map (\<lambda>(x, y). (x - mx)\<^sup>2) ps)"
  define sxy where "sxy = sum_list (map (\<lambda>(x, y). (x - mx) * (y - my)) ps)"
  have len: "real (length ps) \<noteq> 0" using x1 by auto
  have "sum_list (map snd ps) = sum_list (map (\<lambda>p. \<alpha> + \<beta> * fst p) ps)"
    using on by (intro arg_cong [where f = sum_list] map_cong) simp_all
  also have "\<dots> = real (length ps) * \<alpha> + \<beta> * sum_list (map fst ps)"
    by (simp add: sum_list_addf sum_list_const_mult sum_list_triv)
  finally have "my = \<alpha> + \<beta> * mx"
    using len by (simp add: my_def mx_def mean_list_def field_simps)
  then have "sxy = sum_list (map (\<lambda>p. \<beta> * (fst p - mx)\<^sup>2) ps)"
    unfolding sxy_def using on
    by (intro arg_cong [where f = sum_list] map_cong) (auto simp: power2_eq_square algebra_simps)
  then have sxy: "sxy = \<beta> * sxx"
    by (simp add: sxx_def sum_list_const_mult case_prod_unfold)
  have "sxx \<noteq> 0"
  proof
    assume "sxx = 0"
    then have "\<forall>p \<in> set ps. fst p = mx"
      unfolding sxx_def case_prod_unfold by (rule spread_zero_const)
    then show False using x1 x2 ne by auto
  qed
  then have "ls_line ps = (my - sxy / sxx * mx, sxy / sxx)"
    by (simp add: ls_line_def Let_def mx_def [symmetric] my_def [symmetric]
        sxx_def [symmetric] sxy_def [symmetric])
  with sxy \<open>sxx \<noteq> 0\<close> \<open>my = \<alpha> + \<beta> * mx\<close> show ?thesis by simp
qed

text \<open>
  C36: \<open>regplot\<close> raises \<open>TypeError\<close> exactly when a row with both values
  present holds a string; when no row has both values it raises nothing and
  draws 100 missing points.
\<close>

theorem regplot_errors:
  assumes "get_column x f = Inr xs" and "get_column y f = Inr ys"
  shows "(regplot x y f = Inl TypeError \<longleftrightarrow>
            list_ex (\<lambda>(a, b). a \<noteq> NaN \<and> b \<noteq> NaN \<and> (is_str a \<or> is_str b)) (zip (map snd xs) (map snd ys))) \<and>
         (list_all (\<lambda>(a, b). a = NaN \<or> b = NaN) (zip (map snd xs) (map snd ys)) \<longrightarrow>
            regplot x y f = Inr (replicate 100 (NaN, NaN)))"
proof -
  let ?zs = "zip (map snd xs) (map snd ys)"
  let ?cs = "filter (\<lambda>(a, b). a \<noteq> NaN \<and> b \<noteq> NaN) ?zs"
  have ex: "list_ex (\<lambda>(a, b). is_str a \<or> is_str b) ?cs \<longleftrightarrow>
            list_ex (\<lambda>(a, b). a \<noteq> NaN \<and> b \<noteq> NaN \<and> (is_str a \<or> is_str b)) ?zs"
    by (auto simp: list_ex_iff)
  have te: "regplot x y f = Inl TypeError \<longleftrightarrow> list_ex (\<lambda>(a, b). is_str a \<or> is_str b) ?cs"
  proof (cases "list_ex (\<lambda>(a, b). is_str a \<or> is_str b) ?cs")
    case True
    then show ?thesis using assms by (simp add: regplot_def reg_points_def)
  next
    case False
    then have "reg_points xs ys = Inr [(a, b). (Num a, Num b) \<leftarrow> ?cs]"
      by (simp add: reg_points_def)
    then show ?thesis using False assms by (simp add: regplot_def case_prod_unfold Let_def)
  qed
  have "list_all (\<lambda>(a, b). a = NaN \<or> b = NaN) ?zs \<Longrightarrow> ?cs = []"
    by (auto simp: list_all_iff filter_empty_conv)
  then have "list_all (\<lambda>(a, b). a = NaN \<or> b = NaN) ?zs \<Longrightarrow> regplot x y f = Inr (replicate 100 (NaN, NaN))"
    using assms by (simp add: regplot_def reg_points_def)
  with te ex show ?thesis by blast
qed

text \<open>
  C35: the scatter plot \<open>lmplot\<close> draws (lines 198, 225, 252, 278, 304) has one
  group per distinct present hue value, and together the groups hold each row
  whose hue, \<open>x\<close> and \<open>y\<close> are all present exactly once: no point is lost or
  drawn twice.
\<close>

theorem lm_scatter_partition:
  assumes "get_column x f = Inr xs" and "get_column y f = Inr ys" and "get_column hue f = Inr hs"
  shows "\<exists>groups. lm_scatter x y hue f = Inr groups \<and>
           distinct (map fst groups) \<and> set (map fst groups) = set (map snd hs) - {NaN} \<and>
           mset (concat (map snd groups)) =
             mset [(a, b). (h, a, b) \<leftarrow> zip (map snd hs) (zip (map snd xs) (map snd ys)),
                           h \<noteq> NaN \<and> a \<noteq> NaN \<and> b \<noteq> NaN]"
proof -
  let ?names = "sort (remdups [x, y, hue])"
  let ?zs = "zip (map snd hs) (zip (map snd xs) (map snd ys))"
  let ?ks = "categorical_order (map snd hs)"
  have "c \<in> set (cols f)" if "get_column c f = Inr s" for c s
    using that by (auto simp: get_column_def dest: col_pos_Some_in_set split: option.splits)
  then have "set ?names \<subseteq> set (cols f)" using assms unfolding set_sort set_remdups by auto
  then obtain g where g: "select_columns ?names f = Inr g"
    using select_columns_Inr by blast
  have "c \<in> set ?names" if "c \<in> {x, y, hue}" for c using that unfolding set_sort set_remdups by simp
  then have gx: "get_column x g = Inr xs" and gy: "get_column y g = Inr ys" and gh: "get_column hue g = Inr hs"
    using get_column_select [OF g] assms by simp_all
  have lm: "lm_scatter x y hue f = Inr (hue_groups ?ks ?zs)"
    unfolding lm_scatter_def g rbind_Inr gx gy gh ..
  have lv: "distinct ?ks" "set ?ks = set (map snd hs) - {NaN}" using categorical_order_levels by blast+
  have "filter (\<lambda>(h, a, b). h \<in> set ?ks \<and> a \<noteq> NaN \<and> b \<noteq> NaN) ?zs =
        filter (\<lambda>(h, a, b). h \<noteq> NaN \<and> a \<noteq> NaN \<and> b \<noteq> NaN) ?zs"
    using lv(2) by (intro filter_cong) (auto dest: set_zip_leftD)
  then have ms: "mset (concat (map snd (hue_groups ?ks ?zs))) =
             mset [(a, b). (h, a, b) \<leftarrow> ?zs, h \<noteq> NaN \<and> a \<noteq> NaN \<and> b \<noteq> NaN]"
    using hue_groups_mset [OF lv(1)] by (simp only: hue_comprehension)
  have mf: "map fst (hue_groups ?ks ?zs) = ?ks" by (simp add: hue_groups_def comp_def)
  show ?thesis
    by (intro exI [of _ "hue_groups ?ks ?zs"] conjI) (simp_all only: lm mf lv ms)
qed


end
