(* ===== verification/Notebook.thy ===== *)
theory Notebook
  imports Explode Plots
begin

text \<open>
  The script as the notebook runs it: the module-level names \<open>df\<close>,
  \<open>all_genres\<close>, \<open>genre_data\<close> and \<open>d\<close> are the state, and each executed
  cell \<open>In[n]\<close> of src/Investigate_a_Dataset.py is one step (a plot cell is
  one step per plotting call): it may rebind names and it displays the value of
  its last expression, or for a plot what the plot computes. A cell that raises
  stops the run. The handle \<open>g\<close> a plot call returns, read only by the
  \<open>regplot\<close> after it to draw into the same axes, is not part of the state. The names \<open>all_genres\<close>, \<open>genre_data\<close> and \<open>d\<close>
  are unbound until the cell that binds them runs. The loader \<open>pd.read_csv\<close> is
  not modelled: the run starts from the frame it returns, labelled \<open>0, 1, ...\<close>.
\<close>

section \<open>State, cells and outputs\<close>

record nb_state =
  df :: "nat frame"
  all_genres :: "nat frame option"
  genre_data :: "cell frame option"
  d :: "nat frame option"

text \<open>What a cell displays.\<close>

datatype cell_output =
    OFrame "nat frame"
  | OShape "nat \<times> nat"
  | OInfo "nat \<times> (string \<times> nat \<times> col_kind) list"
  | OCounts "(string \<times> nat) list"
  | ONat nat
  | OSeries "cell series"
  | OHist "nat list \<times> real list"
  | OBars "(cell \<times> real) list"
  | OScatter "(cell \<times> (cell \<times> cell) list) list"
  | OLine "(cell \<times> cell) list"
  | ONone

text \<open>The executed cells, by their role.\<close>

datatype nb_cell =
    Shape        \<comment> \<open>\<open>In[4]\<close>, line 51\<close>
  | Info         \<comment> \<open>\<open>In[5]\<close>, line 58\<close>
  | Select       \<comment> \<open>\<open>In[6]\<close>, lines 68--69\<close>
  | IsNull       \<comment> \<open>\<open>In[7]\<close>, line 76\<close>
  | CountDup     \<comment> \<open>\<open>In[8]\<close>, line 84\<close>
  | DropDup      \<comment> \<open>\<open>In[9]\<close>, lines 92--93\<close>
  | DropZero     \<comment> \<open>\<open>In[10]\<close>, lines 100--101\<close>
  | Expand       \<comment> \<open>\<open>In[11]\<close>, lines 108--114\<close>
  | Aggregate    \<comment> \<open>\<open>In[12]\<close>, lines 121--140\<close>
  | ResetD       \<comment> \<open>\<open>In[13]\<close>, line 155\<close>
  | Bar          \<comment> \<open>\<open>In[14]\<close>, line 164\<close>
  | Rank         \<comment> \<open>\<open>In[15]\<close>, line 178\<close>
  | Hist string nat  \<comment> \<open>\<open>In[16]\<close>, ..., \<open>In[26]\<close>: \<open>d.col.hist(bins=n)\<close>\<close>
  | Scatter string   \<comment> \<open>\<open>In[17]\<close>, ..., \<open>In[25]\<close>: \<open>sns.lmplot(data=d, x=col, ...)\<close>\<close>
  | Reg string       \<comment> \<open>\<open>In[17]\<close>, \<open>In[19]\<close>: \<open>sns.regplot(data=d, x=col, ...)\<close>\<close>

text \<open>The seven columns line 68 keeps.\<close>

definition analysed_columns :: "string list" where
  "analysed_columns =
     [''genres'', ''popularity'', ''vote_average'', ''runtime'', ''budget_adj'', ''revenue_adj'', ''release_year'']"

text \<open>
  The state the notebook starts from once \<open>In[3]\<close> has loaded \<open>df\<close>: the names a
  later cell binds are unbound (\<open>None\<close>), and reading one raises \<open>NameError\<close>.
\<close>

definition load :: "nat frame \<Rightarrow> nb_state" where
  "load raw = \<lparr>df = raw, all_genres = None, genre_data = None, d = None\<rparr>"

definition name_value :: "string \<Rightarrow> 'a option \<Rightarrow> 'a result" where
  "name_value n v = (case v of None \<Rightarrow> Inl (NameError n) | Some x \<Rightarrow> Inr x)"

fun step :: "nb_cell \<Rightarrow> nb_state \<Rightarrow> (nb_state \<times> cell_output) result" where
  "step Shape st = Inr (st, OShape (shape (df st)))"
| "step Info st = Inr (st, OInfo (info_summary (df st)))"
| "step Select st =
     rbind (select_columns analysed_columns (df st)) (\<lambda>f. Inr (st\<lparr>df := f\<rparr>, OFrame f))"
| "step IsNull st = Inr (st, OCounts (isnull_sum (df st)))"
| "step CountDup st = Inr (st, ONat (count_duplicated (df st)))"
| "step DropDup st =
     (let _ = drop_duplicates (df st) in Inr (st, ONat (count_duplicated (df st))))"
| "step DropZero st = (let f = drop_zero_rows (df st) in Inr (st\<lparr>df := f\<rparr>, OFrame f))"
| "step Expand st =
     rbind (explode_genres (df st)) (\<lambda>f. Inr (st\<lparr>all_genres := Some f\<rparr>, OFrame f))"
| "step Aggregate st =
     rbind (name_value ''all_genres'' (all_genres st)) (\<lambda>ag.
     rbind (genre_data_of ag) (\<lambda>g. Inr (st\<lparr>genre_data := Some g\<rparr>, ONone)))"
| "step ResetD st =
     rbind (name_value ''genre_data'' (genre_data st)) (\<lambda>g.
     Inr (st\<lparr>d := Some (reset_index_named ''genre'' g)\<rparr>, ONone))"
| "step Bar st =
     rbind (name_value ''d'' (d st)) (\<lambda>f.
     rbind (barplot ''genre'' ''popularity'' f) (\<lambda>b. Inr (st, OBars b)))"
| "step Rank st =
     rbind (name_value ''genre_data'' (genre_data st)) (\<lambda>g.
     rbind (popularity_ranking g) (\<lambda>s. Inr (st, OSeries s)))"
| "step (Hist c n) st =
     rbind (name_value ''d'' (d st)) (\<lambda>f.
     rbind (get_column c f) (\<lambda>s. rbind (series_hist n s) (\<lambda>h. Inr (st, OHist h))))"
| "step (Scatter c) st =
     rbind (name_value ''d'' (d st)) (\<lambda>f.
     rbind (lm_scatter c ''popularity'' ''genre'' f) (\<lambda>g. Inr (st, OScatter g)))"
| "step (Reg c) st =
     rbind (name_value ''d'' (d st)) (\<lambda>f.
     rbind (regplot c ''popularity'' f) (\<lambda>l. Inr (st, OLine l)))"

text \<open>Running cells in order, collecting what they display; the first exception stops the run.\<close>

fun run :: "nb_cell list \<Rightarrow> nb_state \<Rightarrow> (nb_state \<times> cell_output list) result" where
  "run [] st = Inr (st, [])"
| "run (c # cs) st =
     rbind (step c st) (\<lambda>(st', out). rbind (run cs st') (\<lambda>(st'', outs). Inr (st'', out # outs)))"

text \<open>The cells in the order the notebook executes them: the analysis up to \<open>In[13]\<close> ...\<close>

definition analysis_cells :: "nb_cell list" where
  "analysis_cells = [Shape, Info, Select, IsNull, CountDup, DropDup, DropZero, Expand, Aggregate, ResetD]"

text \<open>
  ... then the report, which only reads \<open>d\<close> and \<open>genre_data\<close>: the bar plot,
  the ranking, and per analysed column its scatter plot (with the line of fit
  for the budget and the revenue) and its histogram (lines 164--316).
\<close>

definition report_cells :: "nb_cell list" where
  "report_cells =
     [Bar, Rank, Hist ''popularity'' 8,
      Scatter ''budget_adj'', Reg ''budget_adj'', Hist ''budget_adj'' 6,
      Scatter ''revenue_adj'', Reg ''revenue_adj'', Hist ''revenue_adj'' 6,
      Scatter ''release_year'', Hist ''release_year'' 6,
      Scatter ''runtime'', Hist ''runtime'' 6,
      Scatter ''vote_average'', Hist ''vote_average'' 6]"

definition notebook :: "nb_cell list" where
  "notebook = analysis_cells @ report_cells"


section \<open>Lemmas\<close>

lemma run_append:
  "run (xs @ ys) st = rbind (run xs st) (\<lambda>(st', os). rbind (run ys st') (\<lambda>(st'', os'). Inr (st'', os @ os')))"
proof (induction xs arbitrary: st)
  case Nil
  then show ?case by (cases "run ys st") (auto simp: case_prod_unfold)
next
  case (Cons c xs)
  then show ?case
    by (cases "step c st") (auto simp: rbind_def case_prod_unfold split: sum.splits)
qed

text \<open>Cells that each succeed without changing the state run in sequence, displaying what each computes.\<close>

lemma run_stay:
  "list_all (\<lambda>c. \<exists>out. step c st = Inr (st, out)) cs \<Longrightarrow>
   \<exists>outs. run cs st = Inr (st, outs) \<and> list_all2 (\<lambda>c out. step c st = Inr (st, out)) cs outs"
proof (induction cs)
  case (Cons c cs)
  then obtain out outs where "step c st = Inr (st, out)" and "run cs st = Inr (st, outs)"
    and "list_all2 (\<lambda>c out. step c st = Inr (st, out)) cs outs" by auto
  then show ?case by (intro exI [of _ "out # outs"]) simp
qed simp

lemma series_hist_no_str:
  "\<forall>(i, v) \<in> set s. \<not> is_str v \<Longrightarrow> 0 < n \<Longrightarrow> \<exists>h. series_hist n s = Inr h"
  by (auto simp: series_hist_def hist_values_def list_ex_iff np_histogram_Inr)

lemma hist_Inr: "numeric_col f c \<Longrightarrow> 0 < n \<Longrightarrow> \<exists>h. rbind (get_column c f) (series_hist n) = Inr h"
  using numeric_col_series series_hist_no_str by fastforce

text \<open>Every averaged column of \<open>d\<close> is numeric: the report reads only numbers.\<close>

lemma reset_named_numeric:
  assumes "cols gd = genre_data_columns"
    and "\<forall>r \<in> set (map snd (rows gd)). length r = length genre_data_columns \<and> (\<forall>v \<in> set r. \<not> is_str v)"
    and c: "c \<in> set genre_data_columns"
  shows "numeric_col (reset_index_named ''genre'' gd) c"
proof -
  obtain j where j: "col_pos c genre_data_columns = Some j" "j < length genre_data_columns"
    using col_pos_in_set [OF c] by blast
  have "c \<noteq> ''genre''" using c by (auto simp: genre_data_columns_def)
  then have pos: "col_pos c (cols (reset_index_named ''genre'' gd)) = Some (Suc j)"
    using j assms(1) by (simp add: reset_index_named_def)
  have "\<not> is_str (r ! Suc j)" if "r \<in> set (map snd (rows (reset_index_named ''genre'' gd)))" for r
  proof -
    have "r \<in> set (map (\<lambda>(k, r). k # r) (rows gd))"
      using that by (simp add: reset_index_named_def map_snd_zip del: set_map)
    then obtain k r' where "r = k # r'" and "r' \<in> set (map snd (rows gd))" by force
    with assms(2) j(2) show ?thesis by (auto dest: nth_mem)
  qed
  with pos show ?thesis by (auto simp: numeric_col_iff)
qed

lemma explode_row_prefix: "x \<in> set (explode_row g r) \<Longrightarrow> \<exists>v. x = r @ [v]"
  by (auto simp: explode_row_def split: list.splits)

lemma numeric_col_explode:
  assumes "numeric_col f c" and "list_all (\<lambda>(i, r). length r = length (cols f)) (rows f)"
  shows "numeric_col (reset_index \<lparr>cols = cols f @ [''genre''],
           rows = concat (map (\<lambda>(i, r). map (Pair i) (explode_row (r ! k) r)) (rows f))\<rparr>) c"
proof -
  obtain b where b: "col_pos c (cols f) = Some b"
    and ns: "\<forall>r \<in> set (map snd (rows f)). \<not> is_str (r ! b)"
    using assms(1) by (auto simp: numeric_col_iff)
  have lt: "b < length (cols f)" using col_pos_Some [OF b] by simp
  have "\<not> is_str (r' ! b)" if ir: "(i, r) \<in> set (rows f)" and r': "r' \<in> set (explode_row (r ! k) r)" for i r r'
  proof -
    obtain v where "r' = r @ [v]" using explode_row_prefix [OF r'] by blast
    moreover have "length r = length (cols f)" using assms(2) ir by (auto simp: list_all_iff)
    ultimately show ?thesis using ns ir lt by (force simp: nth_append)
  qed
  then show ?thesis
    using b by (auto simp: numeric_col_iff col_pos_append)
qed

lemma select_drop_zero_labels:
  assumes "select_columns names f = Inr g" and "distinct (map fst (rows f))"
  shows "distinct (map fst (rows (drop_zero_rows g)))"
proof -
  have "set names \<subseteq> set (cols f)"
    using assms(1) by (auto simp: select_columns_def Let_def filter_empty_conv split: if_splits)
  then have "map fst (rows g) = map fst (rows f)"
    using assms(1) by (auto simp: select_columns_Inr)
  then show ?thesis
    using assms(2) by (simp add: drop_zero_rows_filter distinct_map_filter)
qed

lemma select_drop_zero_lengths:
  assumes "select_columns names f = Inr g"
  shows "list_all (\<lambda>(i, r). length r = length (cols (drop_zero_rows g))) (rows (drop_zero_rows g))"
proof -
  have "set names \<subseteq> set (cols f)"
    using assms(1) by (auto simp: select_columns_def Let_def filter_empty_conv split: if_splits)
  then show ?thesis
    using assms(1) by (auto simp: select_columns_Inr drop_zero_rows_filter list_all_iff)
qed

subsection \<open>The analysis cells on a loaded table\<close>

lemma explode_selected:
  assumes "select_columns analysed_columns raw = Inr g" and "distinct (map fst (rows raw))"
  shows "explode_genres (drop_zero_rows g) =
           Inr (reset_index \<lparr>cols = analysed_columns @ [''genre''],
                  rows = concat (map (\<lambda>(i, r). map (Pair i) (explode_row (r ! 0) r)) (rows (drop_zero_rows g)))\<rparr>)"
proof -
  have cg: "cols g = analysed_columns"
    using assms(1) by (auto simp: select_columns_def Let_def split: if_splits)
  have "explode_genres (drop_zero_rows g) =
          Inr (reset_index \<lparr>cols = cols (drop_zero_rows g) @ [''genre''],
                rows = concat (map (\<lambda>(i, r). map (Pair i) (explode_row (r ! 0) r)) (rows (drop_zero_rows g)))\<rparr>)"
  proof (rule explode_genres_Inr)
    show "distinct (map fst (rows (drop_zero_rows g)))"
      using assms by (rule select_drop_zero_labels)
    show "col_pos ''genres'' (cols (drop_zero_rows g)) = Some 0" by (simp add: cg analysed_columns_def)
    show "''genre'' \<notin> set (cols (drop_zero_rows g))" by (simp add: cg analysed_columns_def)
  qed
  then show ?thesis by (simp add: cg)
qed

lemma explode_selected_numeric:
  assumes "select_columns analysed_columns raw = Inr g" and "distinct (map fst (rows raw))"
    and "explode_genres (drop_zero_rows g) = Inr ag"
    and "c \<in> set agg_columns" and "numeric_col raw c"
  shows "numeric_col ag c"
proof -
  have cg: "cols g = analysed_columns"
    using assms(1) by (auto simp: select_columns_def Let_def split: if_splits)
  have "c \<in> set analysed_columns" using assms(4) by (auto simp: agg_columns_def analysed_columns_def)
  then have "numeric_col (drop_zero_rows g) c"
    using numeric_col_drop_zero numeric_col_select [OF assms(1) _ assms(5)] by blast
  moreover have "ag = reset_index \<lparr>cols = cols (drop_zero_rows g) @ [''genre''],
           rows = concat (map (\<lambda>(i, r). map (Pair i) (explode_row (r ! 0) r)) (rows (drop_zero_rows g)))\<rparr>"
    using assms(3) explode_selected [OF assms(1,2)] by (simp add: cg)
  ultimately show ?thesis
    using numeric_col_explode [OF _ select_drop_zero_lengths [OF assms(1)], where k = 0] by simp
qed

lemma ranking_of_shape:
  assumes "cols gd = genre_data_columns"
    and "\<forall>r \<in> set (map snd (rows gd)). length r = length genre_data_columns \<and> (\<forall>v \<in> set r. \<not> is_str v)"
  shows "\<exists>s. popularity_ranking gd = Inr s"
proof (rule popularity_ranking_Inr)
  show "col_pos ''popularity'' (cols gd) = Some 1" using assms(1) by (simp add: genre_data_columns_def)
  show "\<forall>r \<in> set (map snd (rows gd)). \<not> is_str (r ! 1)"
    using assms(2) by (auto simp: genre_data_columns_def dest!: bspec intro: nth_mem)
qed

lemma report_cells_total:
  assumes dd: "d st = Some (reset_index_named ''genre'' gd)" and gg: "genre_data st = Some gd"
    and shape: "cols gd = genre_data_columns"
      "\<forall>r \<in> set (map snd (rows gd)). length r = length genre_data_columns \<and> (\<forall>v \<in> set r. \<not> is_str v)"
  shows "list_all (\<lambda>c. \<exists>out. step c st = Inr (st, out)) report_cells"
proof -
  let ?D = "reset_index_named ''genre'' gd"
  have num: "numeric_col ?D c" if "c \<in> set genre_data_columns" for c
    using shape that by (rule reset_named_numeric)
  have cd: "set (cols ?D) = insert ''genre'' (set genre_data_columns)"
    using shape(1) by (simp add: reset_index_named_def)
  have pop: "''popularity'' \<in> set genre_data_columns" by (simp add: genre_data_columns_def)
  have bar: "\<exists>out. step Bar st = Inr (st, out)"
    using barplot_Inr [of "''genre''" ?D, OF _ num [OF pop]] cd dd by (auto simp: name_value_def)
  have rank: "\<exists>out. step Rank st = Inr (st, out)"
    using ranking_of_shape [OF shape] gg by (auto simp: name_value_def)
  have hist: "\<exists>out. step (Hist c n) st = Inr (st, out)" if "c \<in> set genre_data_columns" "0 < n" for c n
    using hist_Inr [OF num [OF that(1)] that(2)] dd by (auto simp: name_value_def rbind_eq_Inr)
  have scat: "\<exists>out. step (Scatter c) st = Inr (st, out)" if "c \<in> set genre_data_columns" for c
    using lm_scatter_Inr [of c "''popularity''" "''genre''" ?D] cd that pop dd by (auto simp: name_value_def)
  have reg: "\<exists>out. step (Reg c) st = Inr (st, out)" if "c \<in> set genre_data_columns" for c
    using regplot_Inr [OF num [OF that] num [OF pop]] dd by (auto simp: name_value_def)
  show ?thesis
    unfolding report_cells_def list.pred_inject
    using bar rank hist scat reg by (simp add: genre_data_columns_def)
qed


text \<open>
  C32: once \<open>d\<close> holds the aggregate, the report cells (bar plot, ranking,
  scatter plots, lines of fit, histograms) can be run in any order, each any
  number of times: no run raises, the state stays as it is, and each cell
  displays the same value wherever it runs.
\<close>

theorem report_cells_any_order:
  assumes "d st = Some (reset_index_named ''genre'' gd)" and "genre_data st = Some gd"
    and "cols gd = genre_data_columns"
    and "\<forall>r \<in> set (map snd (rows gd)). length r = length genre_data_columns \<and> (\<forall>v \<in> set r. \<not> is_str v)"
    and "set cs \<subseteq> set report_cells"
  shows "\<exists>outs. run cs st = Inr (st, outs) \<and> list_all2 (\<lambda>c out. step c st = Inr (st, out)) cs outs"
proof (rule run_stay)
  have "list_all (\<lambda>c. \<exists>out. step c st = Inr (st, out)) report_cells"
    using assms(1-4) by (rule report_cells_total)
  with assms(5) show "list_all (\<lambda>c. \<exists>out. step c st = Inr (st, out)) cs"
    by (auto simp: list_all_iff)
qed

end
