(* ===== verification/Reachable.thy ===== *)
theory Reachable
  imports Notebook
begin

text \<open>
  A notebook's cells can be run in any order and any number of times. The
  states reachable from a loaded table by running cells are an inductive set;
  the invariant below holds in all of them: every bound frame is well formed
  (distinct column names, every row as wide as the header), the aggregate has
  the columns line 139 combines, and the names are bound in the order the
  cells that bind them depend on each other.
\<close>

inductive reachable :: "nat frame \<Rightarrow> nb_state \<Rightarrow> bool" for raw where
  init: "reachable raw (load raw)"
| step: "reachable raw st \<Longrightarrow> step c st = Inr (st', out) \<Longrightarrow> reachable raw st'"

definition nb_inv :: "nb_state \<Rightarrow> bool" where
  "nb_inv st \<longleftrightarrow>
     wf_frame (df st) \<and>
     pred_option wf_frame (all_genres st) \<and>
     pred_option (\<lambda>g. wf_frame g \<and> cols g = genre_data_columns) (genre_data st) \<and>
     pred_option wf_frame (d st) \<and>
     (genre_data st \<noteq> None \<longrightarrow> all_genres st \<noteq> None) \<and>
     (d st \<noteq> None \<longrightarrow> genre_data st \<noteq> None)"

text \<open>The aggregate's shape and types: the six columns of line 139, rows of that width, no string.\<close>

definition gd_typed :: "cell frame \<Rightarrow> bool" where
  "gd_typed gd \<longleftrightarrow> cols gd = genre_data_columns \<and>
     (\<forall>r \<in> set (map snd (rows gd)). length r = length genre_data_columns \<and> (\<forall>v \<in> set r. \<not> is_str v))"

text \<open>
  A table the whole notebook runs on: the analysed columns present, a unique
  index, no string in an aggregated column.
\<close>

definition df_ready :: "nat frame \<Rightarrow> bool" where
  "df_ready f \<longleftrightarrow>
     set analysed_columns \<subseteq> set (cols f) \<and> distinct (map fst (rows f)) \<and> list_all (numeric_col f) agg_columns"

section \<open>Lemmas\<close>

lemma reset_index_wf:
  assumes "wf_frame f"
  shows "wf_frame (reset_index f)"
proof -
  have "length r = length (cols f)" if "(i, r) \<in> set (rows (reset_index f))" for i r
  proof -
    have "(i, r) \<in> set (zip [0..<length (rows f)] (map snd (rows f)))"
      using that by (simp add: reset_index_def)
    then have "r \<in> set (map snd (rows f))" by (rule zip_upt_right)
    then show ?thesis using assms by (auto simp: wf_frame_def list_all_iff)
  qed
  then show ?thesis using assms by (auto simp: wf_frame_def list_all_iff)
qed

lemma df_join_wf:
  assumes "wf_frame f" and "df_join f name s = Inr j"
  shows "wf_frame j"
proof -
  have nm: "name \<notin> set (cols f)" and cj: "cols j = cols f @ [name]"
    and j: "rows j = concat (map (\<lambda>(i, r). case map snd (filter (\<lambda>(k, v). k = i) s) of
                                          [] \<Rightarrow> [(i, r @ [NaN])] | vs \<Rightarrow> map (\<lambda>v. (i, r @ [v])) vs) (rows f))"
    using assms(2) by (auto simp: df_join_def split: if_splits)
  have len: "length r = Suc (length (cols f))" if ir: "(i, r) \<in> set (rows j)" for i r
  proof -
    have "\<forall>(i, r) \<in> set (rows f). \<forall>x \<in> set (case map snd (filter (\<lambda>(k, v). k = i) s) of
             [] \<Rightarrow> [(i, r @ [NaN])] | vs \<Rightarrow> map (\<lambda>v. (i, r @ [v])) vs). \<exists>v. snd x = r @ [v]"
      by (auto split: list.splits)
    then obtain i' r' v where "(i', r') \<in> set (rows f)" and "r = r' @ [v]"
      using ir unfolding j by fastforce
    then show ?thesis using assms(1) by (auto simp: wf_frame_def list_all_iff)
  qed
  show ?thesis
    unfolding wf_frame_def list_all_iff using assms(1) nm len by (auto simp: wf_frame_def cj)
qed

lemma explode_genres_wf: "wf_frame f \<Longrightarrow> explode_genres f = Inr ag \<Longrightarrow> wf_frame ag"
  by (auto simp: explode_genres_def rbind_eq_Inr intro: reset_index_wf df_join_wf)

lemma genre_data_of_wf:
  assumes "genre_data_of ag = Inr gd"
  shows "wf_frame gd \<and> cols gd = genre_data_columns"
proof -
  obtain named where "concat_axis1 genre_data_columns
      (map (\<lambda>c. case map_of named c of Some s \<Rightarrow> s | None \<Rightarrow> []) genre_data_columns) = Inr gd"
    using assms by (auto simp: genre_data_of_def rbind_eq_Inr)
  then show ?thesis
    by (auto simp: concat_axis1_def wf_frame_def list_all_iff genre_data_columns_def split: if_splits)
qed

lemma reset_index_named_wf:
  assumes "wf_frame g" and "name \<notin> set (cols g)"
  shows "wf_frame (reset_index_named name g)"
proof -
  have "length r = Suc (length (cols g))" if "(i, r) \<in> set (rows (reset_index_named name g))" for i r
  proof -
    have "(i, r) \<in> set (zip [0..<length (rows g)] (map (\<lambda>(k, r). k # r) (rows g)))"
      using that by (simp add: reset_index_named_def)
    then have "r \<in> set (map (\<lambda>(k, r). k # r) (rows g))" by (rule zip_upt_right)
    then show ?thesis using assms(1) by (auto simp: wf_frame_def list_all_iff)
  qed
  then show ?thesis using assms by (auto simp: wf_frame_def list_all_iff reset_index_named_def)
qed

lemma step_nb_inv:
  assumes "nb_inv st" and "step c st = Inr (st', out)"
  shows "nb_inv st'"
proof (cases c)
  case Select
  moreover have "distinct analysed_columns" by (simp add: analysed_columns_def)
  ultimately show ?thesis
    using assms by (auto simp: nb_inv_def rbind_eq_Inr intro: select_columns_wf)
next
  case DropZero
  then show ?thesis using assms by (auto simp: nb_inv_def Let_def intro: drop_zero_rows_wf)
next
  case Expand
  then show ?thesis using assms by (auto simp: nb_inv_def rbind_eq_Inr intro: explode_genres_wf)
next
  case Aggregate
  with assms(2) obtain ag gd where "all_genres st = Some ag" and "genre_data_of ag = Inr gd"
    and "st' = st\<lparr>genre_data := Some gd\<rparr>"
    by (auto simp: rbind_eq_Inr name_value_def split: option.splits)
  then show ?thesis
    using assms(1) genre_data_of_wf [of ag gd] by (auto simp: nb_inv_def)
next
  case ResetD
  with assms(2) obtain gd where gd: "genre_data st = Some gd"
    and st': "st' = st\<lparr>d := Some (reset_index_named ''genre'' gd)\<rparr>"
    by (auto simp: rbind_eq_Inr name_value_def split: option.splits)
  with assms(1) have "wf_frame gd" and "''genre'' \<notin> set (cols gd)"
    by (auto simp: nb_inv_def genre_data_columns_def)
  then show ?thesis
    using assms(1) gd st' reset_index_named_wf by (auto simp: nb_inv_def)
qed (use assms in \<open>auto simp: rbind_eq_Inr name_value_def split: option.splits\<close>)

lemma run_reachable:
  "run cs st = Inr (st', outs) \<Longrightarrow> reachable raw st \<Longrightarrow> reachable raw st'"
proof (induction cs arbitrary: st outs)
  case (Cons c cs)
  then obtain st1 o1 outs1 where "step c st = Inr (st1, o1)" and "run cs st1 = Inr (st', outs1)"
    by (auto simp: rbind_eq_Inr split: prod.splits)
  with Cons show ?case by (blast intro: reachable.step)
qed simp

lemma nb_inv_load: "wf_frame raw \<Longrightarrow> nb_inv (load raw)"
  by (simp add: nb_inv_def load_def)

lemma reachable_inv: "reachable raw st \<Longrightarrow> wf_frame raw \<Longrightarrow> nb_inv st"
  by (induction rule: reachable.induct) (auto intro: nb_inv_load step_nb_inv)

text \<open>
  C29: whatever cells run, in whatever order, every frame the notebook binds
  stays well formed, \<open>genre_data\<close> has the six columns of line 139, and
  \<open>d\<close> is bound only after \<open>genre_data\<close>, which is bound only after \<open>all_genres\<close>.
\<close>

theorem reachable_nb_inv:
  assumes "reachable raw st" and "wf_frame raw"
  shows "nb_inv st"
  using assms by (rule reachable_inv)

text \<open>
  C31: run out of order, before the expansion cell has bound \<open>all_genres\<close>, the
  aggregation, reset, ranking, bar plot, histogram, scatter and line-of-fit
  cells raise \<open>NameError\<close> for the name they read, whatever ran before.
\<close>

theorem unbound_name_errors:
  assumes "reachable raw st" and "wf_frame raw" and "all_genres st = None"
  shows "step Aggregate st = Inl (NameError ''all_genres'') \<and>
         step ResetD st = Inl (NameError ''genre_data'') \<and>
         step Rank st = Inl (NameError ''genre_data'') \<and>
         step Bar st = Inl (NameError ''d'') \<and>
         step (Hist c n) st = Inl (NameError ''d'') \<and>
         step (Scatter c) st = Inl (NameError ''d'') \<and>
         step (Reg c) st = Inl (NameError ''d'')"
proof -
  have "nb_inv st" using assms(1,2) by (rule reachable_inv)
  with assms(3) have "genre_data st = None" and "d st = None" by (auto simp: nb_inv_def)
  with assms(3) show ?thesis by (simp add: name_value_def)
qed

subsection \<open>Types of the bound frames\<close>

lemma genre_data_of_typed: "genre_data_of ag = Inr gd \<Longrightarrow> gd_typed gd"
  using genre_data_of_wf [of ag gd] genre_data_of_not_str [of ag gd]
  by (auto simp: gd_typed_def wf_frame_def list_all_iff)

lemma step_keeps_aggregates:
  "step c st = Inr (st', out) \<Longrightarrow> c \<noteq> Aggregate \<Longrightarrow> c \<noteq> ResetD \<Longrightarrow>
   genre_data st' = genre_data st \<and> d st' = d st"
  by (cases c) (auto simp: rbind_eq_Inr name_value_def Let_def split: option.splits)

lemma reachable_typed:
  "reachable raw st \<Longrightarrow>
   pred_option gd_typed (genre_data st) \<and>
   (\<forall>f. d st = Some f \<longrightarrow> (\<exists>gd. gd_typed gd \<and> f = reset_index_named ''genre'' gd))"
proof (induction rule: reachable.induct)
  case init
  then show ?case by (simp add: load_def)
next
  case (step st c st' out)
  consider "c = Aggregate" | "c = ResetD" | "c \<noteq> Aggregate \<and> c \<noteq> ResetD" by blast
  then show ?case
  proof cases
    case 1
    with step.hyps(2) have "\<exists>(ag :: nat frame) gd. genre_data_of ag = Inr gd \<and> st' = st\<lparr>genre_data := Some gd\<rparr>"
      by (auto simp: rbind_eq_Inr name_value_def split: option.splits)
    then obtain ag :: "nat frame" and gd where "genre_data_of ag = Inr gd" and "genre_data st' = Some gd" and "d st' = d st"
      by auto
    then show ?thesis using step.IH genre_data_of_typed by simp
  next
    case 2
    with step.hyps(2) have "\<exists>gd. genre_data st = Some gd \<and> st' = st\<lparr>d := Some (reset_index_named ''genre'' gd)\<rparr>"
      by (auto simp: rbind_eq_Inr name_value_def split: option.splits)
    then obtain gd where "genre_data st = Some gd" and "genre_data st' = genre_data st"
      and "d st' = Some (reset_index_named ''genre'' gd)"
      by auto
    then show ?thesis using step.IH by auto
  next
    case 3
    then show ?thesis using step_keeps_aggregates [OF step.hyps(2)] step.IH by simp
  qed
qed

text \<open>
  C30: in every state the cells can reach, in whatever order they ran, a bound
  \<open>d\<close> has the header \<open>genre\<close> followed by the six columns of line 139, and
  each of those six columns holds only numbers or missing values (a float
  column): the plots read no string.
\<close>

theorem reachable_d_typed:
  assumes "reachable raw st" and "d st = Some f"
  shows "cols f = ''genre'' # genre_data_columns \<and> list_all (numeric_col f) genre_data_columns"
proof -
  obtain gd where t: "gd_typed gd" and f: "f = reset_index_named ''genre'' gd"
    using reachable_typed [OF assms(1)] assms(2) by blast
  have "numeric_col f c" if "c \<in> set genre_data_columns" for c
    using t that unfolding f gd_typed_def by (blast intro: reset_named_numeric)
  with t show ?thesis by (simp add: f gd_typed_def reset_index_named_def list_all_iff)
qed

subsection \<open>Running the notebook again\<close>

lemma select_ready:
  assumes "df_ready f" and "select_columns analysed_columns f = Inr g"
  shows "df_ready g"
proof -
  have sub: "set analysed_columns \<subseteq> set (cols f)" using assms(1) by (simp add: df_ready_def)
  then have cg: "cols g = analysed_columns" and lg: "map fst (rows g) = map fst (rows f)"
    using assms(2) by (auto simp: select_columns_Inr)
  have "c \<in> set analysed_columns" if "c \<in> set agg_columns" for c
    using that by (auto simp: agg_columns_def analysed_columns_def)
  then have "list_all (numeric_col g) agg_columns"
    using assms numeric_col_select [OF assms(2)] by (auto simp: df_ready_def list_all_iff)
  then show ?thesis using assms(1) cg lg by (simp add: df_ready_def)
qed

lemma drop_zero_ready: "df_ready f \<Longrightarrow> df_ready (drop_zero_rows f)"
  by (auto simp: df_ready_def list_all_iff drop_zero_rows_filter distinct_map_filter
      intro: numeric_col_drop_zero)

lemma step_df_ready:
  assumes "df_ready (df st)" and "step c st = Inr (st', out)"
  shows "df_ready (df st')"
  using assms select_ready drop_zero_ready
  by (cases c) (auto simp: rbind_eq_Inr name_value_def Let_def split: option.splits)

lemma reachable_df_ready: "reachable raw st \<Longrightarrow> df_ready raw \<Longrightarrow> df_ready (df st)"
  by (induction rule: reachable.induct) (auto simp: load_def intro: step_df_ready)

text \<open>
  The notebook run from any state whose table is ready: the cells before the
  report rebind every name from \<open>df\<close> alone, so what was bound before does not
  matter, and no cell raises.
\<close>

lemma run_notebook_from:
  assumes "df_ready (df st)"
  shows "\<exists>g ag gd outs. select_columns analysed_columns (df st) = Inr g \<and>
           explode_genres (drop_zero_rows g) = Inr ag \<and> genre_data_of ag = Inr gd \<and>
           run notebook st =
             Inr (\<lparr>df = drop_zero_rows g, all_genres = Some ag, genre_data = Some gd,
                   d = Some (reset_index_named ''genre'' gd)\<rparr>,
                  [OShape (shape (df st)), OInfo (info_summary (df st)), OFrame g, OCounts (isnull_sum g), ONat (count_duplicated g),
                   ONat (count_duplicated g), OFrame (drop_zero_rows g), OFrame ag, ONone, ONone] @ outs) \<and>
           list_all2 (\<lambda>c out. step c \<lparr>df = drop_zero_rows g, all_genres = Some ag, genre_data = Some gd,
                   d = Some (reset_index_named ''genre'' gd)\<rparr> =
                 Inr (\<lparr>df = drop_zero_rows g, all_genres = Some ag, genre_data = Some gd,
                   d = Some (reset_index_named ''genre'' gd)\<rparr>, out)) report_cells outs"
proof -
  obtain raw a0 g0 d0 where st: "st = \<lparr>df = raw, all_genres = a0, genre_data = g0, d = d0\<rparr>"
    by (cases st) auto
  have r: "set analysed_columns \<subseteq> set (cols raw)" "distinct (map fst (rows raw))"
    "list_all (numeric_col raw) agg_columns"
    using assms by (simp_all add: st df_ready_def)
  obtain g where sel: "select_columns analysed_columns raw = Inr g"
    using select_columns_Inr [OF r(1)] by blast
  obtain ag where ex: "explode_genres (drop_zero_rows g) = Inr ag"
    using explode_selected [OF sel r(2)] by blast
  have num: "list_all (numeric_col ag) agg_columns"
    using r(3) explode_selected_numeric [OF sel r(2) ex] by (simp add: list_all_iff)
  have gpos: "col_pos ''genre'' (cols ag) = Some 7"
    using ex [symmetric] explode_selected [OF sel r(2)] by (simp add: analysed_columns_def)
  obtain gd where gd: "genre_data_of ag = Inr gd"
    using genre_data_of_eq [OF gpos num] by blast
  note shape = genre_data_shape [OF gpos num gd]
  define st' where "st' = \<lparr>df = drop_zero_rows g, all_genres = Some ag, genre_data = Some gd,
                          d = Some (reset_index_named ''genre'' gd)\<rparr>"
  have core: "run analysis_cells st =
                Inr (st', [OShape (shape raw), OInfo (info_summary raw), OFrame g, OCounts (isnull_sum g), ONat (count_duplicated g),
                          ONat (count_duplicated g), OFrame (drop_zero_rows g), OFrame ag, ONone, ONone])"
    using sel ex gd by (simp add: st analysis_cells_def st'_def Let_def name_value_def)
  have "list_all (\<lambda>c. \<exists>out. step c st' = Inr (st', out)) report_cells"
    using shape by (intro report_cells_total) (auto simp only: st'_def nb_state.simps)
  then obtain outs where rs: "run report_cells st' = Inr (st', outs)"
    and outs: "list_all2 (\<lambda>c out. step c st' = Inr (st', out)) report_cells outs"
    using run_stay by blast
  have "run notebook st = Inr (st', [OShape (shape raw), OInfo (info_summary raw), OFrame g, OCounts (isnull_sum g),
          ONat (count_duplicated g), ONat (count_duplicated g), OFrame (drop_zero_rows g), OFrame ag,
          ONone, ONone] @ outs)"
    by (simp add: notebook_def run_append core rs)
  then show ?thesis
    using sel ex gd outs unfolding st'_def by (auto simp: st)
qed


end
