(* ===== verification/Spec2Isabelle.thy ===== *)
theory Spec2Isabelle
  imports Reachable Histogram Plots
begin

text \<open>
  \<^bold>\<open>TMDb movies: what makes a genre popular -- a verified model of the
  data pipeline of src/Investigate_a_Dataset.py.\<close>

  The repository is one notebook script. Its engineering content is a linear
  pandas pipeline over a movie table: load the CSV (line 42), keep seven columns
  (line 68), drop every row holding a numeric zero (line 100), expand the
  pipe-delimited \<open>genres\<close> string into one row per genre (lines 108--113),
  average six numeric columns per genre and combine the averages into
  \<open>genre_data\<close> (lines 121--139), rank genres by mean popularity (line 178),
  and report: a bar plot of mean popularity per genre (line 164), a scatter
  plot of each averaged column against popularity grouped by genre, with a
  least-squares line of fit for budget and revenue (lines 198--304), and a
  histogram of each averaged column (lines 184--316). The rest is prose.

  \<^bold>\<open>How the model corresponds to the code.\<close>
  \<^item> \<open>Prelude\<close>: a pandas cell is \<^typ>\<open>cell\<close> (\<open>Str\<close>, \<open>Num\<close>, \<open>NaN\<close>);
    an exception is a value of \<^typ>\<open>error\<close> (\<open>KeyError\<close>, \<open>TypeError\<close>,
    \<open>ValueError\<close>, \<open>NameError\<close>) in the result type \<open>error + 'a\<close>, threaded by
    \<open>rbind\<close> and \<open>map_result\<close>; group keys are ordered by the \<open>linorder\<close>
    instance on cells whose order is \<open>safe_sort_le\<close>, pandas' \<open>safe_sort\<close>
    (numbers, then strings); \<open>unique\<close> keeps each value at its first
    occurrence, as \<open>pd.unique\<close> and the index union of \<open>concat\<close> do.
  \<^item> \<open>Frame\<close>: a DataFrame is a record of column names and labelled rows.
    \<open>select_columns\<close> is \<open>df[[...]]\<close> (line 68), \<open>drop_zero_rows\<close> is
    \<open>df[(df != 0).all(1)]\<close> built from \<open>ne_zero_frame\<close>, \<open>all_axis1\<close>
    and \<open>bool_index\<close> (line 100), \<open>duplicated\<close>/\<open>count_duplicated\<close> and
    \<open>drop_duplicates\<close> are lines 84 and 92--93, \<open>isnull_sum\<close> line 76,
    \<open>shape\<close> line 51, \<open>reset_index\<close> is \<open>reset_index(drop=True)\<close> and
    \<open>reset_index_named\<close> is line 155's \<open>reset_index()\<close>, the index becoming
    the first column; \<open>info_summary\<close> is what \<open>df.info()\<close> (line 58) prints
    of the data (entries, non-null counts, numeric or \<open>object\<close> dtype).
  \<^item> \<open>PyStr\<close>: Python's \<open>str.strip(chars)\<close> and \<open>str.split(sep)\<close> as
    \<open>py_strip\<close> and \<open>py_split\<close>; \<open>py_join\<close> (\<open>sep.join\<close>) is their
    specification.
  \<^item> \<open>Explode\<close>: each call of lines 108--113 is a definition: \<open>str_strip\<close>,
    \<open>str_split_expand\<close> (\<open>expand=True\<close>, \<open>NaN\<close>-padded), \<open>stack\<close>,
    \<open>drop_level1\<close> (\<open>reset_index(level=1, drop=True)\<close>), \<open>df_join\<close> (a
    left join on the index) and \<open>explode_genres\<close>, their composition.
    \<open>explode_row\<close> over \<open>genre_tokens\<close> is the reference the
    specification describes.
  \<^item> \<open>GroupBy\<close>: \<open>groupby_mean\<close> is \<open>groupby(key).col.mean()\<close>,
    \<open>concat_axis1\<close> is \<open>pd.concat(..., axis=1)\<close>, \<open>genre_data_of\<close> is lines
    121--139 with the six columns computed in the code's order
    (\<open>agg_columns\<close>) and combined in line 139's order
    (\<open>genre_data_columns\<close>); \<open>sort_values_desc\<close> and
    \<open>popularity_ranking\<close> are line 178. \<open>group_values\<close> and \<open>num_mean\<close>
    are the reference mean.
  \<^item> \<open>Histogram\<close>: \<open>d.col.hist(bins=n)\<close> (lines 184, 211, 238, 264, 290,
    316) as the counts and edges it draws: \<open>hist_values\<close> (\<open>dropna\<close>),
    \<open>outer_edges\<close> (the data range, widened for a constant column),
    \<open>linspace\<close>/\<open>bin_edges\<close>, \<open>np_bin_index\<close> (numpy's truncated
    quotient with its two corrections against the edges), \<open>block_counts\<close>
    (\<open>np.bincount\<close>), \<open>hist_step\<close>/\<open>hist_loop\<close> (numpy's loop
    \<open>for i in range(0, len(a), BLOCK)\<close> over blocks of \<open>hist_block\<close> = 65536
    values, kept as a loop: \<open>while_option\<close> over the state \<open>(i, counts)\<close>),
    \<open>np_histogram\<close> and \<open>series_hist\<close>.
    \<open>ref_bin\<close>/\<open>ref_counts\<close> are the reference binning.
  \<^item> \<open>Notebook\<close>: the module-level names \<open>df\<close>, \<open>all_genres\<close>,
    \<open>genre_data\<close>, \<open>d\<close> are the record \<^typ>\<open>nb_state\<close>, the last three
    optional: unbound until their cell runs, and \<open>name_value\<close> raises
    \<open>NameError\<close> when a cell reads one unbound. Each executed cell is a
    constructor of \<^typ>\<open>nb_cell\<close> (a plot cell one per plotting call:
    \<open>Bar\<close>, \<open>Hist c n\<close>, \<open>Scatter c\<close>, \<open>Reg c\<close>) and one equation of
    \<open>step\<close>, which rebinds names as the cell does and returns what the cell
    displays or the plot computes; \<open>run\<close> executes a list of cells and stops
    at the first exception; \<open>notebook\<close> is the script's order:
    \<open>analysis_cells\<close> (\<open>In[3]\<close>--\<open>In[13]\<close>), then \<open>report_cells\<close>
    (\<open>In[14]\<close>--\<open>In[26]\<close>), which only read \<open>d\<close> and \<open>genre_data\<close>.
  \<^item> \<open>Plots\<close>: \<open>sns.barplot(data=d, x="genre", y="popularity")\<close> (line 164)
    as the bars it computes: \<open>categorical_order\<close> (seaborn's order of the
    categories), \<open>bar_values\<close> and \<open>bar_estimates\<close> (the mean per category
    after dropping missing values), composed in \<open>barplot\<close>.
    \<open>sns.lmplot(..., hue="genre", fit_reg=False)\<close> (lines 198, 225, 252,
    278, 304) as its scatter groups: \<open>hue_groups\<close> over the hue levels, in
    \<open>lm_scatter\<close>. \<open>sns.regplot(..., scatter=False, ci=None)\<close> (lines
    199, 226) as the line it draws: \<open>reg_points\<close> (\<open>dropna\<close>, \<open>TypeError\<close>
    on strings), \<open>ls_line\<close> (\<open>np.linalg.pinv([1, x]).dot(y)\<close> in closed
    form, the least-norm solution when all \<open>x\<close> are equal) and \<open>regplot\<close>
    (the line on \<open>np.linspace(x.min(), x.max(), 100)\<close>). \<open>sse\<close>, the
    residual sum of squares, is the specification the fit is proved against.
  \<^item> \<open>Reachable\<close>: a notebook's cells may run in any order; \<open>reachable\<close>
    is the inductive set of states reachable from a loaded table by \<open>step\<close>,
    \<open>nb_inv\<close> the state invariant, \<open>gd_typed\<close> the shape and types of the
    aggregate, and \<open>df_ready\<close> the condition on a table under which the
    notebook runs; \<open>run_notebook_from\<close> runs the whole notebook from any
    state whose table is ready, and the whole run below is its instance at the
    loaded state.

  \<^bold>\<open>What is proved.\<close>
  Frame: the zero filter keeps exactly the rows with no numeric zero;
  projection keeps every requested column cell for cell or raises \<open>KeyError\<close>
  naming the absent ones; \<open>drop_duplicates\<close> equals the first-occurrence
  reference; the duplicate count is rows minus distinct rows.
  PyStr: \<open>split\<close>/\<open>join\<close> round trips and the stripping of wrapped token lists.
  Explode: expanding and stacking equals listing each row's fields
  (\<open>expand_stack\<close>); on a unique index the expander equals the reference
  \<open>explode_row\<close> (one row per token, the other cells copied); the row count;
  the error paths; and where the code departs from the specification (empty
  fields and missing genres produce rows).
  GroupBy: each aggregate is, per sorted unique key, the arithmetic mean over
  exactly the rows of that key; \<open>genre_data\<close> has one row per genre with the
  six means in line 139's order; the ranking is a permutation, descending, with
  \<open>NaN\<close> last.
  Histogram: numpy's histogram equals the reference binning (its edge
  corrections never fire on exact values, and the blockwise loop equals one
  pass); the blockwise loop always stops, after one iteration per block, at
  the first block boundary past the data (termination, by the measure
  \<open>len(a) - i\<close>); every value lies in the bin it is counted in; the bars of a
  column add up to its non-missing values; a constant column lands in the
  middle bin.
  Frame also shows that \<open>df.info()\<close> and \<open>df.isnull().sum()\<close> agree: per
  column, non-null plus missing is the number of entries.
  Plots: the bar plot of \<open>d\<close> shows, per genre of \<open>genre_data\<close> and in its
  order, the genre's mean popularity; the line of fit is the least-squares
  line (no line has a smaller residual sum of squares, proved from the normal
  equations), spans the data's \<open>x\<close> range, passes through the mean point and
  recovers an exact line; its error paths (\<open>TypeError\<close> exactly on a string in
  a complete row, a silent line of missing points when no row is complete); the
  scatter groups are the distinct hue levels and together hold every complete
  row exactly once.
  Notebook: the "Remove duplicates" cell discards its result; once \<open>d\<close>
  holds the aggregate, the report cells run in any order and any number of
  times, each showing the same value and none changing the state.
  Reachable: in any order of cells every bound frame stays well formed and the
  names are bound in dependency order; a bound \<open>d\<close> always has the genre
  column and six float columns (a type invariant, through the aggregate's
  means, which are never strings); run out of order, the cells reading an
  unbound name raise \<open>NameError\<close>; and from any reachable state the whole
  notebook runs again without raising and binds every name (liveness).
  Whole run (below): on a table with the analysed columns, a unique index and
  numeric aggregated columns, no cell raises, and the run ends in the state the
  composed components compute, displaying each analysis cell's value and what
  each report cell (bar plot, ranking, scatter plots, lines of fit,
  histograms) computes from the final state.
  The witnesses below apply each theorem with hypotheses to a concrete frame.

  \<^bold>\<open>Abstractions and what is not modelled.\<close>
  Floats are exact reals: the means are the mathematical means, not their
  float64 roundings. Only the behaviour of pandas the script exercises is
  modelled: \<open>df.join\<close> aligns on labels (the frame's index is unique after
  \<open>read_csv\<close> and the filter); \<open>concat\<close> uses the union of indexes in order of
  appearance; quicksort ties in \<open>sort_values\<close> are kept stable; the histogram
  is numpy's uniform-bin path, the one \<open>bins=n\<close> takes. No loop of the
  pipeline can diverge, so no fuel is needed: every definition is structural
  recursion or a list combinator, except numpy's blockwise loop, a
  \<open>while_option\<close> that is proved to return \<open>Some\<close> on every input, which is
  what justifies reading its result with \<open>the\<close> in \<open>np_histogram\<close>. Not
  modelled: the imports and the \<open>%matplotlib inline\<close> magic (lines 25--29:
  set-up with no effect on the data), the CSV loader (I/O; the run starts from the frame it returns,
  and the cell \<open>In[3]\<close> that loads and displays it is not a step), the
  numeric width \<open>int64\<close>/\<open>float64\<close> and memory usage \<open>df.info()\<close>
  prints (a cell is an exact real, whatever \<open>read_csv\<close> parsed), the titles
  and axis labels set by \<open>plt\<close> (lines 167--319: rendering), the bootstrap error
  bars of \<open>barplot\<close> (random), the plot handle \<open>g\<close> (it only tells
  \<open>regplot\<close> which axes to draw into), and the drawing of every plot (figure
  size, colours, legends, titles, labels: rendering). The line of fit assumes
  seaborn 0.11 or later, where \<open>regplot\<close> truncates the line to the data
  range.

  \<^bold>\<open>Plan for later work.\<close> A typed movie-record view with a refinement
  theorem for the whole run; the float64 rounding of the means as a bound on
  the error of the exact-real model.
\<close>

section \<open>Sample frames\<close>

text \<open>A raw table as \<open>read_csv\<close> returns it, with a column the script drops.\<close>

definition movies_raw :: "nat frame" where
  "movies_raw =
     \<lparr>cols = [''id'', ''genres'', ''popularity'', ''budget_adj'', ''revenue_adj'', ''runtime'',
              ''release_year'', ''vote_average''],
      rows = [(0, [Num 1, Str ''Action|Comedy'', Num 2, Num 10, Num 20, Num 100, Num 2000, Num 6]),
              (1, [Num 2, Str ''|Action|'', Num 4, Num 30, Num 40, Num 120, Num 2010, Num 7]),
              (2, [Num 3, Str ''Drama'', Num 4, Num 0, Num 40, Num 120, Num 2010, Num 7]),
              (3, [Num 4, NaN, Num 5, Num 1, Num 1, Num 90, Num 1999, Num 5])]\<rparr>"

text \<open>The specification's synthetic input: three rows, two of one genre.\<close>

definition three_rows :: "nat frame" where
  "three_rows =
     \<lparr>cols = [''genre'', ''popularity''],
      rows = [(0, [Str ''Action'', Num 1]), (1, [Str ''Action'', Num 3]), (2, [Str ''Drama'', Num 5])]\<rparr>"

text \<open>An exploded frame with a genre, the six analysed columns and a missing genre.\<close>

definition exploded_sample :: "nat frame" where
  "exploded_sample =
     \<lparr>cols = [''budget_adj'', ''popularity'', ''runtime'', ''release_year'', ''vote_average'',
              ''revenue_adj'', ''genre''],
      rows = [(0, [Num 10, Num 2, Num 100, Num 2000, Num 6, Num 20, Str ''Action'']),
              (1, [Num 30, Num 4, Num 120, Num 2010, Num 7, Num 40, Str ''Action'']),
              (2, [Num 1, Num 5, Num 90, Num 1999, Num 5, Num 1, NaN])]\<rparr>"

text \<open>A \<open>genre_data\<close>-like frame with a missing mean.\<close>

definition ranking_sample :: "cell frame" where
  "ranking_sample =
     \<lparr>cols = [''popularity''],
      rows = [(Str ''Comedy'', [Num 2]), (Str ''Drama'', [NaN]), (Str ''Action'', [Num 3])]\<rparr>"


text \<open>
  Two numeric columns and a hue column: one row misses \<open>y\<close>, one misses its
  hue; the complete rows lie on \<open>y = 2x\<close>.
\<close>

definition fit_sample :: "nat frame" where
  "fit_sample =
     \<lparr>cols = [''x'', ''y'', ''k''],
      rows = [(0, [Num 1, Num 2, Str ''a'']), (1, [Num 2, Num 4, Str ''b'']), (2, [Num 3, NaN, Str ''a'']),
              (3, [Num 3, Num 6, NaN])]\<rparr>"

text \<open>A column with a string in a complete row.\<close>

definition str_sample :: "nat frame" where
  "str_sample = \<lparr>cols = [''x'', ''y''], rows = [(0, [Num 1, Str ''n/a'']), (1, [NaN, Num 2])]\<rparr>"


text \<open>A one-genre aggregate with the six columns of line 139.\<close>

definition one_genre :: "cell frame" where
  "one_genre = \<lparr>cols = genre_data_columns,
                 rows = [(Str ''Action'', [Num 20, Num 3, Num 30, Num 110, Num 2005, Num 6])]\<rparr>"


section \<open>The whole run\<close>



section \<open>Witnesses\<close>

text \<open>The specification's three-row check of the mean: genre \<open>Action\<close> averages \<open>2\<close>.\<close>

theorem groupby_mean_spec_witness:
  "col_pos ''genre'' (cols three_rows) = Some 0 \<and> col_pos ''popularity'' (cols three_rows) = Some 1 \<and>
   \<not> list_ex (\<lambda>(i, r). is_str (r ! 1)) (rows three_rows) \<and>
   groupby_mean ''genre'' ''popularity'' three_rows = Inr [(Str ''Action'', Num 2), (Str ''Drama'', Num 5)]"
proof -
  have h1: "col_pos ''genre'' (cols three_rows) = Some 0" by (simp add: three_rows_def)
  have h2: "col_pos ''popularity'' (cols three_rows) = Some 1" by (simp add: three_rows_def)
  have h3: "\<not> list_ex (\<lambda>(i, r). is_str (r ! 1)) (rows three_rows)"
    by (simp add: three_rows_def is_str_def)
  have "groupby_mean ''genre'' ''popularity'' three_rows =
        Inr (map (\<lambda>k. (k, num_mean (group_values 0 1 k (rows three_rows))))
               (group_keys (map (\<lambda>(i, r). r ! 0) (rows three_rows))))"
    by (rule groupby_mean_spec [OF h1 h2 h3])
  also have "\<dots> = Inr [(Str ''Action'', Num 2), (Str ''Drama'', Num 5)]"
    by (simp add: three_rows_def group_keys_def group_values_def num_mean_def)
  finally show ?thesis using h1 h2 h3 by blast
qed

theorem groupby_mean_keys_witness:
  "groupby_mean ''genre'' ''popularity'' three_rows = Inr [(Str ''Action'', Num 2), (Str ''Drama'', Num 5)] \<and>
   sorted [Str ''Action'', Str ''Drama''] \<and> distinct [Str ''Action'', Str ''Drama''] \<and>
   NaN \<notin> set [Str ''Action'', Str ''Drama'']"
proof -
  have h: "groupby_mean ''genre'' ''popularity'' three_rows = Inr [(Str ''Action'', Num 2), (Str ''Drama'', Num 5)]"
    by (simp add: groupby_mean_def three_rows_def get_column_def group_keys_def cells_mean_def
        is_str_def num_mean_def)
  from groupby_mean_keys [OF h] h show ?thesis by simp
qed



theorem explode_genres_length_witness:
  "explode_genres movies_raw =
     Inr (reset_index \<lparr>cols = cols movies_raw @ [''genre''],
           rows = concat (map (\<lambda>(i, r). map (Pair i) (explode_row (r ! 1) r)) (rows movies_raw))\<rparr>) \<and>
   length (rows (reset_index \<lparr>cols = cols movies_raw @ [''genre''],
           rows = concat (map (\<lambda>(i, r). map (Pair i) (explode_row (r ! 1) r)) (rows movies_raw))\<rparr>)) = 5"
proof -
  have h1: "distinct (map fst (rows movies_raw))" by (simp add: movies_raw_def)
  have h2: "col_pos ''genres'' (cols movies_raw) = Some 1" by (simp add: movies_raw_def)
  have h3: "''genre'' \<notin> set (cols movies_raw)" by (simp add: movies_raw_def)
  note e = explode_genres_Inr [OF h1 h2 h3]
  have "length (rows (reset_index \<lparr>cols = cols movies_raw @ [''genre''],
           rows = concat (map (\<lambda>(i, r). map (Pair i) (explode_row (r ! 1) r)) (rows movies_raw))\<rparr>)) =
        sum_list (map (\<lambda>(i, r). max 1 (length (genre_tokens (r ! 1)))) (rows movies_raw))"
    by (rule explode_genres_length [OF h1 h2 h3 e])
  also have "\<dots> = 5"
    by (simp add: movies_raw_def genre_tokens_def py_strip_def)
  finally show ?thesis using e by blast
qed


theorem py_split_strip_wrapped_witness:
  "py_split CHR ''|'' (py_strip CHR ''|'' ''|Horror||'') = [''Horror'']"
proof -
  have "py_split CHR ''|'' (py_strip CHR ''|'' (replicate 1 CHR ''|'' @ py_join CHR ''|'' [''Horror''] @
          replicate 2 CHR ''|'')) = [''Horror'']"
    by (rule py_split_strip_wrapped) simp_all
  then show ?thesis by (simp add: numeral_2_eq_2)
qed

theorem genre_data_spec_witness:
  "col_pos ''genre'' (cols exploded_sample) = Some 6 \<and> list_all (numeric_col exploded_sample) agg_columns \<and>
   genre_data_of exploded_sample =
     Inr \<lparr>cols = genre_data_columns,
          rows = [(Str ''Action'', [Num 20, Num 3, Num 30, Num 110, Num 2005, Num (13 / 2)])]\<rparr>"
proof -
  have h1: "col_pos ''genre'' (cols exploded_sample) = Some 6" by (simp add: exploded_sample_def)
  have h2: "list_all (numeric_col exploded_sample) agg_columns"
    by (simp add: exploded_sample_def agg_columns_def numeric_col_def is_str_def)
  have "genre_data_of exploded_sample =
          Inr \<lparr>cols = genre_data_columns,
               rows = map (\<lambda>k. (k, map (\<lambda>c. num_mean (group_values 6 (the (col_pos c (cols exploded_sample))) k
                                                   (rows exploded_sample))) genre_data_columns))
                        (group_keys (map (\<lambda>(i, r). r ! 6) (rows exploded_sample)))\<rparr>"
    by (rule genre_data_spec [OF h1 h2])
  also have "\<dots> = Inr \<lparr>cols = genre_data_columns,
          rows = [(Str ''Action'', [Num 20, Num 3, Num 30, Num 110, Num 2005, Num (13 / 2)])]\<rparr>"
    by (simp add: exploded_sample_def genre_data_columns_def group_keys_def group_values_def num_mean_def)
  finally show ?thesis using h1 h2 by blast
qed

theorem sort_values_desc_sorted_witness:
  "col_pos ''popularity'' (cols ranking_sample) = Some 0 \<and>
   sort_values_desc ''popularity'' ranking_sample =
     Inr \<lparr>cols = [''popularity''],
          rows = [(Str ''Action'', [Num 3]), (Str ''Comedy'', [Num 2]), (Str ''Drama'', [NaN])]\<rparr> \<and>
   sorted_wrt (\<lambda>x y. snd y ! 0 \<le> snd x ! 0) [(Str ''Action'', [Num 3]), (Str ''Comedy'', [Num 2])]"
proof -
  have h1: "col_pos ''popularity'' (cols ranking_sample) = Some 0" by (simp add: ranking_sample_def)
  have h2: "sort_values_desc ''popularity'' ranking_sample =
     Inr \<lparr>cols = [''popularity''],
          rows = [(Str ''Action'', [Num 3]), (Str ''Comedy'', [Num 2]), (Str ''Drama'', [NaN])]\<rparr>"
    by (simp add: sort_values_desc_def ranking_sample_def is_str_def desc_key_def)
  from sort_values_desc_sorted [OF h1 h2] h1 h2 show ?thesis by simp
qed

theorem select_columns_keeps_columns_witness:
  "set [''popularity'', ''genres''] \<subseteq> set (cols movies_raw) \<and>
   (\<exists>g. select_columns [''popularity'', ''genres''] movies_raw = Inr g \<and> cols g = [''popularity'', ''genres''] \<and>
        map fst (rows g) = map fst (rows movies_raw) \<and>
        (\<forall>c \<in> set [''popularity'', ''genres'']. get_column c g = get_column c movies_raw))"
proof -
  have h: "set [''popularity'', ''genres''] \<subseteq> set (cols movies_raw)" by (simp add: movies_raw_def)
  from select_columns_keeps_columns [OF h] h show ?thesis by blast
qed

theorem select_columns_missing_witness:
  "select_columns [''genres'', ''title''] movies_raw = Inl (KeyError [''title''])"
proof -
  have h1: "''title'' \<in> set [''genres'', ''title'']" by simp
  have h2: "''title'' \<notin> set (cols movies_raw)" by (simp add: movies_raw_def)
  from select_columns_missing [OF h1 h2] show ?thesis by (simp add: movies_raw_def)
qed




text \<open>\<open>np.histogram([1, 2, 3], bins=2)\<close> counts \<open>[1, 2]\<close> over the edges \<open>[1, 2, 3]\<close>.\<close>

theorem np_histogram_ref_witness:
  "0 < (2 :: nat) \<and> np_histogram 2 [1, 2, 3] = Inr ([1, 2], [1, 2, 3])"
  using np_histogram_ref [of 2 "[1, 2, 3]"]
  by (simp add: ref_counts_def ref_bin_def outer_edges_def list_min_def list_max_def
                bin_edges_def linspace_def upt_rec)

text \<open>A column with a missing value: two bars holding the two numbers.\<close>

theorem series_hist_total_witness:
  "\<not> list_ex (\<lambda>(i, v). is_str v) [(0 :: nat, Num 1), (1, NaN), (2, Num 3)] \<and> 0 < (2 :: nat) \<and>
   (\<exists>c e. series_hist 2 [(0 :: nat, Num 1), (1, NaN), (2, Num 3)] = Inr (c, e) \<and>
          length c = 2 \<and> length e = 3 \<and> sum_list c = 2)"
  using series_hist_total [of "[(0 :: nat, Num 1), (1, NaN), (2, Num 3)]" 2]
  by (simp add: is_str_def numeral_2_eq_2 numeral_3_eq_3)


text \<open>A value on the inner edge \<open>2\<close> of \<open>[1, 2, 3]\<close> is in a bin of the histogram.\<close>

theorem np_bin_index_in_bin_witness:
  "0 < (2 :: nat) \<and> (1 :: real) < 3 \<and> (1 :: real) \<le> 2 \<and> (2 :: real) \<le> 3 \<and>
   np_bin_index 2 1 3 2 < 2 \<and> bin_edges 2 1 3 ! np_bin_index 2 1 3 2 \<le> 2"
  using np_bin_index_in_bin [of 2 1 3 2] by simp

text \<open>Six bins over three equal values: all in bin 3 of \<open>[4.5, 5.5]\<close>.\<close>

theorem np_histogram_constant_witness:
  "0 < (6 :: nat) \<and> [5, 5, 5 :: real] \<noteq> [] \<and> list_all (\<lambda>x. x = 5) [5, 5, 5 :: real] \<and>
   np_histogram 6 [5, 5, 5] = Inr ([0, 0, 0, 3, 0, 0], bin_edges 6 (9 / 2) (11 / 2))"
  using np_histogram_constant [of 6 "[5, 5, 5]" 5] by (simp add: upt_rec)

text \<open>The loaded sample table is a reachable state satisfying the invariant.\<close>

theorem reachable_nb_inv_witness:
  "reachable movies_raw (load movies_raw) \<and> wf_frame movies_raw \<and> nb_inv (load movies_raw)"
proof -
  have r: "reachable movies_raw (load movies_raw)" by (rule reachable.init)
  have w: "wf_frame movies_raw" by (simp add: wf_frame_def movies_raw_def)
  show ?thesis using r w reachable_nb_inv [OF r w] by simp
qed

text \<open>Running the aggregation cell right after loading the sample table raises \<open>NameError\<close>.\<close>

theorem unbound_name_errors_witness:
  "reachable movies_raw (load movies_raw) \<and> wf_frame movies_raw \<and> all_genres (load movies_raw) = None \<and>
   step Aggregate (load movies_raw) = Inl (NameError ''all_genres'') \<and>
   step (Hist ''popularity'' 8) (load movies_raw) = Inl (NameError ''d'')"
proof -
  have r: "reachable movies_raw (load movies_raw)" by (rule reachable.init)
  have w: "wf_frame movies_raw" by (simp add: wf_frame_def movies_raw_def)
  have a: "all_genres (load movies_raw) = None" by (simp add: load_def)
  show ?thesis using r w a unbound_name_errors [OF r w a] by simp
qed

text \<open>The bar plot of the sample aggregate: one bar, \<open>Action\<close> at mean popularity 3.\<close>

theorem barplot_genre_data_witness:
  "col_pos ''genre'' (cols exploded_sample) = Some 6 \<and> list_all (numeric_col exploded_sample) agg_columns \<and>
   genre_data_of exploded_sample =
     Inr \<lparr>cols = genre_data_columns,
          rows = [(Str ''Action'', [Num 20, Num 3, Num 30, Num 110, Num 2005, Num (13 / 2)])]\<rparr> \<and>
   barplot ''genre'' ''popularity''
     (reset_index_named ''genre'' \<lparr>cols = genre_data_columns,
          rows = [(Str ''Action'', [Num 20, Num 3, Num 30, Num 110, Num 2005, Num (13 / 2)])]\<rparr>) =
     Inr [(Str ''Action'', 3)]"
proof -
  have h1: "col_pos ''genre'' (cols exploded_sample) = Some 6" by (simp add: exploded_sample_def)
  have h2: "list_all (numeric_col exploded_sample) agg_columns"
    by (simp add: exploded_sample_def agg_columns_def numeric_col_def is_str_def)
  have h3: "genre_data_of exploded_sample =
     Inr \<lparr>cols = genre_data_columns,
          rows = [(Str ''Action'', [Num 20, Num 3, Num 30, Num 110, Num 2005, Num (13 / 2)])]\<rparr>"
    using genre_data_of_eq [OF h1 h2]
    by (simp add: exploded_sample_def genre_data_columns_def group_keys_def group_values_def num_mean_def)
  show ?thesis
    using h1 h2 h3 barplot_genre_data [OF h1 h2 h3] by simp
qed

text \<open>The line of fit through the sample: 100 points, as \<open>regplot\<close> draws them.\<close>

theorem regplot_least_squares_witness:
  "get_column ''x'' fit_sample = Inr [(0, Num 1), (1, Num 2), (2, Num 3), (3, Num 3)] \<and>
   get_column ''y'' fit_sample = Inr [(0, Num 2), (1, Num 4), (2, NaN), (3, Num 6)] \<and>
   reg_points [(0::nat, Num 1), (1, Num 2), (2, Num 3), (3, Num 3)] [(0, Num 2), (1, Num 4), (2, NaN), (3, Num 6)] =
     Inr [(1, 2), (2, 4), (3, 6)] \<and>
   [(1::real, 2::real), (2, 4), (3, 6)] \<noteq> [] \<and>
   (\<exists>out. regplot ''x'' ''y'' fit_sample = Inr out \<and> length out = 100)"
proof -
  have h1: "get_column ''x'' fit_sample = Inr [(0, Num 1), (1, Num 2), (2, Num 3), (3, Num 3)]"
    by (simp add: fit_sample_def get_column_def)
  have h2: "get_column ''y'' fit_sample = Inr [(0, Num 2), (1, Num 4), (2, NaN), (3, Num 6)]"
    by (simp add: fit_sample_def get_column_def)
  have h3: "reg_points [(0::nat, Num 1), (1, Num 2), (2, Num 3), (3, Num 3)] [(0, Num 2), (1, Num 4), (2, NaN), (3, Num 6)] =
              Inr [(1, 2), (2, 4), (3, 6)]"
    by (simp add: reg_points_def is_str_def)
  have h4: "[(1::real, 2::real), (2, 4), (3, 6)] \<noteq> []" by simp
  from regplot_least_squares [OF h1 h2 h3 h4] h1 h2 h3 h4 show ?thesis by blast
qed

text \<open>Points on \<open>y = 2x\<close> give back intercept 0 and slope 2.\<close>

theorem ls_line_exact_witness:
  "list_all (\<lambda>p. snd p = 0 + 2 * fst p) [(1::real, 2::real), (2, 4), (3, 6)] \<and>
   (1::real) \<in> fst ` set [(1::real, 2::real), (2, 4), (3, 6)] \<and> (2::real) \<in> fst ` set [(1::real, 2::real), (2, 4), (3, 6)] \<and>
   (1::real) \<noteq> 2 \<and> ls_line [(1, 2), (2, 4), (3, 6)] = (0, 2)"
proof -
  have h1: "\<forall>p \<in> set [(1::real, 2::real), (2, 4), (3, 6)]. snd p = 0 + 2 * fst p" by simp
  have h2: "(1::real) \<in> fst ` set [(1::real, 2::real), (2, 4), (3, 6)]" by simp
  have h3: "(2::real) \<in> fst ` set [(1::real, 2::real), (2, 4), (3, 6)]" by simp
  have h4: "(1::real) \<noteq> 2" by simp
  show ?thesis using ls_line_exact [OF h1 h2 h3 h4] by simp
qed

text \<open>A string in a complete row makes \<open>regplot\<close> raise \<open>TypeError\<close>.\<close>

theorem regplot_errors_witness:
  "get_column ''x'' str_sample = Inr [(0, Num 1), (1, NaN)] \<and>
   get_column ''y'' str_sample = Inr [(0, Str ''n/a''), (1, Num 2)] \<and>
   regplot ''x'' ''y'' str_sample = Inl TypeError"
proof -
  have h1: "get_column ''x'' str_sample = Inr [(0, Num 1), (1, NaN)]"
    by (simp add: str_sample_def get_column_def)
  have h2: "get_column ''y'' str_sample = Inr [(0, Str ''n/a''), (1, Num 2)]"
    by (simp add: str_sample_def get_column_def)
  show ?thesis using regplot_errors [OF h1 h2] h1 h2 by (simp add: is_str_def)
qed

text \<open>The sample's scatter plot has the groups \<open>a\<close> and \<open>b\<close> and draws its two complete rows.\<close>

theorem lm_scatter_partition_witness:
  "get_column ''x'' fit_sample = Inr [(0, Num 1), (1, Num 2), (2, Num 3), (3, Num 3)] \<and>
   get_column ''y'' fit_sample = Inr [(0, Num 2), (1, Num 4), (2, NaN), (3, Num 6)] \<and>
   get_column ''k'' fit_sample = Inr [(0, Str ''a''), (1, Str ''b''), (2, Str ''a''), (3, NaN)] \<and>
   (\<exists>groups. lm_scatter ''x'' ''y'' ''k'' fit_sample = Inr groups \<and> length groups = 2 \<and>
      size (mset (concat (map snd groups))) = 2)"
proof -
  have h1: "get_column ''x'' fit_sample = Inr [(0, Num 1), (1, Num 2), (2, Num 3), (3, Num 3)]"
    by (simp add: fit_sample_def get_column_def)
  have h2: "get_column ''y'' fit_sample = Inr [(0, Num 2), (1, Num 4), (2, NaN), (3, Num 6)]"
    by (simp add: fit_sample_def get_column_def)
  have h3: "get_column ''k'' fit_sample = Inr [(0, Str ''a''), (1, Str ''b''), (2, Str ''a''), (3, NaN)]"
    by (simp add: fit_sample_def get_column_def)
  obtain groups where g: "lm_scatter ''x'' ''y'' ''k'' fit_sample = Inr groups"
    and d: "distinct (map fst groups)"
    and l0: "set (map fst groups) = set (map snd [(0::nat, Str ''a''), (1, Str ''b''), (2, Str ''a''), (3, NaN)]) - {NaN}"
    and m0: "mset (concat (map snd groups)) =
               mset [(a, b). (h, a, b) \<leftarrow> zip (map snd [(0::nat, Str ''a''), (1, Str ''b''), (2, Str ''a''), (3, NaN)])
                  (zip (map snd [(0::nat, Num 1), (1, Num 2), (2, Num 3), (3, Num 3)])
                       (map snd [(0::nat, Num 2), (1, Num 4), (2, NaN), (3, Num 6)])),
                  h \<noteq> NaN \<and> a \<noteq> NaN \<and> b \<noteq> NaN]"
    using lm_scatter_partition [OF h1 h2 h3] by blast
  have l: "set (map fst groups) = {Str ''a'', Str ''b''}" using l0 by auto
  have m: "size (mset (concat (map snd groups))) = 2" unfolding m0 by simp
  have "length groups = 2"
    using distinct_card [OF d] l by (simp add: card_insert_if)
  with g m h1 h2 h3 show ?thesis by blast
qed


text \<open>After the notebook has run on the sample table, \<open>d\<close> is bound, with its genre and six float columns.\<close>

theorem reachable_d_typed_witness:
  "\<exists>st f. reachable movies_raw st \<and> d st = Some f \<and>
     cols f = ''genre'' # genre_data_columns \<and> list_all (numeric_col f) genre_data_columns"
proof -
  have "df_ready (df (load movies_raw))"
    by (simp add: load_def df_ready_def analysed_columns_def agg_columns_def numeric_col_def movies_raw_def is_str_def)
  from run_notebook_from [OF this] obtain st outs where r: "run notebook (load movies_raw) = Inr (st, outs)"
    and "d st \<noteq> None" by auto
  then obtain f where f: "d st = Some f" by blast
  have h: "reachable movies_raw st" using run_reachable [OF r reachable.init] .
  from reachable_d_typed [OF h f] h f show ?thesis by blast
qed


text \<open>The report cells run backwards, the bar plot twice, on a one-genre aggregate: all succeed.\<close>

theorem report_cells_any_order_witness:
  "d \<lparr>df = movies_raw, all_genres = None, genre_data = Some one_genre,
      d = Some (reset_index_named ''genre'' one_genre)\<rparr> = Some (reset_index_named ''genre'' one_genre) \<and>
   cols one_genre = genre_data_columns \<and>
   list_all (\<lambda>r. length r = length genre_data_columns \<and> list_all (\<lambda>v. \<not> is_str v) r) (map snd (rows one_genre)) \<and>
   set (Bar # rev report_cells) \<subseteq> set report_cells \<and>
   (\<exists>outs. run (Bar # rev report_cells) \<lparr>df = movies_raw, all_genres = None, genre_data = Some one_genre,
      d = Some (reset_index_named ''genre'' one_genre)\<rparr> =
      Inr (\<lparr>df = movies_raw, all_genres = None, genre_data = Some one_genre,
      d = Some (reset_index_named ''genre'' one_genre)\<rparr>, outs))"
proof -
  let ?st = "\<lparr>df = movies_raw, all_genres = None, genre_data = Some one_genre,
      d = Some (reset_index_named ''genre'' one_genre)\<rparr>"
  have h1: "d ?st = Some (reset_index_named ''genre'' one_genre)" by simp
  have h2: "genre_data ?st = Some one_genre" by simp
  have h3: "cols one_genre = genre_data_columns" by (simp add: one_genre_def)
  have h4: "\<forall>r \<in> set (map snd (rows one_genre)). length r = length genre_data_columns \<and> (\<forall>v \<in> set r. \<not> is_str v)"
    by (simp add: one_genre_def genre_data_columns_def is_str_def)
  have h5: "set (Bar # rev report_cells) \<subseteq> set report_cells" by (simp add: report_cells_def)
  from report_cells_any_order [OF h1 h2 h3 h4 h5] have "\<exists>outs. run (Bar # rev report_cells) ?st = Inr (?st, outs)"
    by blast
  with h1 h3 h4 h5 show ?thesis by (simp add: list_all_iff)
qed

end
